theory Spec2Isabelle
  imports Main "HOL-Library.Sublist" "HOL-Library.Multiset"
begin

section \<open>Data model\<close>

text \<open>
  The program is a single TypeScript file, \<^verbatim>\<open>src/main.ts\<close>. Its interfaces become records
  with the field names of the source; \<^verbatim>\<open>id\<close> and \<^verbatim>\<open>fields\<close> are written \<open>id'\<close> and \<open>fields'\<close>. Several interfaces share
  field names, so the selectors are written with the record's name (\<open>Sprint.name\<close>).
  Optional fields (\<^verbatim>\<open>startDate?: string\<close>) are options. Strings are \<open>string\<close>; the only
  string operations of the program are concatenation and a search for an ASCII substring.
\<close>

datatype error = RequestFailed | TypeError | WriteFailed

record Sprint =
  id' :: int
  name :: string
  state :: string
  startDate :: "string option"
  endDate :: "string option"

record ParentFields =
  summary :: string

record Parent =
  key :: string
  fields' :: ParentFields

record Status =
  name :: string

record IssueFields =
  summary :: string
  status :: Status
  parent :: "Parent option"

record JiraIssue =
  id' :: string
  key :: string
  fields' :: IssueFields

text \<open>
  \<^verbatim>\<open>EpicGroup\<close> is an object used as a dictionary. Its own properties are kept as an
  association list in the order of their creation, since the formatter iterates over them.
\<close>

record Group =
  epicName :: string
  issues :: "JiraIssue list"

type_synonym EpicGroup = "(string \<times> Group) list"

text \<open>
  The body of a response of the board's sprint listing,
  \<^verbatim>\<open>{values: Sprint[], isLast: bool, total: int}\<close>. A field the code tests for truthiness
  or compares may be missing: \<open>values\<close> and \<open>total\<close> are options, and a missing
  \<^verbatim>\<open>isLast\<close> is falsy, that is \<open>False\<close>. The body of a search response is
  \<^verbatim>\<open>{issues: JiraIssue[]}\<close>, with \<open>foundIssues = None\<close> when the field is missing.
\<close>

record SprintPage =
  "values" :: "Sprint list option"
  isLast :: bool
  total :: "int option"

record SearchData =
  foundIssues :: "JiraIssue list option"

text \<open>
  The response of the ticket endpoint is read field by field with no declared type
  (\<^verbatim>\<open>agileResponse.data.fields["cf[10007]"]\<close>), so it is a JavaScript value. Numbers are
  integers here: the code only tests them for truthiness and copies them.
\<close>

datatype jsval =
    JUndefined
  | JNull
  | JBool bool
  | JNum int
  | JStr string
  | JArr "jsval list"
  | JObj "(string \<times> jsval) list"

text \<open>
  What the console receives. \<^verbatim>\<open>console.error(text, error)\<close> is an \<open>ErrorLine\<close> with the
  text and the error object. Of the \<^verbatim>\<open>console.log\<close> calls the model records, as
  \<open>Printed\<close>, the ones that report how a run ended: that no issue was found, and the
  rendered commands. The progress diagnostics, which no result depends on, are left out.
\<close>

datatype console_line = Printed string | ErrorLine string "error option"

section \<open>JavaScript values and objects\<close>

definition truthy :: "jsval \<Rightarrow> bool" where
  "truthy v =
     (case v of
        JUndefined \<Rightarrow> False
      | JNull \<Rightarrow> False
      | JBool b \<Rightarrow> b
      | JNum n \<Rightarrow> n \<noteq> 0
      | JStr s \<Rightarrow> s \<noteq> []
      | JArr xs \<Rightarrow> True
      | JObj kvs \<Rightarrow> True)"

definition isArray :: "jsval \<Rightarrow> bool" where
  "isArray v = (case v of JArr xs \<Rightarrow> True | _ \<Rightarrow> False)"

definition elements :: "jsval \<Rightarrow> jsval list" where
  "elements v = (case v of JArr xs \<Rightarrow> xs | _ \<Rightarrow> [])"

text \<open>
  Reading a property, \<^verbatim>\<open>v.k\<close> or \<^verbatim>\<open>v[k]\<close>. On \<^verbatim>\<open>undefined\<close> and \<^verbatim>\<open>null\<close> it throws a
  \<^verbatim>\<open>TypeError\<close>. The keys the program reads this way (\<^verbatim>\<open>fields\<close>, \<^verbatim>\<open>cf[10007]\<close>, \<^verbatim>\<open>id\<close>,
  \<^verbatim>\<open>name\<close>, \<^verbatim>\<open>state\<close>, \<^verbatim>\<open>startDate\<close>, \<^verbatim>\<open>endDate\<close>) are no properties of arrays, strings,
  numbers or booleans and are not inherited by objects, so there the answer is the own
  property or \<^verbatim>\<open>undefined\<close>.
\<close>

definition getProp :: "jsval \<Rightarrow> string \<Rightarrow> error + jsval" where
  "getProp v k =
     (case v of
        JUndefined \<Rightarrow> Inl TypeError
      | JNull \<Rightarrow> Inl TypeError
      | JObj kvs \<Rightarrow> Inr (case map_of kvs k of Some x \<Rightarrow> x | None \<Rightarrow> JUndefined)
      | _ \<Rightarrow> Inr JUndefined)"

text \<open>
  The dictionary \<^verbatim>\<open>epicGroups\<close> is an ordinary object, created by \<^verbatim>\<open>{}\<close>. Reading
  \<^verbatim>\<open>epicGroups[k]\<close> finds an own property, or a property inherited from
  \<^verbatim>\<open>Object.prototype\<close> (a function, or for \<^verbatim>\<open>__proto__\<close> the prototype itself: truthy
  values without a property \<^verbatim>\<open>issues\<close>), or nothing.
\<close>

definition objectPrototypeKeys :: "string list" where
  "objectPrototypeKeys =
     [''constructor'', ''__defineGetter__'', ''__defineSetter__'', ''hasOwnProperty'',
      ''__lookupGetter__'', ''__lookupSetter__'', ''isPrototypeOf'', ''propertyIsEnumerable'',
      ''toString'', ''valueOf'', ''__proto__'', ''toLocaleString'']"

datatype 'a property = Own 'a | Inherited | Absent

definition getProperty :: "(string \<times> 'a) list \<Rightarrow> string \<Rightarrow> 'a property" where
  "getProperty obj k =
     (case map_of obj k of
        Some v \<Rightarrow> Own v
      | None \<Rightarrow> if k \<in> set objectPrototypeKeys then Inherited else Absent)"

definition updateProperty :: "(string \<times> 'a) list \<Rightarrow> string \<Rightarrow> 'a \<Rightarrow> (string \<times> 'a) list" where
  "updateProperty obj k v = map (\<lambda>(k', v'). if k' = k then (k', v) else (k', v')) obj"

definition deleteProperty :: "(string \<times> 'a) list \<Rightarrow> string \<Rightarrow> (string \<times> 'a) list" where
  "deleteProperty obj k = filter (\<lambda>(k', v'). k' \<noteq> k) obj"

text \<open>
  \<^verbatim>\<open>Object.entries\<close> lists the own properties: first the keys that are array indices (the
  decimal numerals below \<open>2^32 - 1\<close> without a leading zero), by ascending value, then the
  other keys in the order of their creation.
\<close>

definition isDigit :: "char \<Rightarrow> bool" where
  "isDigit c = (48 \<le> (of_char c :: int) \<and> (of_char c :: int) \<le> 57)"

definition decimalValue :: "string \<Rightarrow> int" where
  "decimalValue s = foldl (\<lambda>n c. 10 * n + (of_char c - 48)) 0 s"

definition isArrayIndex :: "string \<Rightarrow> bool" where
  "isArrayIndex k =
     (k \<noteq> [] \<and> list_all isDigit k \<and> (k = ''0'' \<or> hd k \<noteq> CHR ''0'') \<and>
      decimalValue k < 4294967295)"

definition objectEntries :: "(string \<times> 'a) list \<Rightarrow> (string \<times> 'a) list" where
  "objectEntries obj =
     sort_key (\<lambda>(k, v). decimalValue k) (filter (\<lambda>(k, v). isArrayIndex k) obj)
     @ filter (\<lambda>(k, v). \<not> isArrayIndex k) obj"

section \<open>The sprint listing: \<^verbatim>\<open>getAllSprints\<close>\<close>

text \<open>
  \<^verbatim>\<open>jiraClient.get\<close> on the sprint endpoint of a board is a function of the board id and the
  two request parameters \<^verbatim>\<open>startAt\<close> and \<^verbatim>\<open>maxResults\<close>. It answers \<open>Inl e\<close> when the
  request is rejected (the \<^verbatim>\<open>await\<close> throws), \<open>Inr None\<close> when the response has no
  \<^verbatim>\<open>data\<close>, and \<open>Inr (Some page)\<close> otherwise. \<^verbatim>\<open>new Date(s).getTime()\<close> is the function
  \<open>getTime\<close>, with \<open>None\<close> for \<^verbatim>\<open>NaN\<close> (an invalid date).
\<close>

type_synonym sprintEndpoint = "string \<Rightarrow> nat \<Rightarrow> nat \<Rightarrow> error + SprintPage option"

definition MAX_SPRINTS_TO_FETCH :: nat where
  "MAX_SPRINTS_TO_FETCH = 1000"

text \<open>
  The \<^verbatim>\<open>while\<close> loop of lines 75-100, on its three variables. The server decides what
  each page holds, so the loop need not end: not returning is the value \<open>None\<close>. A rejected
  request leaves the loop with the error, which the \<^verbatim>\<open>catch\<close> of line 111 receives.
\<close>

partial_function (option) getAllSprints_loop ::
  "sprintEndpoint \<Rightarrow> string \<Rightarrow> Sprint list \<Rightarrow> nat \<Rightarrow> bool \<Rightarrow> (error + Sprint list) option"
where
  "getAllSprints_loop get boardId sprints startAt lastPage =
    (if \<not> lastPage \<and> length sprints < MAX_SPRINTS_TO_FETCH then
       (case get boardId startAt 50 of
          Inl e \<Rightarrow> Some (Inl e)
        | Inr None \<Rightarrow> getAllSprints_loop get boardId sprints startAt True
        | Inr (Some d) \<Rightarrow>
           (case values d of
              None \<Rightarrow> getAllSprints_loop get boardId sprints startAt True
            | Some vs \<Rightarrow>
                getAllSprints_loop get boardId (sprints @ vs) (startAt + 50)
                  (isLast d \<or>
                   (case total d of None \<Rightarrow> False
                    | Some t \<Rightarrow> t \<le> int (startAt + length vs)))))
     else Some (Inr sprints))"

declare getAllSprints_loop.simps [code]

text \<open>
  The comparator of lines 104-109. A start date that is missing or the empty string is
  falsy, and the comparator answers 0. Otherwise it answers the difference of the two
  times, \<open>None\<close> (\<^verbatim>\<open>NaN\<close>) when one of them is invalid. Times are integers of
  milliseconds, so the sign of the difference is exact.
\<close>

definition compareSprints :: "(string \<Rightarrow> int option) \<Rightarrow> Sprint \<Rightarrow> Sprint \<Rightarrow> int option" where
  "compareSprints getTime a b =
     (case (startDate a, startDate b) of
        (Some da, Some db) \<Rightarrow>
          (if da = [] \<or> db = [] then Some 0
           else (case (getTime db, getTime da) of
                   (Some tb, Some ta) \<Rightarrow> Some (tb - ta)
                 | _ \<Rightarrow> None))
      | _ \<Rightarrow> Some 0)"

text \<open>
  \<^verbatim>\<open>Array.prototype.sort\<close> belongs to the runtime, not to the program. It is stable, it
  reads a comparator result \<^verbatim>\<open>NaN\<close> as 0, and for a comparator that orders the elements
  consistently its result is the one stable sorted arrangement, which the insertion sort
  below computes: this is the case whenever every sprint has a valid start date. The
  comparator of the program is not consistent when a start date is missing or invalid: it
  then answers 0 for pairs that it orders through a third sprint. For such a comparator
  the language leaves the order to the implementation, and the insertion sort stands for
  one permitted behaviour, which a given engine need not share: on the sprints of
  January, February, one without start date, and March, in this order, it answers
  February, January, undated, March, where the merge sort of V8 answers March, February,
  January, undated. The statements below that run the sort on sprints without a valid
  start date do so on inputs on which no pair is exchanged, where the two agree.
\<close>

definition sortCompare :: "('a \<Rightarrow> 'a \<Rightarrow> int option) \<Rightarrow> 'a \<Rightarrow> 'a \<Rightarrow> int" where
  "sortCompare comparefn x y = (case comparefn x y of None \<Rightarrow> 0 | Some v \<Rightarrow> v)"

fun insertBy :: "('a \<Rightarrow> 'a \<Rightarrow> int option) \<Rightarrow> 'a \<Rightarrow> 'a list \<Rightarrow> 'a list" where
  "insertBy comparefn x [] = [x]"
| "insertBy comparefn x (y # ys) =
     (if 0 < sortCompare comparefn x y then y # insertBy comparefn x ys else x # y # ys)"

definition arraySort :: "('a \<Rightarrow> 'a \<Rightarrow> int option) \<Rightarrow> 'a list \<Rightarrow> 'a list" where
  "arraySort comparefn xs = foldr (insertBy comparefn) xs []"

definition getAllSprints ::
  "sprintEndpoint \<Rightarrow> (string \<Rightarrow> int option) \<Rightarrow> string \<Rightarrow> (Sprint list \<times> console_line list) option"
where
  "getAllSprints get getTime boardId =
     (case getAllSprints_loop get boardId [] 0 False of
        None \<Rightarrow> None
      | Some (Inl e) \<Rightarrow>
          Some ([], [ErrorLine (''Error fetching sprints for board '' @ boardId @ '':'') (Some e)])
      | Some (Inr sprints) \<Rightarrow>
          Some (take MAX_SPRINTS_TO_FETCH (arraySort (compareSprints getTime) sprints), []))"

section \<open>The sprint selector: \<^verbatim>\<open>getNextSprint\<close>\<close>

text \<open>\<^verbatim>\<open>String.prototype.includes\<close>: the search string occurs somewhere in the string.\<close>

fun includesStr :: "string \<Rightarrow> string \<Rightarrow> bool" where
  "includesStr [] t = (t = [])"
| "includesStr (c # cs) t = (prefix t (c # cs) \<or> includesStr cs t)"

text \<open>
  Lines 150-183: the choice among the sprints already fetched. \<open>sprints ! 0\<close> is read only
  under the test that the list is not empty, as in the source.
\<close>

definition selectSprint :: "Sprint list \<Rightarrow> Sprint option" where
  "selectSprint allSprints =
     (let futureSprints =
            filter (\<lambda>sprint. state sprint = ''future'' \<and> \<not> includesStr (Sprint.name sprint) ''DevOps'')
              allSprints
      in if length futureSprints > 0 then Some (futureSprints ! 0)
         else let activeSprints = filter (\<lambda>sprint. state sprint = ''active'') allSprints
              in if length activeSprints > 0 then Some (activeSprints ! 0)
                 else if length allSprints > 0 then Some (allSprints ! 0)
                 else None)"

text \<open>
  \<^verbatim>\<open>getNextSprint\<close> fetches and selects. With sprints of the declared type nothing in its
  \<^verbatim>\<open>try\<close> block throws (\<^verbatim>\<open>getAllSprints\<close> catches its own errors), so its \<^verbatim>\<open>catch\<close> is
  never entered.
\<close>

definition getNextSprint ::
  "sprintEndpoint \<Rightarrow> (string \<Rightarrow> int option) \<Rightarrow> string \<Rightarrow> (Sprint option \<times> console_line list) option"
where
  "getNextSprint get getTime boardId =
     (case getAllSprints get getTime boardId of
        None \<Rightarrow> None
      | Some (allSprints, out) \<Rightarrow> Some (selectSprint allSprints, out))"

section \<open>The sprint of a ticket: \<^verbatim>\<open>getSprintFromAgileAPI\<close>\<close>

text \<open>
  The \<^verbatim>\<open>try\<close> block after the request, on the response's \<^verbatim>\<open>data\<close>. The first read of the
  chosen element, \<^verbatim>\<open>sprint.name\<close> in the log line of 310, throws when the element is
  \<^verbatim>\<open>null\<close>; after it the other reads succeed. The result is the object literal of lines
  315-321.
\<close>

definition sprintFromData :: "jsval \<Rightarrow> error + jsval option" where
  "sprintFromData d =
     (case getProp d ''fields'' of
        Inl e \<Rightarrow> Inl e
      | Inr fs \<Rightarrow>
         (case getProp fs ''cf[10007]'' of
            Inl e \<Rightarrow> Inl e
          | Inr customSprint \<Rightarrow>
              if truthy customSprint \<and> isArray customSprint \<and> length (elements customSprint) > 0
              then
                (let sprint = elements customSprint ! (length (elements customSprint) - 1) in
                 case getProp sprint ''name'' of
                   Inl e \<Rightarrow> Inl e
                 | Inr sprintName \<Rightarrow>
                    (case (getProp sprint ''id'', getProp sprint ''state'',
                           getProp sprint ''startDate'', getProp sprint ''endDate'') of
                       (Inr sprintId, Inr sprintState, Inr sprintStart, Inr sprintEnd) \<Rightarrow>
                         Inr (Some (JObj [(''id'', sprintId), (''name'', sprintName),
                                (''state'', sprintState), (''startDate'', sprintStart),
                                (''endDate'', sprintEnd)]))
                     | _ \<Rightarrow> Inl TypeError))
              else Inr None))"

definition getSprintFromAgileAPI ::
  "(string \<Rightarrow> error + jsval) \<Rightarrow> string \<Rightarrow> jsval option \<times> console_line list"
where
  "getSprintFromAgileAPI get ticketKey =
     (case (case get ticketKey of Inl e \<Rightarrow> Inl e | Inr d \<Rightarrow> sprintFromData d) of
        Inl e \<Rightarrow>
          (None,
           [ErrorLine (''Error getting sprint from Agile API for ticket '' @ ticketKey @ '':'')
              (Some e)])
      | Inr r \<Rightarrow> (r, []))"

section \<open>The issue query: \<^verbatim>\<open>getReadyToSizeIssuesFromSprint\<close>\<close>

text \<open>
  The query text is determined by the sprint id, so the search endpoint is a function of
  it. The id is a JavaScript value: in ticket mode it is whatever the ticket held.
\<close>

definition getReadyToSizeIssuesFromSprint ::
  "(jsval \<Rightarrow> error + SearchData option) \<Rightarrow> jsval \<Rightarrow> JiraIssue list \<times> console_line list"
where
  "getReadyToSizeIssuesFromSprint get sprintId =
     (case get sprintId of
        Inl e \<Rightarrow> ([], [ErrorLine ''Error fetching issues:'' (Some e)])
      | Inr None \<Rightarrow> ([], [])
      | Inr (Some d) \<Rightarrow>
          (case foundIssues d of None \<Rightarrow> ([], []) | Some found \<Rightarrow> (found, [])))"

section \<open>The epic grouper: \<^verbatim>\<open>organizeIssuesByEpic\<close>\<close>

text \<open>
  \<^verbatim>\<open>epicGroups[k].issues.push(issue)\<close>: on an own group the issue is appended in place; on
  an inherited value \<^verbatim>\<open>.issues\<close> is \<^verbatim>\<open>undefined\<close> and \<^verbatim>\<open>.push\<close> throws.
\<close>

definition pushIssue :: "EpicGroup \<Rightarrow> string \<Rightarrow> JiraIssue \<Rightarrow> error + EpicGroup" where
  "pushIssue epicGroups k issue =
     (case getProperty epicGroups k of
        Own g \<Rightarrow> Inr (updateProperty epicGroups k (g\<lparr>issues := issues g @ [issue]\<rparr>))
      | _ \<Rightarrow> Inl TypeError)"

text \<open>The callback of \<^verbatim>\<open>issues.forEach\<close>, lines 346-363.\<close>

definition organizeIssue :: "JiraIssue \<Rightarrow> EpicGroup \<Rightarrow> error + EpicGroup" where
  "organizeIssue issue epicGroups =
     (case parent (JiraIssue.fields' issue) of
        Some p \<Rightarrow>
          (let epicKey = Parent.key p;
               parentSummary = ParentFields.summary (Parent.fields' p);
               created =
                 (case getProperty epicGroups epicKey of
                    Absent \<Rightarrow> epicGroups @ [(epicKey, \<lparr>epicName = parentSummary, issues = []\<rparr>)]
                  | _ \<Rightarrow> epicGroups)
           in pushIssue created epicKey issue)
      | None \<Rightarrow> pushIssue epicGroups ''NO_EPIC'' issue)"

fun forEachIssue :: "JiraIssue list \<Rightarrow> EpicGroup \<Rightarrow> error + EpicGroup" where
  "forEachIssue [] epicGroups = Inr epicGroups"
| "forEachIssue (issue # rest) epicGroups =
     (case organizeIssue issue epicGroups of
        Inl e \<Rightarrow> Inl e
      | Inr updated \<Rightarrow> forEachIssue rest updated)"

definition organizeIssuesByEpic :: "JiraIssue list \<Rightarrow> error + EpicGroup" where
  "organizeIssuesByEpic found =
     (case forEachIssue found [(''NO_EPIC'', \<lparr>epicName = ''Tasks without Epic'', issues = []\<rparr>)] of
        Inl e \<Rightarrow> Inl e
      | Inr epicGroups \<Rightarrow>
          (case getProperty epicGroups ''NO_EPIC'' of
             Own g \<Rightarrow>
               if length (issues g) = 0 then Inr (deleteProperty epicGroups ''NO_EPIC'')
               else Inr epicGroups
           | _ \<Rightarrow> Inl TypeError))"

section \<open>The formatter: \<^verbatim>\<open>generateSlackCommands\<close>\<close>

text \<open>
  The two nested loops append to \<^verbatim>\<open>output\<close>. The base URL, a global constant of the
  source, is a parameter.
\<close>

definition generateSlackCommands :: "string \<Rightarrow> EpicGroup \<Rightarrow> string" where
  "generateSlackCommands JIRA_BASE_URL epicGroups =
     foldl
       (\<lambda>output (epicKey, g).
          foldl
            (\<lambda>output issue.
               let issueUrl = JIRA_BASE_URL @ ''/browse/'' @ JiraIssue.key issue
               in output @ ''/pp '' @ issueUrl @ '' '' @ IssueFields.summary (JiraIssue.fields' issue)
                    @ [CHR 0x0A])
            output (issues g)
          @ [CHR 0x0A])
       [] (objectEntries epicGroups)"

section \<open>The run: configuration check and \<^verbatim>\<open>main\<close>\<close>

text \<open>
  Everything a run reads from outside: the environment (after \<^verbatim>\<open>dotenv\<close>), the command
  line, the three endpoints of the tracker, the clock of \<^verbatim>\<open>Date\<close>, and the file system,
  where \<open>writable\<close> says whether \<^verbatim>\<open>fs.writeFileSync\<close> succeeds on a file and \<open>files\<close>
  holds the contents. A failed write throws and is taken to leave the file as it was.
\<close>

record World =
  environment :: "string \<Rightarrow> string option"
  argv :: "string list"
  sprintApi :: sprintEndpoint
  agileApi :: "string \<Rightarrow> error + jsval"
  searchApi :: "jsval \<Rightarrow> error + SearchData option"
  clock :: "string \<Rightarrow> int option"
  writable :: "string \<Rightarrow> bool"
  files :: "string \<Rightarrow> string option"

record Outcome =
  exitCode :: nat
  console :: "console_line list"
  filesAfter :: "string \<Rightarrow> string option"

text \<open>\<^verbatim>\<open>process.env.X || ""\<close>, and the test of lines 14-19.\<close>

definition envOrEmpty :: "World \<Rightarrow> string \<Rightarrow> string" where
  "envOrEmpty w x = (case environment w x of None \<Rightarrow> [] | Some v \<Rightarrow> v)"

definition configMissing :: "World \<Rightarrow> bool" where
  "configMissing w =
     (envOrEmpty w ''JIRA_BASE_URL'' = [] \<or> envOrEmpty w ''JIRA_EMAIL'' = [] \<or>
      envOrEmpty w ''JIRA_API_TOKEN'' = [] \<or> envOrEmpty w ''JIRA_BOARD_ID'' = [])"

text \<open>\<^verbatim>\<open>process.argv[2]\<close>, \<^verbatim>\<open>undefined\<close> when there is no argument.\<close>

definition ticketArgument :: "World \<Rightarrow> string option" where
  "ticketArgument w = (if 2 < length (argv w) then Some (argv w ! 2) else None)"

text \<open>
  The \<^verbatim>\<open>try\<close> block of \<^verbatim>\<open>main\<close>: what was written to the console and to the files when
  it ended, and the error it threw, if any. \<open>None\<close> is a run whose sprint listing never
  ends.
\<close>

definition mainTry ::
  "World \<Rightarrow> (console_line list \<times> (string \<Rightarrow> string option) \<times> error option) option"
where
  \<open>mainTry w =
     (case ticketArgument w of
        Some (c # cs) \<Rightarrow>
          (let ticketKey = c # cs;
               (sprint, out1) = getSprintFromAgileAPI (agileApi w) ticketKey
           in case sprint of
                None \<Rightarrow>
                  Some (out1 @ [ErrorLine (''No sprint found for ticket '' @ ticketKey @ ''.'') None],
                        files w, None)
              | Some sp \<Rightarrow>
                 (case getProp sp ''id'' of
                    Inl e \<Rightarrow> Some (out1, files w, Some e)
                  | Inr sprintId \<Rightarrow>
                     (let (found, out2) = getReadyToSizeIssuesFromSprint (searchApi w) sprintId
                      in if length found = 0
                         then Some (out1 @ out2 @
                                [Printed ''No issues with "Ready to Size" status found in the sprint.''],
                                files w, None)
                         else
                           (case organizeIssuesByEpic found of
                              Inl e \<Rightarrow> Some (out1 @ out2, files w, Some e)
                            | Inr epicGroups \<Rightarrow>
                               (let slackCommands =
                                      generateSlackCommands (envOrEmpty w ''JIRA_BASE_URL'') epicGroups;
                                    out3 = out1 @ out2 @ [Printed slackCommands]
                                in if writable w ''slack-commands.md''
                                   then Some (out3, (files w)(''slack-commands.md'' \<mapsto> slackCommands),
                                              None)
                                   else Some (out3, files w, Some WriteFailed))))))
      | _ \<Rightarrow>
          (case getNextSprint (sprintApi w) (clock w) (envOrEmpty w ''JIRA_BOARD_ID'') of
             None \<Rightarrow> None
           | Some (nextSprint, out1) \<Rightarrow>
              (case nextSprint of
                 None \<Rightarrow> Some (out1 @ [ErrorLine ''No future sprint found.'' None], files w, None)
               | Some sp \<Rightarrow>
                  (let (found, out2) =
                         getReadyToSizeIssuesFromSprint (searchApi w) (JNum (Sprint.id' sp))
                   in if length found = 0
                      then Some (out1 @ out2 @
                             [Printed ''No issues with "Ready to Size" status found in the next sprint.''],
                             files w, None)
                      else
                        (case organizeIssuesByEpic found of
                           Inl e \<Rightarrow> Some (out1 @ out2, files w, Some e)
                         | Inr epicGroups \<Rightarrow>
                            Some (out1 @ out2 @
                                  [Printed (generateSlackCommands (envOrEmpty w ''JIRA_BASE_URL'')
                                     epicGroups)],
                                  files w, None))))))\<close>

text \<open>\<^verbatim>\<open>main\<close>: the \<^verbatim>\<open>catch\<close> of line 483 logs whatever the block threw.\<close>

definition main :: "World \<Rightarrow> (console_line list \<times> (string \<Rightarrow> string option)) option" where
  "main w =
     (case mainTry w of
        None \<Rightarrow> None
      | Some (out, fs, None) \<Rightarrow> Some (out, fs)
      | Some (out, fs, Some e) \<Rightarrow> Some (out @ [ErrorLine ''An error occurred:'' (Some e)], fs))"

text \<open>
  The whole script: \<^verbatim>\<open>process.exit(1)\<close> when a configuration value is missing, else
  \<^verbatim>\<open>main()\<close>, after which the process ends with exit code 0.
\<close>

definition program :: "World \<Rightarrow> Outcome option" where
  "program w =
     (if configMissing w
      then Some \<lparr>exitCode = 1,
             console = [ErrorLine
               ''Missing required environment variables. Please check your .env file.'' None],
             filesAfter = files w\<rparr>
      else (case main w of
              None \<Rightarrow> None
            | Some (out, fs) \<Rightarrow> Some \<lparr>exitCode = 0, console = out, filesAfter = fs\<rparr>))"

section \<open>Notions used in the statements\<close>

text \<open>
  What a response adds to the sprints collected so far, and whether the loop goes on after
  it: the response has values, is not marked as the last page, and its values do not
  reach the total.
\<close>

definition pageValues :: "error + SprintPage option \<Rightarrow> Sprint list" where
  "pageValues r =
     (case r of Inr (Some d) \<Rightarrow> (case values d of Some vs \<Rightarrow> vs | None \<Rightarrow> []) | _ \<Rightarrow> [])"

definition morePages :: "error + SprintPage option \<Rightarrow> nat \<Rightarrow> bool" where
  "morePages r startAt =
     (case r of
        Inr (Some d) \<Rightarrow>
          (case values d of
             Some vs \<Rightarrow>
               \<not> isLast d \<and> (case total d of None \<Rightarrow> True | Some t \<Rightarrow> int (startAt + length vs) < t)
           | None \<Rightarrow> False)
      | _ \<Rightarrow> False)"

text \<open>The sprints of the \<open>n\<close> pages requested from \<open>startAt\<close> on.\<close>

definition collected :: "sprintEndpoint \<Rightarrow> string \<Rightarrow> nat \<Rightarrow> nat \<Rightarrow> Sprint list" where
  "collected get boardId startAt n =
     concat (map (\<lambda>i. pageValues (get boardId (startAt + 50 * i) 50)) [0..<n])"

text \<open>
  The start time of a sprint, if it has a start date and the date is valid. The order of
  the claim on sorting: the earlier entry of the result starts no earlier than the later
  one, and an entry without a start time is in order with every other.
\<close>

definition lacksStartDate :: "Sprint \<Rightarrow> bool" where
  "lacksStartDate s = (case startDate s of None \<Rightarrow> True | Some d \<Rightarrow> d = [])"

definition startTime :: "(string \<Rightarrow> int option) \<Rightarrow> Sprint \<Rightarrow> int option" where
  "startTime getTime s =
     (case startDate s of None \<Rightarrow> None | Some d \<Rightarrow> if d = [] then None else getTime d)"

definition startsNoEarlier :: "(string \<Rightarrow> int option) \<Rightarrow> Sprint \<Rightarrow> Sprint \<Rightarrow> bool" where
  "startsNoEarlier getTime a b =
     (case (startTime getTime a, startTime getTime b) of
        (Some ta, Some tb) \<Rightarrow> tb \<le> ta
      | _ \<Rightarrow> True)"

text \<open>
  The value of a field of a membership entry, \<^verbatim>\<open>undefined\<close> when the entry has none, and
  the sprint the function builds from an entry: its five sprint fields.
\<close>

definition fieldOf :: "jsval \<Rightarrow> string \<Rightarrow> jsval" where
  "fieldOf v k = (case getProp v k of Inl e \<Rightarrow> JUndefined | Inr x \<Rightarrow> x)"

definition sprintObject :: "jsval \<Rightarrow> jsval" where
  "sprintObject e =
     JObj [(''id'', fieldOf e ''id''), (''name'', fieldOf e ''name''),
           (''state'', fieldOf e ''state''), (''startDate'', fieldOf e ''startDate''),
           (''endDate'', fieldOf e ''endDate'')]"

text \<open>
  The key under which the grouper files a ticket: the key of its parent epic, or the
  sentinel key when it has no parent. \<open>parentSummary\<close> is the display name the ticket
  carries for its epic.
\<close>

definition groupKey :: "JiraIssue \<Rightarrow> string" where
  "groupKey issue =
     (case parent (JiraIssue.fields' issue) of Some p \<Rightarrow> Parent.key p | None \<Rightarrow> ''NO_EPIC'')"

definition parentSummary :: "JiraIssue \<Rightarrow> string" where
  "parentSummary issue =
     (case parent (JiraIssue.fields' issue) of
        Some p \<Rightarrow> ParentFields.summary (Parent.fields' p)
      | None \<Rightarrow> [])"

text \<open>
  The grouping written as a function of the whole ticket list, to compare the loop with:
  the epic keys in the order of their first appearance, and for each key the name of
  the first ticket that refers to it and all tickets that refer to it, in arrival order;
  the sentinel group comes first if it has a ticket.
\<close>

definition firstSeen :: "'a list \<Rightarrow> 'a list" where
  "firstSeen xs = rev (remdups (rev xs))"

definition epicKeysInOrder :: "JiraIssue list \<Rightarrow> string list" where
  "epicKeysInOrder found = firstSeen (filter (\<lambda>k. k \<noteq> ''NO_EPIC'') (map groupKey found))"

definition groupFor :: "JiraIssue list \<Rightarrow> string \<Rightarrow> Group" where
  "groupFor found k =
     \<lparr>epicName =
        (if k = ''NO_EPIC'' then ''Tasks without Epic''
         else (case find (\<lambda>i. groupKey i = k) found of
                 Some i \<Rightarrow> parentSummary i
               | None \<Rightarrow> [])),
      issues = filter (\<lambda>i. groupKey i = k) found\<rparr>"

definition groupByEpic :: "JiraIssue list \<Rightarrow> EpicGroup" where
  "groupByEpic found =
     (if filter (\<lambda>i. groupKey i = ''NO_EPIC'') found = [] then []
      else [(''NO_EPIC'', groupFor found ''NO_EPIC'')])
     @ map (\<lambda>k. (k, groupFor found k)) (epicKeysInOrder found)"

text \<open>The dictionary of the loop once the tickets \<open>found\<close> are processed.\<close>

definition groupsAfter :: "JiraIssue list \<Rightarrow> EpicGroup" where
  "groupsAfter found = map (\<lambda>k. (k, groupFor found k)) (''NO_EPIC'' # epicKeysInOrder found)"

text \<open>
  The epic key a ticket refers to, if any. A parent key is reserved when it is the
  sentinel key or the name of a property every object inherits; no key of the tracker,
  of the form \<^verbatim>\<open>PROJ-123\<close>, is.
\<close>

definition epicKeyOf :: "JiraIssue \<Rightarrow> string option" where
  "epicKeyOf issue = map_option Parent.key (parent (JiraIssue.fields' issue))"

definition parentKeysUnreserved :: "JiraIssue list \<Rightarrow> bool" where
  "parentKeysUnreserved found =
     list_all (\<lambda>i. case epicKeyOf i of
                      None \<Rightarrow> True
                    | Some k \<Rightarrow> k \<noteq> ''NO_EPIC'' \<and> k \<notin> set objectPrototypeKeys) found"

text \<open>The line of one ticket and the text of one group, as the formatter emits them.\<close>

definition commandLine :: "string \<Rightarrow> JiraIssue \<Rightarrow> string" where
  "commandLine baseUrl issue =
     ''/pp '' @ baseUrl @ ''/browse/'' @ JiraIssue.key issue @ '' ''
       @ IssueFields.summary (JiraIssue.fields' issue) @ [CHR 0x0A]"

definition groupText :: "string \<Rightarrow> Group \<Rightarrow> string" where
  "groupText baseUrl g = concat (map (commandLine baseUrl) (issues g)) @ [CHR 0x0A]"

text \<open>
  A run is in ticket mode when \<^verbatim>\<open>process.argv[2]\<close> is truthy: an argument was given and
  it is not the empty string.
\<close>

definition ticketMode :: "World \<Rightarrow> bool" where
  "ticketMode w = (case ticketArgument w of Some (c # cs) \<Rightarrow> True | _ \<Rightarrow> False)"

text \<open>
  The listing stops at the page with index \<open>n\<close>: every page before it promises more, and
  either the sprints of those \<open>n\<close> pages reach the bound, or page \<open>n\<close> promises no more
  (its request is rejected, it has no data or no values, it is marked as the last, or it
  reaches the total).
\<close>

definition listingStops :: "sprintEndpoint \<Rightarrow> string \<Rightarrow> nat \<Rightarrow> bool" where
  "listingStops get boardId n =
     (list_all (\<lambda>i. morePages (get boardId (50 * i) 50) (50 * i)) [0..<n] \<and>
      (MAX_SPRINTS_TO_FETCH \<le> length (collected get boardId 0 n) \<or>
       \<not> morePages (get boardId (50 * n) 50) (50 * n)))"

text \<open>The issues a search response holds, none when it has no data or no issues.\<close>

definition responseIssues :: "SearchData option \<Rightarrow> JiraIssue list" where
  "responseIssues x =
     (case x of
        None \<Rightarrow> []
      | Some d \<Rightarrow> (case foundIssues d of None \<Rightarrow> [] | Some found \<Rightarrow> found))"

section \<open>Example inputs\<close>

text \<open>A clock that knows the two dates of the examples, in milliseconds since 1970.\<close>

definition exampleClock :: "string \<Rightarrow> int option" where
  "exampleClock s =
     (if s = ''2024-01-01T00:00:00.000Z'' then Some 1704067200000
      else if s = ''2024-02-01T00:00:00.000Z'' then Some 1706745600000
      else None)"

definition sprintJan :: Sprint where
  "sprintJan = \<lparr>Sprint.id' = 1, name = ''Sprint 1'', state = ''closed'',
     startDate = Some ''2024-01-01T00:00:00.000Z'', endDate = None\<rparr>"

definition sprintNoDate :: Sprint where
  "sprintNoDate = \<lparr>Sprint.id' = 2, name = ''Backlog'', state = ''future'',
     startDate = None, endDate = None\<rparr>"

definition sprintFeb :: Sprint where
  "sprintFeb = \<lparr>Sprint.id' = 3, name = ''Sprint 2'', state = ''active'',
     startDate = Some ''2024-02-01T00:00:00.000Z'', endDate = None\<rparr>"

text \<open>The sprints of the selector's examples.\<close>

definition sprint10 :: Sprint where
  "sprint10 = \<lparr>Sprint.id' = 10, name = ''Sprint 10'', state = ''future'',
     startDate = None, endDate = None\<rparr>"

definition sprintDevOps :: Sprint where
  "sprintDevOps = \<lparr>Sprint.id' = 11, name = ''DevOps Sprint'', state = ''future'',
     startDate = None, endDate = None\<rparr>"

definition sprint9 :: Sprint where
  "sprint9 = \<lparr>Sprint.id' = 9, name = ''Sprint 9'', state = ''active'',
     startDate = None, endDate = None\<rparr>"

definition sprint8 :: Sprint where
  "sprint8 = \<lparr>Sprint.id' = 8, name = ''Sprint 8'', state = ''closed'',
     startDate = None, endDate = None\<rparr>"

text \<open>
  A board whose sprints come in one page, and a board whose first page holds one sprint
  and promises more, while the request for the second page is rejected.
\<close>

definition onePage :: "Sprint list \<Rightarrow> sprintEndpoint" where
  "onePage vs boardId startAt maxResults =
     Inr (Some \<lparr>values = Some vs, isLast = True, total = Some (int (length vs))\<rparr>)"

definition secondPageFails :: sprintEndpoint where
  "secondPageFails boardId startAt maxResults =
     (if startAt = 0 then Inr (Some \<lparr>values = Some [sprintJan], isLast = False, total = Some 60\<rparr>)
      else Inl RequestFailed)"

text \<open>
  A ticket endpoint whose tickets all carry the given sprint memberships, and the two
  sprints of the example.
\<close>

definition ticketWithSprints :: "jsval list \<Rightarrow> string \<Rightarrow> error + jsval" where
  "ticketWithSprints memberships ticketKey =
     Inr (JObj [(''key'', JStr ticketKey),
                (''fields'', JObj [(''summary'', JStr ''Fix bug''),
                                   (''cf[10007]'', JArr memberships)])])"

definition sprintS1 :: jsval where
  "sprintS1 = JObj [(''id'', JNum 1), (''name'', JStr ''S1'')]"

definition sprintS2 :: jsval where
  "sprintS2 = JObj [(''id'', JNum 2), (''name'', JStr ''S2'')]"

text \<open>
  Example tickets. T-1 and T-3 refer to the epic EPIC-1 under two different names, T-2 has
  no parent, the parent of T-4 has the sentinel key, the parent of T-5 has the key 7, and
  the parent of T-6 has the key \<^verbatim>\<open>constructor\<close>, a property every object inherits.
\<close>

definition ticket :: "string \<Rightarrow> string \<Rightarrow> Parent option \<Rightarrow> JiraIssue" where
  "ticket k s p =
     \<lparr>JiraIssue.id' = ''1000'' @ k, key = k,
      fields' = \<lparr>IssueFields.summary = s, status = \<lparr>Status.name = ''Ready to Size''\<rparr>, parent = p\<rparr>\<rparr>"

definition epic :: "string \<Rightarrow> string \<Rightarrow> Parent" where
  "epic k s = \<lparr>Parent.key = k, fields' = \<lparr>ParentFields.summary = s\<rparr>\<rparr>"

definition ticketT1 :: JiraIssue where
  "ticketT1 = ticket ''T-1'' ''Fix bug'' (Some (epic ''EPIC-1'' ''Login''))"

definition ticketT2 :: JiraIssue where
  "ticketT2 = ticket ''T-2'' ''Write docs'' None"

definition ticketT3 :: JiraIssue where
  "ticketT3 = ticket ''T-3'' ''Add logout'' (Some (epic ''EPIC-1'' ''Sign-in''))"

definition ticketT4 :: JiraIssue where
  "ticketT4 = ticket ''T-4'' ''Move servers'' (Some (epic ''NO_EPIC'' ''Platform''))"

definition ticketT5 :: JiraIssue where
  "ticketT5 = ticket ''T-5'' ''Count to seven'' (Some (epic ''7'' ''Numbers''))"

definition ticketT6 :: JiraIssue where
  "ticketT6 = ticket ''T-6'' ''Build it'' (Some (epic ''constructor'' ''Builders''))"

text \<open>
  An example installation: all four configuration values are set, the board has the
  sprints of January and February, every ticket belongs to the sprints S1 and S2, every
  search finds the tickets T-1 and T-2, and the output file exists with old content.
  \<open>unconfiguredWorld\<close> lacks the configuration; in \<open>unreachableWorld\<close> the ticket
  endpoint rejects every request.
\<close>

definition exampleEnvironment :: "string \<Rightarrow> string option" where
  "exampleEnvironment =
     map_of [(''JIRA_BASE_URL'', ''https://x.atlassian.net''), (''JIRA_EMAIL'', ''dev@example.com''),
             (''JIRA_API_TOKEN'', ''secret''), (''JIRA_BOARD_ID'', ''42'')]"

definition exampleWorld :: "string list \<Rightarrow> World" where
  "exampleWorld arguments =
     \<lparr>environment = exampleEnvironment,
      argv = [''node'', ''main.js''] @ arguments,
      sprintApi = onePage [sprintJan, sprintFeb],
      agileApi = ticketWithSprints [sprintS1, sprintS2],
      searchApi = (\<lambda>sprintId. Inr (Some \<lparr>foundIssues = Some [ticketT1, ticketT2]\<rparr>)),
      clock = exampleClock,
      writable = (\<lambda>file. True),
      files = [''slack-commands.md'' \<mapsto> ''old commands'']\<rparr>"

definition unconfiguredWorld :: World where
  "unconfiguredWorld = (exampleWorld [])\<lparr>environment := Map.empty\<rparr>"

definition unreachableWorld :: World where
  "unreachableWorld = (exampleWorld [''PROJ-123''])\<lparr>agileApi := (\<lambda>ticketKey. Inl RequestFailed)\<rparr>"

text \<open>
  The example installation with one thing changed. In ticket mode: the ticket belongs to
  no sprint; the search is rejected; the search finds the given tickets; the output file
  cannot be written. In board mode: the second page of the listing is rejected; the
  first response of the listing has no data; the board has no sprint; every page of the
  listing is empty and promises more.
\<close>

definition noSprintWorld :: World where
  "noSprintWorld = (exampleWorld [''PROJ-123''])\<lparr>agileApi := ticketWithSprints []\<rparr>"

definition searchFailsWorld :: "string list \<Rightarrow> World" where
  "searchFailsWorld arguments =
     (exampleWorld arguments)\<lparr>searchApi := (\<lambda>sprintId. Inl RequestFailed)\<rparr>"

definition searchFindsWorld :: "string list \<Rightarrow> JiraIssue list \<Rightarrow> World" where
  "searchFindsWorld arguments found =
     (exampleWorld arguments)\<lparr>searchApi := (\<lambda>sprintId. Inr (Some \<lparr>foundIssues = Some found\<rparr>))\<rparr>"

definition readOnlyWorld :: World where
  "readOnlyWorld = (exampleWorld [''PROJ-123''])\<lparr>writable := (\<lambda>file. False)\<rparr>"

definition listingFailsWorld :: World where
  "listingFailsWorld = (exampleWorld [])\<lparr>sprintApi := secondPageFails\<rparr>"

definition noDataWorld :: World where
  "noDataWorld = (exampleWorld [])\<lparr>sprintApi := (\<lambda>boardId startAt maxResults. Inr None)\<rparr>"

definition emptyBoardWorld :: World where
  "emptyBoardWorld = (exampleWorld [])\<lparr>sprintApi := onePage []\<rparr>"

definition emptyPages :: sprintEndpoint where
  "emptyPages boardId startAt maxResults =
     Inr (Some \<lparr>values = Some [], isLast = False, total = None\<rparr>)"

definition endlessWorld :: World where
  "endlessWorld = (exampleWorld [])\<lparr>sprintApi := emptyPages\<rparr>"

definition exampleCommands :: string where
  "exampleCommands =
     ''/pp https://x.atlassian.net/browse/T-2 Write docs'' @ [CHR 0x0A] @ [CHR 0x0A]
     @ ''/pp https://x.atlassian.net/browse/T-1 Fix bug'' @ [CHR 0x0A] @ [CHR 0x0A]"

section \<open>Properties of the sprint selector\<close>

lemma includes_iff: "includesStr s t \<longleftrightarrow> (\<exists>p q. s = p @ t @ q)"
proof (induction s)
  case Nil
  then show ?case by auto
next
  case (Cons c cs)
  show ?case
  proof
    assume "includesStr (c # cs) t"
    then consider "prefix t (c # cs)" | "includesStr cs t" by auto
    then show "\<exists>p q. c # cs = p @ t @ q"
    proof cases
      case 1
      then obtain q where "c # cs = t @ q" by (auto simp: prefix_def)
      then have "c # cs = [] @ t @ q" by simp
      then show ?thesis by blast
    next
      case 2
      with Cons.IH obtain p q where "cs = p @ t @ q" by auto
      then have "c # cs = (c # p) @ t @ q" by simp
      then show ?thesis by blast
    qed
  next
    assume "\<exists>p q. c # cs = p @ t @ q"
    then obtain p q where pq: "c # cs = p @ t @ q" by auto
    show "includesStr (c # cs) t"
    proof (cases p)
      case Nil
      with pq have "prefix t (c # cs)" by (simp add: prefix_def)
      then show ?thesis by simp
    next
      case (Cons a p')
      with pq have "cs = p' @ t @ q" by simp
      with Cons.IH have "includesStr cs t" by blast
      then show ?thesis by simp
    qed
  qed
qed

lemma filter_first: "filter P xs = [] \<longleftrightarrow> find P xs = None"
  by (induction xs) auto

lemma filter_nth0: "find P xs = Some x \<Longrightarrow> filter P xs ! 0 = x \<and> filter P xs \<noteq> []"
  by (induction xs) (auto split: if_splits)

text \<open>
  C1. For every sequence of sprints the selector answers the first sprint whose state is
  \<^verbatim>\<open>future\<close> and whose name does not contain \<^verbatim>\<open>DevOps\<close>, if there is one; else the first
  sprint whose state is \<^verbatim>\<open>active\<close>, if there is one; else the first sprint of the
  sequence, if it is not empty; else nothing. \<^verbatim>\<open>getNextSprint\<close> applies this choice to
  the sequence \<^verbatim>\<open>getAllSprints\<close> returns.
\<close>

theorem getNextSprint_three_tier:
  "selectSprint sprints =
     (case find (\<lambda>s. state s = ''future'' \<and> \<not> (\<exists>p q. Sprint.name s = p @ ''DevOps'' @ q)) sprints of
        Some s \<Rightarrow> Some s
      | None \<Rightarrow>
          (case find (\<lambda>s. state s = ''active'') sprints of
             Some s \<Rightarrow> Some s
           | None \<Rightarrow> (case sprints of [] \<Rightarrow> None | s # _ \<Rightarrow> Some s)))
   \<and> getNextSprint get getTime boardId =
       map_option (\<lambda>(allSprints, out). (selectSprint allSprints, out))
         (getAllSprints get getTime boardId)"
proof
  let ?F = "\<lambda>s. state s = ''future'' \<and> \<not> includesStr (Sprint.name s) ''DevOps''"
  let ?A = "\<lambda>s. state s = ''active''"
  have F: "(\<lambda>s. state s = ''future'' \<and> \<not> (\<exists>p q. Sprint.name s = p @ ''DevOps'' @ q)) = ?F"
    by (simp add: includes_iff)
  have "selectSprint sprints =
     (case find ?F sprints of Some s \<Rightarrow> Some s
      | None \<Rightarrow> (case find ?A sprints of Some s \<Rightarrow> Some s
                 | None \<Rightarrow> (case sprints of [] \<Rightarrow> None | s # _ \<Rightarrow> Some s)))"
  proof (cases "find ?F sprints")
    case (Some s)
    from filter_nth0 [OF this] show ?thesis
      using Some by (simp add: selectSprint_def Let_def)
  next
    case None
    then have nf: "filter ?F sprints = []" by (simp add: filter_first)
    show ?thesis
    proof (cases "find ?A sprints")
      case (Some s)
      from filter_nth0 [OF this] show ?thesis
        using Some None nf by (simp add: selectSprint_def Let_def)
    next
      case na: None
      then have "filter ?A sprints = []" by (simp add: filter_first)
      with na None nf show ?thesis
        by (cases sprints) (simp_all add: selectSprint_def Let_def)
    qed
  qed
  then show "selectSprint sprints =
     (case find (\<lambda>s. state s = ''future'' \<and> \<not> (\<exists>p q. Sprint.name s = p @ ''DevOps'' @ q)) sprints of
        Some s \<Rightarrow> Some s
      | None \<Rightarrow>
          (case find (\<lambda>s. state s = ''active'') sprints of
             Some s \<Rightarrow> Some s
           | None \<Rightarrow> (case sprints of [] \<Rightarrow> None | s # _ \<Rightarrow> Some s)))"
    by (simp only: F)
next
  show "getNextSprint get getTime boardId =
       map_option (\<lambda>(allSprints, out). (selectSprint allSprints, out))
         (getAllSprints get getTime boardId)"
    by (simp add: getNextSprint_def split: option.splits)
qed

theorem getNextSprint_three_tier_witness:
  "selectSprint [sprintDevOps, sprint10, sprint9] = Some sprint10
   \<and> selectSprint [sprint8, sprintDevOps, sprint9] = Some sprint9
   \<and> selectSprint [sprint8] = Some sprint8
   \<and> selectSprint [] = None"
proof -
  have choice: "selectSprint sprints =
     (case find (\<lambda>s. state s = ''future'' \<and> \<not> includesStr (Sprint.name s) ''DevOps'') sprints of
        Some s \<Rightarrow> Some s
      | None \<Rightarrow>
          (case find (\<lambda>s. state s = ''active'') sprints of
             Some s \<Rightarrow> Some s
           | None \<Rightarrow> (case sprints of [] \<Rightarrow> None | s # _ \<Rightarrow> Some s)))" for sprints
    using getNextSprint_three_tier [of sprints] unfolding includes_iff [symmetric] by blast
  show ?thesis
    unfolding choice
    by (simp add: sprintDevOps_def sprint10_def sprint9_def sprint8_def)
qed

section \<open>Properties of the sprint listing\<close>

lemma collected_Suc:
  "collected get b s (Suc n) = pageValues (get b s 50) @ collected get b (s + 50) n"
proof -
  have "[0..<Suc n] = 0 # map Suc [0..<n]"
    by (simp add: upt_conv_Cons map_Suc_upt del: upt_Suc)
  then show ?thesis
    by (simp add: collected_def comp_def add.assoc del: upt_Suc)
qed

lemma loop_fails:
  "\<forall>i<n. morePages (get b (s + 50 * i) 50) (s + 50 * i) \<Longrightarrow>
   length sprints + length (collected get b s n) < MAX_SPRINTS_TO_FETCH \<Longrightarrow>
   get b (s + 50 * n) 50 = Inl e \<Longrightarrow>
   getAllSprints_loop get b sprints s False = Some (Inl e)"
proof (induction n arbitrary: sprints s)
  case 0
  then show ?case by (subst getAllSprints_loop.simps) (simp add: collected_def)
next
  case (Suc n)
  from Suc.prems(1) have m0: "morePages (get b s 50) s" by (metis add.right_neutral mult_zero_right zero_less_Suc)
  then obtain d vs where d: "get b s 50 = Inr (Some d)" "values d = Some vs" "\<not> isLast d"
      "(case total d of None \<Rightarrow> True | Some t \<Rightarrow> int (s + length vs) < t)"
    by (auto simp: morePages_def split: sum.splits option.splits)
  have pv: "pageValues (get b s 50) = vs" using d by (simp add: pageValues_def)
  have len: "length (sprints @ vs) + length (collected get b (s + 50) n) < MAX_SPRINTS_TO_FETCH"
    using Suc.prems(2) by (simp add: collected_Suc pv)
  have more: "\<forall>i<n. morePages (get b (s + 50 + 50 * i) 50) (s + 50 + 50 * i)"
  proof (intro allI impI)
    fix i assume "i < n"
    then have "Suc i < Suc n" by simp
    with Suc.prems(1) have "morePages (get b (s + 50 * Suc i) 50) (s + 50 * Suc i)" by blast
    then show "morePages (get b (s + 50 + 50 * i) 50) (s + 50 + 50 * i)" by (simp add: add.assoc)
  qed
  have fail: "get b (s + 50 + 50 * n) 50 = Inl e" using Suc.prems(3) by (simp add: add.assoc)
  have IH: "getAllSprints_loop get b (sprints @ vs) (s + 50) False = Some (Inl e)"
    by (rule Suc.IH [OF more len fail])
  have notlast: "(isLast d \<or> (case total d of None \<Rightarrow> False | Some t \<Rightarrow> t \<le> int (s + length vs))) = False"
    using d(3,4) by (auto split: option.splits)
  have short: "length sprints < MAX_SPRINTS_TO_FETCH" using Suc.prems(2) by simp
  have "getAllSprints_loop get b sprints s False =
        getAllSprints_loop get b (sprints @ vs) (s + 50)
          (isLast d \<or> (case total d of None \<Rightarrow> False | Some t \<Rightarrow> t \<le> int (s + length vs)))"
    by (subst getAllSprints_loop.simps) (simp only: short d(1,2) simp_thms if_True sum.case option.case)
  also have "\<dots> = getAllSprints_loop get b (sprints @ vs) (s + 50) False"
    by (simp only: notlast)
  finally show ?case by (simp only: IH)
qed

text \<open>
  C2, as amended. When the requests for the first \<open>n\<close> pages succeed and leave the loop
  running, and the request for the next page is rejected, \<^verbatim>\<open>getAllSprints\<close> returns: it
  logs the error and answers the empty sequence. The sprints collected from the earlier
  pages are dropped, and the failure is not passed on.
\<close>

theorem getAllSprints_failure_returns_empty:
  assumes "\<forall>i<n. morePages (get b (50 * i) 50) (50 * i)"
    and "length (collected get b 0 n) < MAX_SPRINTS_TO_FETCH"
    and "get b (50 * n) 50 = Inl e"
  shows "getAllSprints get getTime b =
           Some ([], [ErrorLine (''Error fetching sprints for board '' @ b @ '':'') (Some e)])"
proof -
  have "getAllSprints_loop get b [] 0 False = Some (Inl e)"
    using assms by (intro loop_fails [where n = n]) simp_all
  then show ?thesis by (simp add: getAllSprints_def)
qed

theorem getAllSprints_failure_returns_empty_witness:
  "morePages (secondPageFails ''42'' (50 * 0) 50) (50 * 0)
   \<and> length (collected secondPageFails ''42'' 0 1) < MAX_SPRINTS_TO_FETCH
   \<and> secondPageFails ''42'' (50 * 1) 50 = Inl RequestFailed
   \<and> getAllSprints secondPageFails exampleClock ''42'' =
        Some ([], [ErrorLine (''Error fetching sprints for board '' @ ''42'' @ '':'')
                     (Some RequestFailed)])"
proof -
  have a: "\<forall>i<1. morePages (secondPageFails ''42'' (50 * i) 50) (50 * i)"
    by (simp add: morePages_def secondPageFails_def)
  have b: "length (collected secondPageFails ''42'' 0 1) < MAX_SPRINTS_TO_FETCH"
    by (simp add: collected_def pageValues_def secondPageFails_def MAX_SPRINTS_TO_FETCH_def)
  have c: "secondPageFails ''42'' (50 * 1) 50 = Inl RequestFailed"
    by (simp add: secondPageFails_def)
  from getAllSprints_failure_returns_empty [OF a b c, of exampleClock] a b c
  show ?thesis by simp
qed

text \<open>
  The claim as it stands fails: on the board of \<open>secondPageFails\<close> the first page
  delivered a sprint, the second request is rejected, and the result is empty.
\<close>

theorem getAllSprints_partial_results_counterexample:
  "collected secondPageFails ''42'' 0 1 = [sprintJan]
   \<and> secondPageFails ''42'' 50 50 = Inl RequestFailed
   \<and> getAllSprints secondPageFails exampleClock ''42'' =
        Some ([], [ErrorLine ''Error fetching sprints for board 42:'' (Some RequestFailed)])
   \<and> fst (the (getAllSprints secondPageFails exampleClock ''42'')) \<noteq>
        collected secondPageFails ''42'' 0 1"
proof -
  have "getAllSprints_loop secondPageFails ''42'' [] 0 False = Some (Inl RequestFailed)"
    apply (subst getAllSprints_loop.simps)
    apply (simp add: secondPageFails_def MAX_SPRINTS_TO_FETCH_def)
    apply (subst getAllSprints_loop.simps)
    apply (simp add: secondPageFails_def MAX_SPRINTS_TO_FETCH_def)
    done
  then show ?thesis
    by (simp add: getAllSprints_def collected_def pageValues_def secondPageFails_def)
qed

lemma set_insertBy: "set (insertBy c x ys) = insert x (set ys)"
  by (induction ys) auto

lemma mset_insertBy: "mset (insertBy c x ys) = add_mset x (mset ys)"
  by (induction ys) auto

lemma mset_arraySort: "mset (arraySort c xs) = mset xs"
  by (induction xs) (simp_all add: arraySort_def mset_insertBy)

lemma set_arraySort: "set (arraySort c xs) = set xs"
  using mset_arraySort [of c xs] by (metis set_mset_mset)

lemma sortCompare_dated:
  "startTime T a = Some ta \<Longrightarrow> startTime T b = Some tb \<Longrightarrow>
   sortCompare (compareSprints T) a b = tb - ta"
  by (auto simp: startTime_def sortCompare_def compareSprints_def split: option.splits if_splits)

lemma sorted_insertBy:
  assumes "startTime T x \<noteq> None" and "\<forall>y\<in>set ys. startTime T y \<noteq> None"
    and "sorted_wrt (startsNoEarlier T) ys"
  shows "sorted_wrt (startsNoEarlier T) (insertBy (compareSprints T) x ys)"
  using assms(2,3)
proof (induction ys)
  case Nil
  then show ?case by simp
next
  case (Cons y ys)
  from assms(1) obtain tx where tx: "startTime T x = Some tx" by auto
  from Cons.prems(1) obtain ty where ty: "startTime T y = Some ty" by auto
  have cmp: "sortCompare (compareSprints T) x y = ty - tx"
    by (rule sortCompare_dated [OF tx ty])
  show ?case
  proof (cases "0 < ty - tx")
    case True
    have IH: "sorted_wrt (startsNoEarlier T) (insertBy (compareSprints T) x ys)"
      using Cons by simp
    have "startsNoEarlier T y x" using True tx ty by (simp add: startsNoEarlier_def)
    moreover have "\<forall>z\<in>set ys. startsNoEarlier T y z" using Cons.prems(2) by simp
    ultimately show ?thesis using True cmp IH by (simp add: set_insertBy)
  next
    case False
    then have xy: "startsNoEarlier T x y" using tx ty by (simp add: startsNoEarlier_def)
    have "\<forall>z\<in>set ys. startsNoEarlier T x z"
    proof
      fix z assume z: "z \<in> set ys"
      with Cons.prems(1) obtain tz where tz: "startTime T z = Some tz" by auto
      from Cons.prems(2) z have "startsNoEarlier T y z" by simp
      with False tx ty tz show "startsNoEarlier T x z" by (simp add: startsNoEarlier_def)
    qed
    with xy False cmp Cons.prems(2) show ?thesis by simp
  qed
qed

lemma sorted_arraySort:
  "\<forall>s\<in>set xs. startTime T s \<noteq> None \<Longrightarrow>
   sorted_wrt (startsNoEarlier T) (arraySort (compareSprints T) xs)"
proof (induction xs)
  case Nil
  then show ?case by (simp add: arraySort_def)
next
  case (Cons x xs)
  have "sorted_wrt (startsNoEarlier T) (insertBy (compareSprints T) x (arraySort (compareSprints T) xs))"
    using Cons by (intro sorted_insertBy) (simp_all add: set_arraySort)
  then show ?case by (simp add: arraySort_def)
qed

lemma filter_insertBy:
  "\<forall>y\<in>set ys. P y \<longrightarrow> sortCompare c x y \<le> 0 \<Longrightarrow>
   filter P (insertBy c x ys) = (if P x then x # filter P ys else filter P ys)"
  by (induction ys) auto

lemma filter_insertBy_other: "\<not> P x \<Longrightarrow> filter P (insertBy c x ys) = filter P ys"
  by (induction ys) auto

lemma stable_arraySort:
  "\<forall>s\<in>set xs. startTime T s \<noteq> None \<Longrightarrow>
   filter (\<lambda>s. startTime T s = t) (arraySort (compareSprints T) xs) =
   filter (\<lambda>s. startTime T s = t) xs"
proof (induction xs)
  case Nil
  then show ?case by (simp add: arraySort_def)
next
  case (Cons x xs)
  have IH: "filter (\<lambda>s. startTime T s = t) (arraySort (compareSprints T) xs) =
        filter (\<lambda>s. startTime T s = t) xs" using Cons by simp
  show ?case
  proof (cases "startTime T x = t")
    case True
    have "\<forall>y\<in>set (arraySort (compareSprints T) xs).
            startTime T y = t \<longrightarrow> sortCompare (compareSprints T) x y \<le> 0"
    proof (intro ballI impI)
      fix y assume "y \<in> set (arraySort (compareSprints T) xs)" and yt: "startTime T y = t"
      from Cons.prems obtain tx where tx: "startTime T x = Some tx" by auto
      with True yt have "startTime T y = Some tx" by simp
      from sortCompare_dated [OF tx this] show "sortCompare (compareSprints T) x y \<le> 0" by simp
    qed
    from filter_insertBy [OF this] True IH show ?thesis by (simp add: arraySort_def)
  next
    case False
    have "filter (\<lambda>s. startTime T s = t) (insertBy (compareSprints T) x (arraySort (compareSprints T) xs))
          = filter (\<lambda>s. startTime T s = t) (arraySort (compareSprints T) xs)"
      using False by (simp add: filter_insertBy_other)
    with False IH show ?thesis by (simp add: arraySort_def)
  qed
qed

text \<open>
  What holds of the sorting. Whenever \<^verbatim>\<open>getAllSprints\<close> returns, its result holds at most
  1000 sprints; the comparator answers 0 as soon as one of the two entries lacks a start
  date; the result is the first 1000 entries of a rearrangement of the fetched sprints;
  and when every fetched sprint has a valid start date, that rearrangement is sorted
  non-increasing by start date, sprints of equal date staying in fetched order.
\<close>

theorem getAllSprints_sorted_when_dated:
  assumes "getAllSprints get T b = Some (out, msgs)"
  shows "length out \<le> 1000
    \<and> (lacksStartDate x \<or> lacksStartDate y \<longrightarrow> compareSprints T x y = Some 0)
    \<and> (\<forall>fetched. getAllSprints_loop get b [] 0 False = Some (Inr fetched) \<longrightarrow>
         (\<exists>sorted. out = take 1000 sorted \<and> mset sorted = mset fetched \<and>
            ((\<forall>s\<in>set fetched. startTime T s \<noteq> None) \<longrightarrow>
               sorted_wrt (startsNoEarlier T) sorted \<and>
               (\<forall>t. filter (\<lambda>s. startTime T s = t) sorted = filter (\<lambda>s. startTime T s = t) fetched))))"
proof (intro conjI allI impI)
  show "length out \<le> 1000"
    using assms by (auto simp: getAllSprints_def MAX_SPRINTS_TO_FETCH_def split: option.splits sum.splits)
next
  assume "lacksStartDate x \<or> lacksStartDate y"
  then show "compareSprints T x y = Some 0"
    by (auto simp: lacksStartDate_def compareSprints_def split: option.splits)
next
  fix fetched
  assume f: "getAllSprints_loop get b [] 0 False = Some (Inr fetched)"
  let ?sorted = "arraySort (compareSprints T) fetched"
  have "out = take 1000 ?sorted"
    using assms f by (simp add: getAllSprints_def MAX_SPRINTS_TO_FETCH_def)
  moreover have "mset ?sorted = mset fetched" by (rule mset_arraySort)
  moreover have "(\<forall>s\<in>set fetched. startTime T s \<noteq> None) \<longrightarrow>
               sorted_wrt (startsNoEarlier T) ?sorted \<and>
               (\<forall>t. filter (\<lambda>s. startTime T s = t) ?sorted = filter (\<lambda>s. startTime T s = t) fetched)"
    using sorted_arraySort stable_arraySort by blast
  ultimately show "\<exists>sorted. out = take 1000 sorted \<and> mset sorted = mset fetched \<and>
            ((\<forall>s\<in>set fetched. startTime T s \<noteq> None) \<longrightarrow>
               sorted_wrt (startsNoEarlier T) sorted \<and>
               (\<forall>t. filter (\<lambda>s. startTime T s = t) sorted = filter (\<lambda>s. startTime T s = t) fetched))"
    by blast
qed

lemma loop_onePage: "getAllSprints_loop (onePage vs) b [] 0 False = Some (Inr vs)"
  apply (subst getAllSprints_loop.simps)
  apply (simp add: onePage_def MAX_SPRINTS_TO_FETCH_def)
  apply (subst getAllSprints_loop.simps)
  apply simp
  done

theorem getAllSprints_sorted_when_dated_witness:
  "getAllSprints (onePage [sprintJan, sprintFeb]) exampleClock ''1'' =
     Some ([sprintFeb, sprintJan], [])
   \<and> length [sprintFeb, sprintJan] \<le> 1000
   \<and> compareSprints exampleClock sprintNoDate sprintJan = Some 0
   \<and> sorted_wrt (startsNoEarlier exampleClock) [sprintFeb, sprintJan]"
proof -
  have out: "getAllSprints (onePage [sprintJan, sprintFeb]) exampleClock ''1'' =
     Some ([sprintFeb, sprintJan], [])"
    by (simp add: getAllSprints_def loop_onePage arraySort_def sortCompare_def
        compareSprints_def MAX_SPRINTS_TO_FETCH_def sprintJan_def sprintFeb_def exampleClock_def)
  have dated: "\<forall>s\<in>set [sprintJan, sprintFeb]. startTime exampleClock s \<noteq> None"
    by (simp add: startTime_def sprintJan_def sprintFeb_def exampleClock_def)
  have lacks: "lacksStartDate sprintNoDate"
    by (simp add: lacksStartDate_def sprintNoDate_def)
  from getAllSprints_sorted_when_dated [OF out, of sprintNoDate sprintJan] lacks
  have len: "length [sprintFeb, sprintJan] \<le> 1000"
    and cmp: "compareSprints exampleClock sprintNoDate sprintJan = Some 0"
    and ex: "\<exists>sorted. [sprintFeb, sprintJan] = take 1000 sorted \<and>
               mset sorted = mset [sprintJan, sprintFeb] \<and>
               ((\<forall>s\<in>set [sprintJan, sprintFeb]. startTime exampleClock s \<noteq> None) \<longrightarrow>
                  sorted_wrt (startsNoEarlier exampleClock) sorted \<and>
                  (\<forall>t. filter (\<lambda>s. startTime exampleClock s = t) sorted =
                       filter (\<lambda>s. startTime exampleClock s = t) [sprintJan, sprintFeb]))"
    using loop_onePage [of "[sprintJan, sprintFeb]" "''1''"] by blast+
  from ex dated obtain sorted where s: "[sprintFeb, sprintJan] = take 1000 sorted"
    "mset sorted = mset [sprintJan, sprintFeb]" "sorted_wrt (startsNoEarlier exampleClock) sorted"
    by blast
  from s(2) have "length sorted = 2" by (metis length_Cons list.size(3) mset_eq_length numeral_2_eq_2)
  with s(1) have "sorted = [sprintFeb, sprintJan]" by simp
  with s(3) out len cmp show ?thesis by simp
qed

text \<open>
  C3. The claim wants the result sorted non-increasing by start date, an entry without a
  start date being in order with every other, and the comments of the source say the
  same (\<^verbatim>\<open>Sort sprints by start date (most recent first)\<close>). The code does not achieve it:
  a sprint without a start date between two dated sprints compares equal to both, so the
  comparator is not an order, nothing moves, and the sprint of January stays before the
  sprint of February.
\<close>

theorem getAllSprints_undated_between_dated:
  "getAllSprints (onePage [sprintJan, sprintNoDate, sprintFeb]) exampleClock ''1'' =
     Some ([sprintJan, sprintNoDate, sprintFeb], [])
   \<and> \<not> sorted_wrt (startsNoEarlier exampleClock) [sprintJan, sprintNoDate, sprintFeb]"
  by (simp add: getAllSprints_def loop_onePage arraySort_def sortCompare_def compareSprints_def
      MAX_SPRINTS_TO_FETCH_def sprintJan_def sprintNoDate_def sprintFeb_def exampleClock_def
      startsNoEarlier_def startTime_def)

text \<open>
  When the listing returns. The loop goes on as long as the pages promise more and the
  bound is not reached, and it returns exactly when the listing stops at some page.
\<close>

lemma loop_continues:
  "\<forall>i<n. morePages (get b (s + 50 * i) 50) (s + 50 * i) \<and>
           length (sprints @ collected get b s i) < MAX_SPRINTS_TO_FETCH \<Longrightarrow>
   getAllSprints_loop get b sprints s False =
   getAllSprints_loop get b (sprints @ collected get b s n) (s + 50 * n) False"
proof (induction n arbitrary: sprints s)
  case 0
  then show ?case by (simp add: collected_def)
next
  case (Suc n)
  from Suc.prems have m0: "morePages (get b s 50) s" and short: "length sprints < MAX_SPRINTS_TO_FETCH"
    by (force simp: collected_def)+
  then obtain d vs where d: "get b s 50 = Inr (Some d)" "values d = Some vs" "\<not> isLast d"
      "(case total d of None \<Rightarrow> True | Some t \<Rightarrow> int (s + length vs) < t)"
    by (auto simp: morePages_def split: sum.splits option.splits)
  have pv: "pageValues (get b s 50) = vs" using d by (simp add: pageValues_def)
  have more: "\<forall>i<n. morePages (get b (s + 50 + 50 * i) 50) (s + 50 + 50 * i) \<and>
           length ((sprints @ vs) @ collected get b (s + 50) i) < MAX_SPRINTS_TO_FETCH"
  proof (intro allI impI)
    fix i assume "i < n"
    then have "Suc i < Suc n" by simp
    with Suc.prems have "morePages (get b (s + 50 * Suc i) 50) (s + 50 * Suc i) \<and>
           length (sprints @ collected get b s (Suc i)) < MAX_SPRINTS_TO_FETCH" by blast
    then show "morePages (get b (s + 50 + 50 * i) 50) (s + 50 + 50 * i) \<and>
           length ((sprints @ vs) @ collected get b (s + 50) i) < MAX_SPRINTS_TO_FETCH"
      by (simp add: add.assoc collected_Suc pv)
  qed
  have notlast: "(isLast d \<or> (case total d of None \<Rightarrow> False | Some t \<Rightarrow> t \<le> int (s + length vs))) = False"
    using d(3,4) by (auto split: option.splits)
  have "getAllSprints_loop get b sprints s False =
        getAllSprints_loop get b (sprints @ vs) (s + 50)
          (isLast d \<or> (case total d of None \<Rightarrow> False | Some t \<Rightarrow> t \<le> int (s + length vs)))"
    by (subst getAllSprints_loop.simps) (simp only: short d(1,2) simp_thms if_True sum.case option.case)
  also have "\<dots> = getAllSprints_loop get b (sprints @ vs) (s + 50) False"
    by (simp only: notlast)
  also have "\<dots> = getAllSprints_loop get b ((sprints @ vs) @ collected get b (s + 50) n) (s + 50 + 50 * n) False"
    by (rule Suc.IH [OF more])
  finally show ?case by (simp add: collected_Suc pv add.assoc)
qed

lemma loop_full:
  "MAX_SPRINTS_TO_FETCH \<le> length sprints \<Longrightarrow>
   getAllSprints_loop get b sprints s lastPage = Some (Inr sprints)"
  by (subst getAllSprints_loop.simps) simp

lemma loop_last: "getAllSprints_loop get b sprints s True = Some (Inr sprints)"
  by (subst getAllSprints_loop.simps) simp

lemma loop_stops:
  assumes "length sprints < MAX_SPRINTS_TO_FETCH" and "\<not> morePages (get b s 50) s"
  shows "getAllSprints_loop get b sprints s False =
     (case get b s 50 of
        Inl e \<Rightarrow> Some (Inl e)
      | Inr r \<Rightarrow> Some (Inr (sprints @ pageValues (get b s 50))))"
proof (cases "get b s 50")
  case (Inl e)
  with assms(1) show ?thesis by (subst getAllSprints_loop.simps) simp
next
  case (Inr r)
  show ?thesis
  proof (cases r)
    case None
    with Inr assms(1) show ?thesis
      by (subst getAllSprints_loop.simps) (simp add: loop_last pageValues_def)
  next
    case (Some d)
    show ?thesis
    proof (cases "values d")
      case None
      with Inr Some assms(1) show ?thesis
        by (subst getAllSprints_loop.simps) (simp add: loop_last pageValues_def)
    next
      case (Some vs)
      with Inr \<open>r = Some d\<close> assms(2)
      have "(isLast d \<or> (case total d of None \<Rightarrow> False | Some t \<Rightarrow> t \<le> int (s + length vs))) = True"
        by (auto simp: morePages_def split: option.splits)
      with Inr \<open>r = Some d\<close> Some assms(1) show ?thesis
        by (subst getAllSprints_loop.simps) (simp add: loop_last pageValues_def)
    qed
  qed
qed

lemma length_collected_mono: "i \<le> n \<Longrightarrow> length (collected get b s i) \<le> length (collected get b s n)"
proof (induction n)
  case 0
  then show ?case by simp
next
  case (Suc n)
  have "collected get b s (Suc n) = collected get b s n @ pageValues (get b (s + 50 * n) 50)"
    by (simp add: collected_def)
  with Suc show ?case by (cases "i = Suc n") auto
qed

lemma collected_0: "collected get b s 0 = []"
  by (simp add: collected_def)

lemma loop_returns:
  "\<forall>i<n. morePages (get b (s + 50 * i) 50) (s + 50 * i) \<Longrightarrow>
   MAX_SPRINTS_TO_FETCH \<le> length (sprints @ collected get b s n) \<or>
     \<not> morePages (get b (s + 50 * n) 50) (s + 50 * n) \<Longrightarrow>
   \<exists>res. getAllSprints_loop get b sprints s False = Some res"
proof (induction n arbitrary: sprints s)
  case 0
  show ?case
  proof (cases "MAX_SPRINTS_TO_FETCH \<le> length sprints")
    case True
    then show ?thesis by (simp add: loop_full)
  next
    case False
    with 0 have "\<not> morePages (get b s 50) s" by (simp add: collected_def)
    with False show ?thesis by (simp add: loop_stops split: sum.splits)
  qed
next
  case (Suc n)
  show ?case
  proof (cases "MAX_SPRINTS_TO_FETCH \<le> length sprints")
    case True
    then show ?thesis by (simp add: loop_full)
  next
    case False
    from Suc.prems(1) have m0: "morePages (get b s 50) s" by force
    have one: "\<forall>i<Suc 0. morePages (get b (s + 50 * i) 50) (s + 50 * i) \<and>
           length (sprints @ collected get b s i) < MAX_SPRINTS_TO_FETCH"
      using m0 False by (simp add: collected_def)
    have step: "getAllSprints_loop get b sprints s False =
        getAllSprints_loop get b (sprints @ collected get b s (Suc 0)) (s + 50) False"
      using loop_continues [OF one] by simp
    have more: "\<forall>i<n. morePages (get b (s + 50 + 50 * i) 50) (s + 50 + 50 * i)"
    proof (intro allI impI)
      fix i assume "i < n"
      then have "Suc i < Suc n" by simp
      with Suc.prems(1) have "morePages (get b (s + 50 * Suc i) 50) (s + 50 * Suc i)" by blast
      then show "morePages (get b (s + 50 + 50 * i) 50) (s + 50 + 50 * i)" by (simp add: add.assoc)
    qed
    have c: "collected get b s (Suc n) = collected get b s (Suc 0) @ collected get b (s + 50) n"
      by (simp add: collected_Suc collected_0)
    have stop: "MAX_SPRINTS_TO_FETCH \<le> length ((sprints @ collected get b s (Suc 0)) @ collected get b (s + 50) n) \<or>
        \<not> morePages (get b (s + 50 + 50 * n) 50) (s + 50 + 50 * n)"
      using Suc.prems(2) by (simp add: c add.assoc)
    from Suc.IH [OF more stop] step show ?thesis by simp
  qed
qed

lemma loop_returned:
  "getAllSprints_loop get b sprints s lastPage = Some res \<Longrightarrow>
   lastPage \<or> (\<exists>n. (\<forall>i<n. morePages (get b (s + 50 * i) 50) (s + 50 * i)) \<and>
        (MAX_SPRINTS_TO_FETCH \<le> length (sprints @ collected get b s n) \<or>
         \<not> morePages (get b (s + 50 * n) 50) (s + 50 * n)))"
proof (induction rule: getAllSprints_loop.raw_induct [rotated, consumes 1])
  case (1 loop get b sprints s lastPage res)
  let ?stops = "\<lambda>sprints s n. (\<forall>i<n. morePages (get b (s + 50 * i) 50) (s + 50 * i)) \<and>
        (MAX_SPRINTS_TO_FETCH \<le> length (sprints @ collected get b s n) \<or>
         \<not> morePages (get b (s + 50 * n) 50) (s + 50 * n))"
  show ?case
  proof (cases "lastPage")
    case True
    then show ?thesis by simp
  next
    case notlast: False
    show ?thesis
    proof (cases "MAX_SPRINTS_TO_FETCH \<le> length sprints")
      case True
      then have "?stops sprints s 0" by (simp add: collected_def)
      then show ?thesis by blast
    next
      case short: False
      show ?thesis
      proof (cases "morePages (get b s 50) s")
        case False
        then have "?stops sprints s 0" by simp
        then show ?thesis by blast
      next
        case True
        then obtain d vs where d: "get b s 50 = Inr (Some d)" "values d = Some vs" "\<not> isLast d"
            "(case total d of None \<Rightarrow> True | Some t \<Rightarrow> int (s + length vs) < t)"
          by (auto simp: morePages_def split: sum.splits option.splits)
        have pv: "pageValues (get b s 50) = vs" using d by (simp add: pageValues_def)
        have nl: "(isLast d \<or> (case total d of None \<Rightarrow> False | Some t \<Rightarrow> t \<le> int (s + length vs))) = False"
          using d(3,4) by (auto split: option.splits)
        from 1(2) notlast short d(1,2) have "loop get b (sprints @ vs) (s + 50) False = Some res"
          by (simp add: nl)
        from 1(1) [OF this] obtain n where n: "?stops (sprints @ vs) (s + 50) n" by auto
        have "?stops sprints s (Suc n)"
        proof (intro conjI allI impI)
          fix i assume "i < Suc n"
          show "morePages (get b (s + 50 * i) 50) (s + 50 * i)"
          proof (cases i)
            case 0
            with True show ?thesis by simp
          next
            case (Suc j)
            with \<open>i < Suc n\<close> have "j < n" by simp
            with n have "morePages (get b (s + 50 + 50 * j) 50) (s + 50 + 50 * j)" by blast
            with Suc show ?thesis by (simp add: add.assoc)
          qed
        next
          from n show "MAX_SPRINTS_TO_FETCH \<le> length (sprints @ collected get b s (Suc n)) \<or>
             \<not> morePages (get b (s + 50 * Suc n) 50) (s + 50 * Suc n)"
            by (simp add: collected_Suc pv add.assoc)
        qed
        then show ?thesis by blast
      qed
    qed
  qed
qed

lemma listing_returns_iff:
  "getAllSprints get T b \<noteq> None \<longleftrightarrow> (\<exists>n. listingStops get b n)"
proof
  assume "getAllSprints get T b \<noteq> None"
  then obtain res where "getAllSprints_loop get b [] 0 False = Some res"
    by (auto simp: getAllSprints_def split: option.splits)
  from loop_returned [OF this] obtain n where
    "(\<forall>i<n. morePages (get b (0 + 50 * i) 50) (0 + 50 * i)) \<and>
        (MAX_SPRINTS_TO_FETCH \<le> length ([] @ collected get b 0 n) \<or>
         \<not> morePages (get b (0 + 50 * n) 50) (0 + 50 * n))"
    by blast
  then have "listingStops get b n"
    by (simp add: listingStops_def list_all_iff)
  then show "\<exists>n. listingStops get b n" ..
next
  assume "\<exists>n. listingStops get b n"
  then obtain n where "listingStops get b n" by blast
  then have "\<exists>res. getAllSprints_loop get b [] 0 False = Some res"
    by (intro loop_returns [where n = n]) (simp_all add: listingStops_def list_all_iff)
  then show "getAllSprints get T b \<noteq> None"
    by (auto simp: getAllSprints_def split: sum.splits)
qed

section \<open>Properties of the sprint of a ticket\<close>

lemma getProp_throws: "getProp v k = Inl e \<Longrightarrow> (v = JUndefined \<or> v = JNull) \<and> e = TypeError"
  by (auto simp: getProp_def split: jsval.splits)





section \<open>Properties of the epic grouper\<close>

lemma firstSeen_snoc:
  "firstSeen (xs @ [x]) = (if x \<in> set xs then firstSeen xs else firstSeen xs @ [x])"
  by (simp add: firstSeen_def)

lemma set_firstSeen: "set (firstSeen xs) = set xs"
  by (simp add: firstSeen_def)

lemma distinct_firstSeen: "distinct (firstSeen xs)"
  by (simp add: firstSeen_def)

lemma set_epicKeysInOrder:
  "set (epicKeysInOrder found) = {k. k \<noteq> ''NO_EPIC'' \<and> (\<exists>i\<in>set found. groupKey i = k)}"
  by (auto simp: epicKeysInOrder_def set_firstSeen)

lemma epicKeysInOrder_snoc:
  "epicKeysInOrder (found @ [i]) =
     (if groupKey i = ''NO_EPIC'' \<or> groupKey i \<in> set (epicKeysInOrder found)
      then epicKeysInOrder found else epicKeysInOrder found @ [groupKey i])"
  by (auto simp: epicKeysInOrder_def firstSeen_snoc set_firstSeen)

lemma map_of_keyed:
  "map_of (map (\<lambda>k. (k, f k)) ks) k = (if k \<in> set ks then Some (f k) else None)"
  by (induction ks) auto

lemma getProperty_keyed:
  "getProperty (map (\<lambda>k. (k, f k)) ks) k =
     (if k \<in> set ks then Own (f k)
      else if k \<in> set objectPrototypeKeys then Inherited else Absent)"
  by (simp add: getProperty_def map_of_keyed)

lemma updateProperty_keyed:
  "updateProperty (map (\<lambda>k. (k, f k)) ks) k v = map (\<lambda>k'. (k', (f(k := v)) k')) ks"
  by (induction ks) (auto simp: updateProperty_def)

lemma append_keyed:
  "k \<notin> set ks \<Longrightarrow>
   map (\<lambda>k'. (k', f k')) ks @ [(k, v)] = map (\<lambda>k'. (k', (f(k := v)) k')) (ks @ [k])"
  by (induction ks) auto

lemma find_snoc:
  "find P (xs @ [x]) = (case find P xs of Some y \<Rightarrow> Some y | None \<Rightarrow> if P x then Some x else None)"
  by (induction xs) auto

lemma find_None_filter: "find P xs = None \<longleftrightarrow> filter P xs = []"
  by (induction xs) auto

lemma groupFor_snoc_other:
  "groupKey i \<noteq> k \<Longrightarrow> groupFor (found @ [i]) k = groupFor found k"
  by (simp add: groupFor_def find_snoc split: option.splits)

lemma groupFor_snoc_seen:
  assumes "groupKey i = ''NO_EPIC'' \<or> (\<exists>j\<in>set found. groupKey j = groupKey i)"
  shows "groupFor (found @ [i]) (groupKey i) =
           (groupFor found (groupKey i))\<lparr>issues := issues (groupFor found (groupKey i)) @ [i]\<rparr>"
proof (cases "groupKey i = ''NO_EPIC''")
  case True
  then show ?thesis by (simp add: groupFor_def)
next
  case False
  with assms obtain j where "j \<in> set found" "groupKey j = groupKey i" by auto
  then have "filter (\<lambda>x. groupKey x = groupKey i) found \<noteq> []"
    by (auto simp: filter_empty_conv)
  then obtain y where "find (\<lambda>x. groupKey x = groupKey i) found = Some y"
    using find_None_filter [of "\<lambda>x. groupKey x = groupKey i" found] by (cases "find (\<lambda>x. groupKey x = groupKey i) found") auto
  then show ?thesis by (simp add: groupFor_def find_snoc)
qed

lemma groupFor_snoc_new:
  assumes "groupKey i \<noteq> ''NO_EPIC''" and "\<not> (\<exists>j\<in>set found. groupKey j = groupKey i)"
  shows "groupFor (found @ [i]) (groupKey i) = \<lparr>epicName = parentSummary i, issues = [i]\<rparr>"
proof -
  from assms(2) have f: "filter (\<lambda>x. groupKey x = groupKey i) found = []"
    by (auto simp: filter_empty_conv)
  then have "find (\<lambda>x. groupKey x = groupKey i) found = None"
    by (simp add: find_None_filter)
  with f assms(1) show ?thesis by (simp add: groupFor_def find_snoc)
qed

lemma organizeIssue_step:
  assumes "groupKey i \<notin> set objectPrototypeKeys"
  shows "organizeIssue i (groupsAfter found) = Inr (groupsAfter (found @ [i]))"
proof -
  let ?k = "groupKey i"
  let ?K = "''NO_EPIC'' # epicKeysInOrder found"
  let ?K' = "''NO_EPIC'' # epicKeysInOrder (found @ [i])"
  have seen: "?k \<in> set ?K \<longleftrightarrow> ?k = ''NO_EPIC'' \<or> (\<exists>j\<in>set found. groupKey j = ?k)"
    by (auto simp: set_epicKeysInOrder)
  have K': "?K' = (if ?k \<in> set ?K then ?K else ?K @ [?k])"
    by (auto simp: epicKeysInOrder_snoc)
  show ?thesis
  proof (cases "?k \<in> set ?K")
    case True
    have push: "pushIssue (groupsAfter found) ?k i = Inr (groupsAfter (found @ [i]))"
    proof -
      have "pushIssue (groupsAfter found) ?k i =
          Inr (map (\<lambda>k'. (k', ((groupFor found)(?k := (groupFor found ?k)\<lparr>issues := issues (groupFor found ?k) @ [i]\<rparr>)) k')) ?K)"
        using True unfolding pushIssue_def groupsAfter_def getProperty_keyed updateProperty_keyed
        by simp
      also have "(groupFor found)(?k := (groupFor found ?k)\<lparr>issues := issues (groupFor found ?k) @ [i]\<rparr>)
          = groupFor (found @ [i])"
      proof
        fix k'
        show "((groupFor found)(?k := (groupFor found ?k)\<lparr>issues := issues (groupFor found ?k) @ [i]\<rparr>)) k'
            = groupFor (found @ [i]) k'"
          using True seen groupFor_snoc_seen [of i found] groupFor_snoc_other [of i k' found]
          by (cases "k' = ?k") auto
      qed
      finally show ?thesis using True K' by (simp add: groupsAfter_def)
    qed
    show ?thesis
    proof (cases "parent (JiraIssue.fields' i)")
      case None
      then have "?k = ''NO_EPIC''" by (simp add: groupKey_def)
      with None push show ?thesis by (simp add: organizeIssue_def)
    next
      case (Some p)
      then have k: "Parent.key p = ?k" by (simp add: groupKey_def)
      have "getProperty (groupsAfter found) ?k = Own (groupFor found ?k)"
        using True unfolding groupsAfter_def getProperty_keyed by simp
      with Some k push show ?thesis by (simp add: organizeIssue_def Let_def)
    qed
  next
    case False
    then have ne: "?k \<noteq> ''NO_EPIC''" and unseen: "\<not> (\<exists>j\<in>set found. groupKey j = ?k)"
      using seen by auto
    from ne obtain p where p: "parent (JiraIssue.fields' i) = Some p" "Parent.key p = ?k"
      by (auto simp: groupKey_def split: option.splits)
    then have ps: "ParentFields.summary (Parent.fields' p) = parentSummary i"
      by (simp add: parentSummary_def)
    have absent: "getProperty (groupsAfter found) ?k = Absent"
      using False assms unfolding groupsAfter_def getProperty_keyed by simp
    let ?f = "(groupFor found)(?k := \<lparr>epicName = parentSummary i, issues = []\<rparr>)"
    have created: "groupsAfter found @ [(?k, \<lparr>epicName = parentSummary i, issues = []\<rparr>)]
        = map (\<lambda>k'. (k', ?f k')) (?K @ [?k])"
      unfolding groupsAfter_def using False by (rule append_keyed)
    have same: "?f(?k := (?f ?k)\<lparr>issues := issues (?f ?k) @ [i]\<rparr>) = groupFor (found @ [i])"
    proof
      fix k'
      show "(?f(?k := (?f ?k)\<lparr>issues := issues (?f ?k) @ [i]\<rparr>)) k' = groupFor (found @ [i]) k'"
        using groupFor_snoc_new [OF ne unseen] groupFor_snoc_other [of i k' found]
        by (cases "k' = ?k") auto
    qed
    have "pushIssue (groupsAfter found @ [(?k, \<lparr>epicName = parentSummary i, issues = []\<rparr>)]) ?k i
        = pushIssue (map (\<lambda>k'. (k', ?f k')) (?K @ [?k])) ?k i"
      by (simp only: created)
    also have "\<dots> =
        Inr (map (\<lambda>k'. (k', (?f(?k := (?f ?k)\<lparr>issues := issues (?f ?k) @ [i]\<rparr>)) k')) (?K @ [?k]))"
      unfolding pushIssue_def getProperty_keyed updateProperty_keyed by simp
    also have "\<dots> = Inr (map (\<lambda>k'. (k', groupFor (found @ [i]) k')) (?K @ [?k]))"
      by (simp only: same)
    also have "\<dots> = Inr (groupsAfter (found @ [i]))"
      unfolding groupsAfter_def K' using False by (simp only: if_False)
    finally have "pushIssue (groupsAfter found @ [(?k, \<lparr>epicName = parentSummary i, issues = []\<rparr>)]) ?k i
        = Inr (groupsAfter (found @ [i]))" .
    with p ps absent show ?thesis by (simp add: organizeIssue_def Let_def)
  qed
qed

lemma forEachIssue_groupsAfter:
  "\<forall>i\<in>set rest. groupKey i \<notin> set objectPrototypeKeys \<Longrightarrow>
   forEachIssue rest (groupsAfter found) = Inr (groupsAfter (found @ rest))"
proof (induction rest arbitrary: found)
  case Nil
  then show ?case by simp
next
  case (Cons i rest)
  have "organizeIssue i (groupsAfter found) = Inr (groupsAfter (found @ [i]))"
    using Cons.prems by (intro organizeIssue_step) simp
  moreover have "forEachIssue rest (groupsAfter (found @ [i])) = Inr (groupsAfter ((found @ [i]) @ rest))"
    using Cons.prems by (intro Cons.IH) simp
  ultimately show ?case by simp
qed

lemma organizeIssuesByEpic_groupByEpic:
  assumes "\<forall>i\<in>set found. groupKey i \<notin> set objectPrototypeKeys"
  shows "organizeIssuesByEpic found = Inr (groupByEpic found)"
proof -
  have start: "[(''NO_EPIC'', \<lparr>epicName = ''Tasks without Epic'', issues = []\<rparr>)] = groupsAfter []"
    by (simp add: groupsAfter_def epicKeysInOrder_def firstSeen_def groupFor_def)
  have loop: "forEachIssue found (groupsAfter []) = Inr (groupsAfter found)"
    using forEachIssue_groupsAfter [OF assms, of "[]"] by simp
  have own: "getProperty (groupsAfter found) ''NO_EPIC'' = Own (groupFor found ''NO_EPIC'')"
    unfolding groupsAfter_def getProperty_keyed by simp
  have del: "deleteProperty (groupsAfter found) ''NO_EPIC'' =
      map (\<lambda>k. (k, groupFor found k)) (epicKeysInOrder found)"
  proof -
    have "\<forall>k\<in>set (epicKeysInOrder found). k \<noteq> ''NO_EPIC''" by (simp add: set_epicKeysInOrder)
    then have "filter (\<lambda>(k', v'). k' \<noteq> ''NO_EPIC'') (map (\<lambda>k. (k, groupFor found k)) (epicKeysInOrder found))
        = map (\<lambda>k. (k, groupFor found k)) (epicKeysInOrder found)"
      by (induction "epicKeysInOrder found") (auto simp: filter_id_conv)
    then show ?thesis by (simp add: deleteProperty_def groupsAfter_def)
  qed
  have iss: "issues (groupFor found ''NO_EPIC'') = filter (\<lambda>i. groupKey i = ''NO_EPIC'') found"
    by (simp add: groupFor_def)
  have "organizeIssuesByEpic found =
      (if filter (\<lambda>i. groupKey i = ''NO_EPIC'') found = []
       then Inr (map (\<lambda>k. (k, groupFor found k)) (epicKeysInOrder found))
       else Inr (groupsAfter found))"
    unfolding organizeIssuesByEpic_def start loop by (simp add: own del iss)
  then show ?thesis by (simp add: groupByEpic_def groupsAfter_def)
qed

section \<open>Properties of the formatter\<close>

lemma foldl_append_concat: "foldl (\<lambda>out x. out @ h x) acc xs = acc @ concat (map h xs)"
  by (induction xs arbitrary: acc) auto

lemma generateSlackCommands_concat:
  "generateSlackCommands baseUrl epicGroups =
     concat (map (\<lambda>(epicKey, g). groupText baseUrl g) (objectEntries epicGroups))"
proof -
  have inner: "foldl (\<lambda>output issue.
               let issueUrl = baseUrl @ ''/browse/'' @ JiraIssue.key issue
               in output @ ''/pp '' @ issueUrl @ '' '' @ IssueFields.summary (JiraIssue.fields' issue)
                    @ [CHR 0x0A]) out xs = out @ concat (map (commandLine baseUrl) xs)" for out xs
    using foldl_append_concat [of "commandLine baseUrl" out xs]
    by (simp add: commandLine_def Let_def)
  have "generateSlackCommands baseUrl epicGroups =
      foldl (\<lambda>out x. out @ (\<lambda>(epicKey, g). groupText baseUrl g) x) [] (objectEntries epicGroups)"
    unfolding generateSlackCommands_def inner
    by (simp add: groupText_def case_prod_unfold)
  then show ?thesis by (simp only: foldl_append_concat append_Nil)
qed

lemma objectEntries_no_index:
  assumes "\<forall>kv\<in>set obj. \<not> isArrayIndex (fst kv)"
  shows "objectEntries obj = obj"
proof -
  have "filter (\<lambda>(k, v). isArrayIndex k) obj = []"
    using assms by (auto simp: filter_empty_conv)
  moreover have "filter (\<lambda>(k, v). \<not> isArrayIndex k) obj = obj"
    using assms by (auto simp: filter_id_conv)
  ultimately show ?thesis by (simp add: objectEntries_def)
qed

section \<open>The claims on grouping and formatting\<close>

lemma groupKey_unreserved:
  assumes "parentKeysUnreserved found" and "i \<in> set found"
  shows "groupKey i \<notin> set objectPrototypeKeys"
    and "groupKey i = ''NO_EPIC'' \<longleftrightarrow> parent (JiraIssue.fields' i) = None"
proof -
  from assms have u: "case epicKeyOf i of None \<Rightarrow> True
      | Some k \<Rightarrow> k \<noteq> ''NO_EPIC'' \<and> k \<notin> set objectPrototypeKeys"
    by (simp add: parentKeysUnreserved_def list_all_iff)
  show "groupKey i \<notin> set objectPrototypeKeys"
  proof (cases "parent (JiraIssue.fields' i)")
    case None
    then show ?thesis by (simp add: groupKey_def objectPrototypeKeys_def)
  next
    case (Some p)
    with u show ?thesis by (simp add: groupKey_def epicKeyOf_def)
  qed
  show "groupKey i = ''NO_EPIC'' \<longleftrightarrow> parent (JiraIssue.fields' i) = None"
    using u by (cases "parent (JiraIssue.fields' i)") (simp_all add: groupKey_def epicKeyOf_def)
qed

lemma groupByEpic_keys:
  "map fst (groupByEpic found) =
     (if filter (\<lambda>i. groupKey i = ''NO_EPIC'') found = [] then [] else [''NO_EPIC''])
     @ epicKeysInOrder found"
  by (simp add: groupByEpic_def comp_def)

lemma groupByEpic_member:
  "(k, g) \<in> set (groupByEpic found) \<Longrightarrow> g = groupFor found k"
  by (auto simp: groupByEpic_def split: if_splits)

lemma groupByEpic_key_set:
  "fst ` set (groupByEpic found) = groupKey ` set found"
proof -
  have "set (map fst (groupByEpic found)) = groupKey ` set found"
  proof (intro set_eqI iffI)
    fix k
    assume "k \<in> set (map fst (groupByEpic found))"
    then consider "k = ''NO_EPIC''" "filter (\<lambda>i. groupKey i = ''NO_EPIC'') found \<noteq> []"
      | "k \<in> set (epicKeysInOrder found)"
      unfolding groupByEpic_keys by (auto split: if_splits)
    then show "k \<in> groupKey ` set found"
    proof cases
      case 1
      then obtain i where "i \<in> set found" "groupKey i = ''NO_EPIC''"
        by (auto simp: filter_empty_conv)
      with 1 show ?thesis by force
    next
      case 2
      then show ?thesis by (force simp: set_epicKeysInOrder)
    qed
  next
    fix k
    assume "k \<in> groupKey ` set found"
    then obtain i where i: "i \<in> set found" "groupKey i = k" by auto
    show "k \<in> set (map fst (groupByEpic found))"
    proof (cases "k = ''NO_EPIC''")
      case True
      with i have "filter (\<lambda>i. groupKey i = ''NO_EPIC'') found \<noteq> []"
        by (auto simp: filter_empty_conv)
      with True show ?thesis unfolding groupByEpic_keys by simp
    next
      case False
      with i have "k \<in> set (epicKeysInOrder found)" by (auto simp: set_epicKeysInOrder)
      then show ?thesis unfolding groupByEpic_keys by simp
    qed
  qed
  then show ?thesis by simp
qed

lemma groupByEpic_distinct: "distinct (map fst (groupByEpic found))"
  unfolding groupByEpic_keys
  by (auto simp: epicKeysInOrder_def distinct_firstSeen set_firstSeen)

text \<open>
  C5, as amended. For every ticket list in which no parent key is reserved, the grouper
  returns a dictionary with distinct keys in which every ticket is in exactly one group,
  the group of its key: each group holds exactly the tickets filed under its key, tickets
  with a parent under the epic's key and tickets without under the sentinel key. The
  sentinel group is present if and only if some ticket has no parent.
\<close>

theorem organizeIssuesByEpic_partition:
  assumes "parentKeysUnreserved found"
  shows "\<exists>epicGroups. organizeIssuesByEpic found = Inr epicGroups
    \<and> distinct (map fst epicGroups)
    \<and> (\<forall>i\<in>set found. groupKey i \<in> fst ` set epicGroups)
    \<and> (\<forall>(k, g)\<in>set epicGroups. issues g = filter (\<lambda>i. groupKey i = k) found)
    \<and> (''NO_EPIC'' \<in> fst ` set epicGroups \<longleftrightarrow>
         (\<exists>i\<in>set found. parent (JiraIssue.fields' i) = None))"
proof -
  have r: "organizeIssuesByEpic found = Inr (groupByEpic found)"
    using groupKey_unreserved(1) [OF assms] by (intro organizeIssuesByEpic_groupByEpic) blast
  have d: "distinct (map fst (groupByEpic found))" by (rule groupByEpic_distinct)
  have m: "\<forall>i\<in>set found. groupKey i \<in> fst ` set (groupByEpic found)"
    by (simp add: groupByEpic_key_set)
  have "issues g = filter (\<lambda>i. groupKey i = k) found" if "(k, g) \<in> set (groupByEpic found)" for k g
    using groupByEpic_member [OF that] by (simp add: groupFor_def)
  then have f: "\<forall>(k, g)\<in>set (groupByEpic found). issues g = filter (\<lambda>i. groupKey i = k) found"
    by blast
  have "''NO_EPIC'' \<in> groupKey ` set found \<longleftrightarrow>
         (\<exists>i\<in>set found. parent (JiraIssue.fields' i) = None)"
  proof
    assume "''NO_EPIC'' \<in> groupKey ` set found"
    then obtain i where i: "i \<in> set found" "groupKey i = ''NO_EPIC''" by auto
    with groupKey_unreserved(2) [OF assms, of i] have "parent (JiraIssue.fields' i) = None" by simp
    with i show "\<exists>i\<in>set found. parent (JiraIssue.fields' i) = None" by blast
  next
    assume "\<exists>i\<in>set found. parent (JiraIssue.fields' i) = None"
    then obtain i where i: "i \<in> set found" "parent (JiraIssue.fields' i) = None" by auto
    with groupKey_unreserved(2) [OF assms, of i] have "groupKey i = ''NO_EPIC''" by simp
    with i show "''NO_EPIC'' \<in> groupKey ` set found" by force
  qed
  then have s: "''NO_EPIC'' \<in> fst ` set (groupByEpic found) \<longleftrightarrow>
         (\<exists>i\<in>set found. parent (JiraIssue.fields' i) = None)"
    by (simp only: groupByEpic_key_set)
  show ?thesis
    by (rule exI [of _ "groupByEpic found"]) (intro conjI r d m f s)
qed

text \<open>
  C9, as amended. For every ticket list in which no parent key is reserved, the grouper
  returns a dictionary with one group for each key, and every ticket that refers to an
  epic key is in the group of that key: the group exists, its name is the one carried
  by the first ticket of the list that refers to the key, whatever names later tickets
  carry, and it holds every ticket that refers to the key, in arrival order. Conversely,
  every group other than the sentinel group is the group of a key some ticket refers to,
  with that name and those tickets.
\<close>

theorem organizeIssuesByEpic_first_name_wins:
  assumes "parentKeysUnreserved found"
  shows "\<exists>epicGroups. organizeIssuesByEpic found = Inr epicGroups
    \<and> distinct (map fst epicGroups)
    \<and> (\<forall>i\<in>set found. \<forall>k. epicKeyOf i = Some k \<longrightarrow>
          (\<exists>g first. (k, g) \<in> set epicGroups
              \<and> find (\<lambda>j. epicKeyOf j = Some k) found = Some first
              \<and> epicName g = parentSummary first
              \<and> issues g = filter (\<lambda>j. epicKeyOf j = Some k) found
              \<and> i \<in> set (issues g)))
    \<and> (\<forall>(k, g)\<in>set epicGroups. k \<noteq> ''NO_EPIC'' \<longrightarrow>
          (\<exists>first. find (\<lambda>i. epicKeyOf i = Some k) found = Some first
              \<and> epicName g = parentSummary first)
          \<and> issues g = filter (\<lambda>i. epicKeyOf i = Some k) found)"
proof -
  have r: "organizeIssuesByEpic found = Inr (groupByEpic found)"
    using groupKey_unreserved(1) [OF assms] by (intro organizeIssuesByEpic_groupByEpic) blast
  have d: "distinct (map fst (groupByEpic found))" by (rule groupByEpic_distinct)
  have same: "(\<lambda>i. groupKey i = k) = (\<lambda>i. epicKeyOf i = Some k)" if "k \<noteq> ''NO_EPIC''" for k
    using that by (auto simp: groupKey_def epicKeyOf_def fun_eq_iff split: option.splits)
  have named: "(\<exists>first. find (\<lambda>i. epicKeyOf i = Some k) found = Some first
              \<and> epicName g = parentSummary first)
          \<and> issues g = filter (\<lambda>i. epicKeyOf i = Some k) found"
    if kg: "(k, g) \<in> set (groupByEpic found)" and ne: "k \<noteq> ''NO_EPIC''" for k g
  proof -
    from kg have g: "g = groupFor found k" by (rule groupByEpic_member)
    from kg have "k \<in> fst ` set (groupByEpic found)" by force
    then obtain j where "j \<in> set found" "groupKey j = k"
      unfolding groupByEpic_key_set by auto
    then have "filter (\<lambda>i. groupKey i = k) found \<noteq> []" by (auto simp: filter_empty_conv)
    then obtain first where f: "find (\<lambda>i. groupKey i = k) found = Some first"
      using find_None_filter [of "\<lambda>i. groupKey i = k" found]
      by (cases "find (\<lambda>i. groupKey i = k) found") auto
    from f g ne have "epicName g = parentSummary first" by (simp add: groupFor_def)
    moreover from g have "issues g = filter (\<lambda>i. groupKey i = k) found" by (simp add: groupFor_def)
    ultimately show ?thesis using f unfolding same [OF ne] by blast
  qed
  have present: "\<exists>g first. (k, g) \<in> set (groupByEpic found)
              \<and> find (\<lambda>j. epicKeyOf j = Some k) found = Some first
              \<and> epicName g = parentSummary first
              \<and> issues g = filter (\<lambda>j. epicKeyOf j = Some k) found
              \<and> i \<in> set (issues g)"
    if i: "i \<in> set found" and k: "epicKeyOf i = Some k" for i k
  proof -
    from groupKey_unreserved(2) [OF assms i] k have ne: "groupKey i \<noteq> ''NO_EPIC''"
      by (auto simp: epicKeyOf_def)
    from k have gk: "groupKey i = k" by (auto simp: groupKey_def epicKeyOf_def)
    from i gk have "k \<in> fst ` set (groupByEpic found)" unfolding groupByEpic_key_set by force
    then obtain g where kg: "(k, g) \<in> set (groupByEpic found)" by force
    from ne gk have ne': "k \<noteq> ''NO_EPIC''" by simp
    from named [OF kg ne'] obtain first where
      f: "find (\<lambda>j. epicKeyOf j = Some k) found = Some first" "epicName g = parentSummary first"
      and iss: "issues g = filter (\<lambda>j. epicKeyOf j = Some k) found" by blast
    from iss i k have "i \<in> set (issues g)" by simp
    with kg f iss show ?thesis by blast
  qed
  have p: "\<forall>i\<in>set found. \<forall>k. epicKeyOf i = Some k \<longrightarrow>
          (\<exists>g first. (k, g) \<in> set (groupByEpic found)
              \<and> find (\<lambda>j. epicKeyOf j = Some k) found = Some first
              \<and> epicName g = parentSummary first
              \<and> issues g = filter (\<lambda>j. epicKeyOf j = Some k) found
              \<and> i \<in> set (issues g))"
    using present by blast
  have n: "\<forall>(k, g)\<in>set (groupByEpic found). k \<noteq> ''NO_EPIC'' \<longrightarrow>
          (\<exists>first. find (\<lambda>i. epicKeyOf i = Some k) found = Some first
              \<and> epicName g = parentSummary first)
          \<and> issues g = filter (\<lambda>i. epicKeyOf i = Some k) found"
    using named by blast
  show ?thesis
    by (rule exI [of _ "groupByEpic found"]) (intro conjI r d p n)
qed

text \<open>
  C6, as amended. The formatter's output is, for the groups in the order of
  \<^verbatim>\<open>Object.entries\<close>, the lines of the group's tickets followed by one empty line. That
  order is: the groups whose key is an array index, by ascending value of the key, then
  the other groups in insertion order; so it is the insertion order when no key is an
  array index. A ticket's line is \<^verbatim>\<open>/pp <baseUrl>/browse/<ticketKey> <summary>\<close> and a
  newline. For the group EPIC-1 with the one ticket T-1, "Fix bug", and the base URL
  \<^verbatim>\<open>https://x.atlassian.net\<close> the output is that line and an empty line.
\<close>

theorem generateSlackCommands_lines:
  "generateSlackCommands baseUrl epicGroups =
     concat (map (\<lambda>(epicKey, g). concat (map (commandLine baseUrl) (issues g)) @ [CHR 0x0A])
               (objectEntries epicGroups))
   \<and> (\<exists>indexed.
        objectEntries epicGroups = indexed @ filter (\<lambda>(k, g). \<not> isArrayIndex k) epicGroups
        \<and> mset indexed = mset (filter (\<lambda>(k, g). isArrayIndex k) epicGroups)
        \<and> sorted (map (\<lambda>(k, g). decimalValue k) indexed))
   \<and> ((\<forall>kv\<in>set epicGroups. \<not> isArrayIndex (fst kv)) \<longrightarrow> objectEntries epicGroups = epicGroups)
   \<and> commandLine baseUrl issue =
       ''/pp '' @ baseUrl @ ''/browse/'' @ JiraIssue.key issue @ '' ''
         @ IssueFields.summary (JiraIssue.fields' issue) @ [CHR 0x0A]
   \<and> generateSlackCommands ''https://x.atlassian.net''
         [(''EPIC-1'', \<lparr>epicName = ''Login'', issues = [ticketT1]\<rparr>)] =
       ''/pp https://x.atlassian.net/browse/T-1 Fix bug'' @ [CHR 0x0A] @ [CHR 0x0A]"
proof (intro conjI impI)
  show "generateSlackCommands baseUrl epicGroups =
     concat (map (\<lambda>(epicKey, g). concat (map (commandLine baseUrl) (issues g)) @ [CHR 0x0A])
               (objectEntries epicGroups))"
    using generateSlackCommands_concat [of baseUrl epicGroups] by (simp add: groupText_def)
next
  let ?indexed = "sort_key (\<lambda>(k, v). decimalValue k) (filter (\<lambda>(k, v). isArrayIndex k) epicGroups)"
  have "objectEntries epicGroups = ?indexed @ filter (\<lambda>(k, g). \<not> isArrayIndex k) epicGroups"
    by (simp add: objectEntries_def)
  moreover have "mset ?indexed = mset (filter (\<lambda>(k, g). isArrayIndex k) epicGroups)" by simp
  moreover have "sorted (map (\<lambda>(k, g). decimalValue k) ?indexed)" by (rule sorted_sort_key)
  ultimately show "\<exists>indexed.
        objectEntries epicGroups = indexed @ filter (\<lambda>(k, g). \<not> isArrayIndex k) epicGroups
        \<and> mset indexed = mset (filter (\<lambda>(k, g). isArrayIndex k) epicGroups)
        \<and> sorted (map (\<lambda>(k, g). decimalValue k) indexed)"
    by (intro exI [of _ ?indexed] conjI)
next
  assume "\<forall>kv\<in>set epicGroups. \<not> isArrayIndex (fst kv)"
  then show "objectEntries epicGroups = epicGroups" by (rule objectEntries_no_index)
next
  show "commandLine baseUrl issue =
       ''/pp '' @ baseUrl @ ''/browse/'' @ JiraIssue.key issue @ '' ''
         @ IssueFields.summary (JiraIssue.fields' issue) @ [CHR 0x0A]"
    by (simp add: commandLine_def)
next
  have "\<not> isArrayIndex ''EPIC-1''" by (simp add: isArrayIndex_def isDigit_def)
  then have "objectEntries [(''EPIC-1'', \<lparr>epicName = ''Login'', issues = [ticketT1]\<rparr>)] =
      [(''EPIC-1'', \<lparr>epicName = ''Login'', issues = [ticketT1]\<rparr>)]"
    by (intro objectEntries_no_index) simp
  then show "generateSlackCommands ''https://x.atlassian.net''
         [(''EPIC-1'', \<lparr>epicName = ''Login'', issues = [ticketT1]\<rparr>)] =
       ''/pp https://x.atlassian.net/browse/T-1 Fix bug'' @ [CHR 0x0A] @ [CHR 0x0A]"
    by (simp add: generateSlackCommands_concat groupText_def commandLine_def ticketT1_def ticket_def)
qed

text \<open>
  C10, as amended. When no parent key is reserved, no parent key is an array index, and
  some ticket has no parent, the sentinel group is the first entry of the dictionary in
  iteration order, and the formatter's output begins with the lines of the tickets
  without parent and an empty line, before the lines of the epic groups, which hold
  tickets with a parent only.
\<close>

theorem organizeIssuesByEpic_sentinel_first:
  assumes "parentKeysUnreserved found"
    and "\<forall>i\<in>set found. \<not> isArrayIndex (groupKey i)"
    and "\<exists>i\<in>set found. parent (JiraIssue.fields' i) = None"
  shows "\<exists>noEpic others.
      noEpic = (''NO_EPIC'', \<lparr>epicName = ''Tasks without Epic'',
                  issues = filter (\<lambda>i. parent (JiraIssue.fields' i) = None) found\<rparr>)
    \<and> organizeIssuesByEpic found = Inr (noEpic # others)
    \<and> objectEntries (noEpic # others) = noEpic # others
    \<and> generateSlackCommands baseUrl (noEpic # others) =
        concat (map (commandLine baseUrl) (filter (\<lambda>i. parent (JiraIssue.fields' i) = None) found))
        @ [CHR 0x0A] @ generateSlackCommands baseUrl others
    \<and> (\<forall>(k, g)\<in>set others. \<forall>i\<in>set (issues g). parent (JiraIssue.fields' i) \<noteq> None)"
proof -
  let ?noParent = "\<lambda>i. parent (JiraIssue.fields' i) = None"
  let ?others = "map (\<lambda>k. (k, groupFor found k)) (epicKeysInOrder found)"
  let ?noEpic = "(''NO_EPIC'', \<lparr>epicName = ''Tasks without Epic'', issues = filter ?noParent found\<rparr>)"
  have r: "organizeIssuesByEpic found = Inr (groupByEpic found)"
    using groupKey_unreserved(1) [OF assms(1)] by (intro organizeIssuesByEpic_groupByEpic) blast
  have same: "filter (\<lambda>i. groupKey i = ''NO_EPIC'') found = filter ?noParent found"
    using groupKey_unreserved(2) [OF assms(1)] by (intro filter_cong) auto
  from assms(3) have nonempty: "filter ?noParent found \<noteq> []" by (auto simp: filter_empty_conv)
  have g: "groupByEpic found = ?noEpic # ?others"
    using nonempty by (simp add: groupByEpic_def same groupFor_def)
  have sentinel: "\<not> isArrayIndex ''NO_EPIC''"
    by (simp add: isArrayIndex_def isDigit_def)
  have "\<not> isArrayIndex k" if "k \<in> set (epicKeysInOrder found)" for k
  proof -
    from that obtain i where "i \<in> set found" "groupKey i = k"
      by (auto simp: set_epicKeysInOrder)
    with assms(2) show ?thesis by blast
  qed
  with sentinel have noidx: "\<forall>kv\<in>set (?noEpic # ?others). \<not> isArrayIndex (fst kv)"
    by auto
  then have e1: "objectEntries (?noEpic # ?others) = ?noEpic # ?others"
    by (rule objectEntries_no_index)
  from noidx have "\<forall>kv\<in>set ?others. \<not> isArrayIndex (fst kv)" by simp
  then have e2: "objectEntries ?others = ?others" by (rule objectEntries_no_index)
  have cmds: "generateSlackCommands baseUrl (?noEpic # ?others) =
        concat (map (commandLine baseUrl) (filter ?noParent found))
        @ [CHR 0x0A] @ generateSlackCommands baseUrl ?others"
    by (simp add: generateSlackCommands_concat e1 e2 groupText_def)
  have inOthers: "parent (JiraIssue.fields' i) \<noteq> None"
    if kg: "(k, g) \<in> set ?others" and i: "i \<in> set (issues g)" for k g i
  proof -
    from kg have k: "k \<in> set (epicKeysInOrder found)" and g: "g = groupFor found k" by auto
    from k have ne: "k \<noteq> ''NO_EPIC''" by (simp add: set_epicKeysInOrder)
    from i g have "i \<in> set found" "groupKey i = k" by (auto simp: groupFor_def)
    with groupKey_unreserved(2) [OF assms(1), of i] ne show ?thesis by simp
  qed
  then have parented:
    "\<forall>(k, g)\<in>set ?others. \<forall>i\<in>set (issues g). parent (JiraIssue.fields' i) \<noteq> None"
    by blast
  have o: "organizeIssuesByEpic found = Inr (?noEpic # ?others)"
    using r g by simp
  show ?thesis
    by (rule exI [of _ ?noEpic], rule exI [of _ ?others]) (intro conjI refl o e1 cmds parented)
qed

text \<open>The definitions to unfold when the grouper runs on the example tickets.\<close>

lemmas grouper_eval =
  organizeIssuesByEpic_def organizeIssue_def pushIssue_def getProperty_def updateProperty_def
  deleteProperty_def objectPrototypeKeys_def Let_def

lemmas ticket_eval =
  ticket_def epic_def ticketT1_def ticketT2_def ticketT3_def ticketT4_def ticketT5_def

theorem organizeIssuesByEpic_partition_witness:
  "parentKeysUnreserved [ticketT1, ticketT2]
   \<and> organizeIssuesByEpic [ticketT1, ticketT2] =
        Inr [(''NO_EPIC'', \<lparr>epicName = ''Tasks without Epic'', issues = [ticketT2]\<rparr>),
             (''EPIC-1'', \<lparr>epicName = ''Login'', issues = [ticketT1]\<rparr>)]
   \<and> groupKey ticketT1 = ''EPIC-1'' \<and> groupKey ticketT2 = ''NO_EPIC''"
proof -
  have h: "parentKeysUnreserved [ticketT1, ticketT2]"
    by (simp add: parentKeysUnreserved_def epicKeyOf_def objectPrototypeKeys_def ticket_eval)
  have "organizeIssuesByEpic [ticketT1, ticketT2] =
        Inr [(''NO_EPIC'', \<lparr>epicName = ''Tasks without Epic'', issues = [ticketT2]\<rparr>),
             (''EPIC-1'', \<lparr>epicName = ''Login'', issues = [ticketT1]\<rparr>)]"
    by (simp add: grouper_eval ticket_eval)
  with organizeIssuesByEpic_partition [OF h] h show ?thesis
    by (simp add: groupKey_def ticket_eval)
qed

text \<open>
  The claim as it stands fails: the only ticket has a parent, whose key is the sentinel
  key, and the sentinel group is present.
\<close>

theorem organizeIssuesByEpic_sentinel_counterexample:
  "organizeIssuesByEpic [ticketT4] =
     Inr [(''NO_EPIC'', \<lparr>epicName = ''Tasks without Epic'', issues = [ticketT4]\<rparr>)]
   \<and> parent (JiraIssue.fields' ticketT4) = Some (epic ''NO_EPIC'' ''Platform'')"
  by (simp add: grouper_eval ticket_eval)

theorem organizeIssuesByEpic_first_name_wins_witness:
  "parentKeysUnreserved [ticketT1, ticketT3]
   \<and> parentSummary ticketT1 = ''Login'' \<and> parentSummary ticketT3 = ''Sign-in''
   \<and> epicKeyOf ticketT1 = Some ''EPIC-1'' \<and> epicKeyOf ticketT3 = Some ''EPIC-1''
   \<and> organizeIssuesByEpic [ticketT1, ticketT3] =
        Inr [(''EPIC-1'', \<lparr>epicName = ''Login'', issues = [ticketT1, ticketT3]\<rparr>)]"
proof -
  have h: "parentKeysUnreserved [ticketT1, ticketT3]"
    by (simp add: parentKeysUnreserved_def epicKeyOf_def objectPrototypeKeys_def ticket_eval)
  have k: "epicKeyOf ticketT1 = Some ''EPIC-1''" "epicKeyOf ticketT3 = Some ''EPIC-1''"
    by (simp_all add: epicKeyOf_def ticket_eval)
  have s: "parentSummary ticketT1 = ''Login''" "parentSummary ticketT3 = ''Sign-in''"
    by (simp_all add: parentSummary_def ticket_eval)
  have f: "find (\<lambda>j. epicKeyOf j = Some ''EPIC-1'') [ticketT1, ticketT3] = Some ticketT1"
    "filter (\<lambda>j. epicKeyOf j = Some ''EPIC-1'') [ticketT1, ticketT3] = [ticketT1, ticketT3]"
    by (simp_all add: k)
  from organizeIssuesByEpic_first_name_wins [OF h] obtain epicGroups where
    r: "organizeIssuesByEpic [ticketT1, ticketT3] = Inr epicGroups"
    and d: "distinct (map fst epicGroups)"
    and p: "\<forall>i\<in>set [ticketT1, ticketT3]. \<forall>k. epicKeyOf i = Some k \<longrightarrow>
          (\<exists>g first. (k, g) \<in> set epicGroups
              \<and> find (\<lambda>j. epicKeyOf j = Some k) [ticketT1, ticketT3] = Some first
              \<and> epicName g = parentSummary first
              \<and> issues g = filter (\<lambda>j. epicKeyOf j = Some k) [ticketT1, ticketT3]
              \<and> i \<in> set (issues g))"
    by blast
  from p k(2) obtain g first where g: "(''EPIC-1'', g) \<in> set epicGroups"
    "find (\<lambda>j. epicKeyOf j = Some ''EPIC-1'') [ticketT1, ticketT3] = Some first"
    "epicName g = parentSummary first"
    "issues g = filter (\<lambda>j. epicKeyOf j = Some ''EPIC-1'') [ticketT1, ticketT3]"
    by force
  from g f s have "epicName g = ''Login''" "issues g = [ticketT1, ticketT3]" by simp_all
  then have named: "g = \<lparr>epicName = ''Login'', issues = [ticketT1, ticketT3]\<rparr>" by simp
  have "organizeIssuesByEpic [ticketT1, ticketT3] =
        Inr [(''EPIC-1'', \<lparr>epicName = ''Login'', issues = [ticketT1, ticketT3]\<rparr>)]"
    by (simp add: grouper_eval ticket_eval)
  with h s k show ?thesis by simp
qed

text \<open>
  The claim as it stands fails: the first ticket refers to an epic with the sentinel key
  and carries the name Platform for it, and the name bound to the key is that of the
  sentinel group.
\<close>

theorem organizeIssuesByEpic_sentinel_name_counterexample:
  "epicKeyOf ticketT4 = Some ''NO_EPIC'' \<and> parentSummary ticketT4 = ''Platform''
   \<and> organizeIssuesByEpic [ticketT4, ticketT2] =
       Inr [(''NO_EPIC'', \<lparr>epicName = ''Tasks without Epic'', issues = [ticketT4, ticketT2]\<rparr>)]"
  by (simp add: grouper_eval ticket_eval epicKeyOf_def parentSummary_def)

theorem generateSlackCommands_lines_witness:
  "objectEntries [(''NO_EPIC'', \<lparr>epicName = ''Tasks without Epic'', issues = [ticketT2]\<rparr>),
                  (''EPIC-1'', \<lparr>epicName = ''Login'', issues = [ticketT1, ticketT3]\<rparr>)] =
     [(''NO_EPIC'', \<lparr>epicName = ''Tasks without Epic'', issues = [ticketT2]\<rparr>),
      (''EPIC-1'', \<lparr>epicName = ''Login'', issues = [ticketT1, ticketT3]\<rparr>)]
   \<and> generateSlackCommands ''https://x.atlassian.net''
        [(''NO_EPIC'', \<lparr>epicName = ''Tasks without Epic'', issues = [ticketT2]\<rparr>),
         (''EPIC-1'', \<lparr>epicName = ''Login'', issues = [ticketT1, ticketT3]\<rparr>)] =
      ''/pp https://x.atlassian.net/browse/T-2 Write docs'' @ [CHR 0x0A] @ [CHR 0x0A]
      @ ''/pp https://x.atlassian.net/browse/T-1 Fix bug'' @ [CHR 0x0A]
      @ ''/pp https://x.atlassian.net/browse/T-3 Add logout'' @ [CHR 0x0A] @ [CHR 0x0A]"
proof -
  let ?g = "[(''NO_EPIC'', \<lparr>epicName = ''Tasks without Epic'', issues = [ticketT2]\<rparr>),
             (''EPIC-1'', \<lparr>epicName = ''Login'', issues = [ticketT1, ticketT3]\<rparr>)]"
  have n: "\<forall>kv\<in>set ?g. \<not> isArrayIndex (fst kv)"
    by (simp add: isArrayIndex_def isDigit_def)
  note t = generateSlackCommands_lines [of "''https://x.atlassian.net''" ?g]
  note c = t [THEN conjunct1]
  note e = t [THEN conjunct2, THEN conjunct2, THEN conjunct1, THEN mp, OF n]
  show ?thesis
    unfolding c e by (simp add: commandLine_def ticket_eval)
qed

text \<open>
  The claim as it stands fails: the grouper inserts the group EPIC-1 before the group 7,
  and the formatter emits the line of the group 7 first.
\<close>

theorem generateSlackCommands_insertion_order_counterexample:
  "organizeIssuesByEpic [ticketT1, ticketT5] =
     Inr [(''EPIC-1'', \<lparr>epicName = ''Login'', issues = [ticketT1]\<rparr>),
          (''7'', \<lparr>epicName = ''Numbers'', issues = [ticketT5]\<rparr>)]
   \<and> generateSlackCommands ''https://x.atlassian.net''
        [(''EPIC-1'', \<lparr>epicName = ''Login'', issues = [ticketT1]\<rparr>),
         (''7'', \<lparr>epicName = ''Numbers'', issues = [ticketT5]\<rparr>)] =
       ''/pp https://x.atlassian.net/browse/T-5 Count to seven'' @ [CHR 0x0A] @ [CHR 0x0A]
       @ ''/pp https://x.atlassian.net/browse/T-1 Fix bug'' @ [CHR 0x0A] @ [CHR 0x0A]
   \<and> generateSlackCommands ''https://x.atlassian.net''
        [(''EPIC-1'', \<lparr>epicName = ''Login'', issues = [ticketT1]\<rparr>),
         (''7'', \<lparr>epicName = ''Numbers'', issues = [ticketT5]\<rparr>)] \<noteq>
       ''/pp https://x.atlassian.net/browse/T-1 Fix bug'' @ [CHR 0x0A] @ [CHR 0x0A]
       @ ''/pp https://x.atlassian.net/browse/T-5 Count to seven'' @ [CHR 0x0A] @ [CHR 0x0A]"
proof -
  have i7: "isArrayIndex ''7''" and ne: "\<not> isArrayIndex ''EPIC-1''"
    by (simp_all add: isArrayIndex_def isDigit_def decimalValue_def)
  have e: "objectEntries [(''EPIC-1'', \<lparr>epicName = ''Login'', issues = [ticketT1]\<rparr>),
         (''7'', \<lparr>epicName = ''Numbers'', issues = [ticketT5]\<rparr>)] =
       [(''7'', \<lparr>epicName = ''Numbers'', issues = [ticketT5]\<rparr>),
        (''EPIC-1'', \<lparr>epicName = ''Login'', issues = [ticketT1]\<rparr>)]"
    by (simp add: objectEntries_def i7 ne)
  have o: "organizeIssuesByEpic [ticketT1, ticketT5] =
     Inr [(''EPIC-1'', \<lparr>epicName = ''Login'', issues = [ticketT1]\<rparr>),
          (''7'', \<lparr>epicName = ''Numbers'', issues = [ticketT5]\<rparr>)]"
    by (simp add: grouper_eval ticket_eval)
  have c: "generateSlackCommands ''https://x.atlassian.net''
        [(''EPIC-1'', \<lparr>epicName = ''Login'', issues = [ticketT1]\<rparr>),
         (''7'', \<lparr>epicName = ''Numbers'', issues = [ticketT5]\<rparr>)] =
       ''/pp https://x.atlassian.net/browse/T-5 Count to seven'' @ [CHR 0x0A] @ [CHR 0x0A]
       @ ''/pp https://x.atlassian.net/browse/T-1 Fix bug'' @ [CHR 0x0A] @ [CHR 0x0A]"
    unfolding generateSlackCommands_concat e
    by (simp add: groupText_def commandLine_def ticket_eval)
  show ?thesis unfolding c using o by simp
qed

theorem organizeIssuesByEpic_sentinel_first_witness:
  "parentKeysUnreserved [ticketT1, ticketT2]
   \<and> \<not> isArrayIndex (groupKey ticketT1) \<and> \<not> isArrayIndex (groupKey ticketT2)
   \<and> parent (JiraIssue.fields' ticketT2) = None
   \<and> organizeIssuesByEpic [ticketT1, ticketT2] =
        Inr [(''NO_EPIC'', \<lparr>epicName = ''Tasks without Epic'', issues = [ticketT2]\<rparr>),
             (''EPIC-1'', \<lparr>epicName = ''Login'', issues = [ticketT1]\<rparr>)]
   \<and> generateSlackCommands ''https://x.atlassian.net''
        [(''NO_EPIC'', \<lparr>epicName = ''Tasks without Epic'', issues = [ticketT2]\<rparr>),
         (''EPIC-1'', \<lparr>epicName = ''Login'', issues = [ticketT1]\<rparr>)] =
      ''/pp https://x.atlassian.net/browse/T-2 Write docs'' @ [CHR 0x0A] @ [CHR 0x0A]
      @ generateSlackCommands ''https://x.atlassian.net''
          [(''EPIC-1'', \<lparr>epicName = ''Login'', issues = [ticketT1]\<rparr>)]"
proof -
  have h: "parentKeysUnreserved [ticketT1, ticketT2]"
    by (simp add: parentKeysUnreserved_def epicKeyOf_def objectPrototypeKeys_def ticket_eval)
  have k: "groupKey ticketT1 = ''EPIC-1''" "groupKey ticketT2 = ''NO_EPIC''"
    by (simp_all add: groupKey_def ticket_eval)
  have n: "\<forall>i\<in>set [ticketT1, ticketT2]. \<not> isArrayIndex (groupKey i)"
    by (simp add: k isArrayIndex_def isDigit_def)
  have p: "parent (JiraIssue.fields' ticketT2) = None" by (simp add: ticket_eval)
  then have u: "\<exists>i\<in>set [ticketT1, ticketT2]. parent (JiraIssue.fields' i) = None" by simp
  have o: "organizeIssuesByEpic [ticketT1, ticketT2] =
        Inr [(''NO_EPIC'', \<lparr>epicName = ''Tasks without Epic'', issues = [ticketT2]\<rparr>),
             (''EPIC-1'', \<lparr>epicName = ''Login'', issues = [ticketT1]\<rparr>)]"
    by (simp add: grouper_eval ticket_eval)
  from organizeIssuesByEpic_sentinel_first [OF h n u, of "''https://x.atlassian.net''"]
  obtain noEpic others where
    "noEpic = (''NO_EPIC'', \<lparr>epicName = ''Tasks without Epic'',
                  issues = filter (\<lambda>i. parent (JiraIssue.fields' i) = None) [ticketT1, ticketT2]\<rparr>)"
    "organizeIssuesByEpic [ticketT1, ticketT2] = Inr (noEpic # others)"
    "generateSlackCommands ''https://x.atlassian.net'' (noEpic # others) =
        concat (map (commandLine ''https://x.atlassian.net'')
                  (filter (\<lambda>i. parent (JiraIssue.fields' i) = None) [ticketT1, ticketT2]))
        @ [CHR 0x0A] @ generateSlackCommands ''https://x.atlassian.net'' others"
    by blast
  with o have "generateSlackCommands ''https://x.atlassian.net''
        [(''NO_EPIC'', \<lparr>epicName = ''Tasks without Epic'', issues = [ticketT2]\<rparr>),
         (''EPIC-1'', \<lparr>epicName = ''Login'', issues = [ticketT1]\<rparr>)] =
      concat (map (commandLine ''https://x.atlassian.net'')
                  (filter (\<lambda>i. parent (JiraIssue.fields' i) = None) [ticketT1, ticketT2]))
        @ [CHR 0x0A] @ generateSlackCommands ''https://x.atlassian.net''
          [(''EPIC-1'', \<lparr>epicName = ''Login'', issues = [ticketT1]\<rparr>)]"
    by simp
  then have "generateSlackCommands ''https://x.atlassian.net''
        [(''NO_EPIC'', \<lparr>epicName = ''Tasks without Epic'', issues = [ticketT2]\<rparr>),
         (''EPIC-1'', \<lparr>epicName = ''Login'', issues = [ticketT1]\<rparr>)] =
      ''/pp https://x.atlassian.net/browse/T-2 Write docs'' @ [CHR 0x0A] @ [CHR 0x0A]
      @ generateSlackCommands ''https://x.atlassian.net''
          [(''EPIC-1'', \<lparr>epicName = ''Login'', issues = [ticketT1]\<rparr>)]"
    by (simp add: commandLine_def ticket_eval)
  with h k n p o show ?thesis by simp
qed

text \<open>
  The claim as it stands fails: an epic key that is an array index, here 7, is iterated
  before the sentinel key although it was created later, and the line of its ticket
  comes first.
\<close>

theorem organizeIssuesByEpic_index_key_counterexample:
  "parent (JiraIssue.fields' ticketT2) = None
   \<and> organizeIssuesByEpic [ticketT5, ticketT2] =
       Inr [(''NO_EPIC'', \<lparr>epicName = ''Tasks without Epic'', issues = [ticketT2]\<rparr>),
            (''7'', \<lparr>epicName = ''Numbers'', issues = [ticketT5]\<rparr>)]
   \<and> objectEntries [(''NO_EPIC'', \<lparr>epicName = ''Tasks without Epic'', issues = [ticketT2]\<rparr>),
                     (''7'', \<lparr>epicName = ''Numbers'', issues = [ticketT5]\<rparr>)] =
       [(''7'', \<lparr>epicName = ''Numbers'', issues = [ticketT5]\<rparr>),
        (''NO_EPIC'', \<lparr>epicName = ''Tasks without Epic'', issues = [ticketT2]\<rparr>)]
   \<and> generateSlackCommands ''https://x.atlassian.net''
        [(''NO_EPIC'', \<lparr>epicName = ''Tasks without Epic'', issues = [ticketT2]\<rparr>),
         (''7'', \<lparr>epicName = ''Numbers'', issues = [ticketT5]\<rparr>)] =
       ''/pp https://x.atlassian.net/browse/T-5 Count to seven'' @ [CHR 0x0A] @ [CHR 0x0A]
       @ ''/pp https://x.atlassian.net/browse/T-2 Write docs'' @ [CHR 0x0A] @ [CHR 0x0A]"
proof -
  have i7: "isArrayIndex ''7''" and ns: "\<not> isArrayIndex ''NO_EPIC''"
    by (simp_all add: isArrayIndex_def isDigit_def decimalValue_def)
  have e: "objectEntries [(''NO_EPIC'', \<lparr>epicName = ''Tasks without Epic'', issues = [ticketT2]\<rparr>),
                     (''7'', \<lparr>epicName = ''Numbers'', issues = [ticketT5]\<rparr>)] =
       [(''7'', \<lparr>epicName = ''Numbers'', issues = [ticketT5]\<rparr>),
        (''NO_EPIC'', \<lparr>epicName = ''Tasks without Epic'', issues = [ticketT2]\<rparr>)]"
    by (simp add: objectEntries_def i7 ns)
  have o: "organizeIssuesByEpic [ticketT5, ticketT2] =
       Inr [(''NO_EPIC'', \<lparr>epicName = ''Tasks without Epic'', issues = [ticketT2]\<rparr>),
            (''7'', \<lparr>epicName = ''Numbers'', issues = [ticketT5]\<rparr>)]"
    by (simp add: grouper_eval ticket_eval)
  have c: "generateSlackCommands ''https://x.atlassian.net''
        [(''NO_EPIC'', \<lparr>epicName = ''Tasks without Epic'', issues = [ticketT2]\<rparr>),
         (''7'', \<lparr>epicName = ''Numbers'', issues = [ticketT5]\<rparr>)] =
       ''/pp https://x.atlassian.net/browse/T-5 Count to seven'' @ [CHR 0x0A] @ [CHR 0x0A]
       @ ''/pp https://x.atlassian.net/browse/T-2 Write docs'' @ [CHR 0x0A] @ [CHR 0x0A]"
    unfolding generateSlackCommands_concat e
    by (simp add: groupText_def commandLine_def ticket_eval)
  have "parent (JiraIssue.fields' ticketT2) = None" by (simp add: ticket_eval)
  with o e c show ?thesis by simp
qed

section \<open>Properties of the run\<close>

lemma mainTry_ticket:
  assumes "ticketArgument w = Some ticketKey" and "ticketKey \<noteq> []"
  shows "\<exists>out fs e. mainTry w = Some (out, fs, e) \<and> (out \<noteq> [] \<or> e \<noteq> None)
    \<and> (fs = files w \<or>
        (\<exists>cmds. fs = (files w)(''slack-commands.md'' \<mapsto> cmds) \<and> Printed cmds \<in> set out))"
proof -
  from assms obtain c cs where k: "ticketKey = c # cs" by (cases ticketKey) auto
  show ?thesis
    using assms(1) unfolding k mainTry_def
    by (auto simp: Let_def split: prod.splits option.splits sum.splits)
qed

lemma mainTry_board:
  assumes "\<not> ticketMode w"
  shows \<open>mainTry w =
     (case getNextSprint (sprintApi w) (clock w) (envOrEmpty w ''JIRA_BOARD_ID'') of
        None \<Rightarrow> None
      | Some (nextSprint, out1) \<Rightarrow>
         (case nextSprint of
            None \<Rightarrow> Some (out1 @ [ErrorLine ''No future sprint found.'' None], files w, None)
          | Some sp \<Rightarrow>
             (let (found, out2) =
                    getReadyToSizeIssuesFromSprint (searchApi w) (JNum (Sprint.id' sp))
              in if length found = 0
                 then Some (out1 @ out2 @
                        [Printed ''No issues with "Ready to Size" status found in the next sprint.''],
                        files w, None)
                 else
                   (case organizeIssuesByEpic found of
                      Inl e \<Rightarrow> Some (out1 @ out2, files w, Some e)
                    | Inr epicGroups \<Rightarrow>
                       Some (out1 @ out2 @
                             [Printed (generateSlackCommands (envOrEmpty w ''JIRA_BASE_URL'')
                                epicGroups)],
                             files w, None)))))\<close>
  using assms unfolding mainTry_def ticketMode_def
  by (simp split: option.splits list.splits)

lemma mainTry_board_result:
  assumes "\<not> ticketMode w" and "mainTry w = Some (out, fs, e)"
  shows "fs = files w \<and> (out \<noteq> [] \<or> e \<noteq> None)"
  using assms(2) unfolding mainTry_board [OF assms(1)]
  by (auto simp: Let_def split: prod.splits option.splits sum.splits if_splits)

lemma mainTry_board_None:
  assumes "\<not> ticketMode w"
  shows "mainTry w = None \<longleftrightarrow>
      getAllSprints (sprintApi w) (clock w) (envOrEmpty w ''JIRA_BOARD_ID'') = None"
  unfolding mainTry_board [OF assms] getNextSprint_def
  by (auto simp: Let_def split: prod.splits option.splits sum.splits if_splits)

lemma ticketMode_argument:
  "ticketMode w \<longleftrightarrow> (\<exists>ticketKey. ticketArgument w = Some ticketKey \<and> ticketKey \<noteq> [])"
  by (auto simp: ticketMode_def split: option.splits list.splits)

lemma main_result:
  "main w = Some (out, fs) \<Longrightarrow> \<exists>out' e. mainTry w = Some (out', fs, e) \<and>
      out = out' @ (case e of None \<Rightarrow> [] | Some x \<Rightarrow> [ErrorLine ''An error occurred:'' (Some x)])"
  by (auto simp: main_def split: option.splits prod.splits)

lemma main_None: "main w = None \<longleftrightarrow> mainTry w = None"
  by (auto simp: main_def split: option.splits prod.splits)

text \<open>
  The two functions that catch their own errors, the block of \<^verbatim>\<open>main\<close> in ticket mode, and
  the outcome of the run on each path on which something fails.
\<close>

lemma search_result:
  "getReadyToSizeIssuesFromSprint get sprintId =
     (case get sprintId of
        Inl e \<Rightarrow> ([], [ErrorLine ''Error fetching issues:'' (Some e)])
      | Inr x \<Rightarrow> (responseIssues x, []))"
  by (simp add: getReadyToSizeIssuesFromSprint_def responseIssues_def split: sum.splits option.splits)

lemma agile_result:
  "getSprintFromAgileAPI get ticketKey =
     (case (case get ticketKey of Inl e \<Rightarrow> Inl e | Inr d \<Rightarrow> sprintFromData d) of
        Inl e \<Rightarrow>
          (None,
           [ErrorLine (''Error getting sprint from Agile API for ticket '' @ ticketKey @ '':'')
              (Some e)])
      | Inr r \<Rightarrow> (r, []))"
  by (simp add: getSprintFromAgileAPI_def)

lemma mainTry_ticket_eq:
  assumes "ticketArgument w = Some ticketKey" and "ticketKey \<noteq> []"
  shows \<open>mainTry w =
     (let (sprint, out1) = getSprintFromAgileAPI (agileApi w) ticketKey
      in case sprint of
           None \<Rightarrow>
             Some (out1 @ [ErrorLine (''No sprint found for ticket '' @ ticketKey @ ''.'') None],
                   files w, None)
         | Some sp \<Rightarrow>
            (case getProp sp ''id'' of
               Inl e \<Rightarrow> Some (out1, files w, Some e)
             | Inr sprintId \<Rightarrow>
                (let (found, out2) = getReadyToSizeIssuesFromSprint (searchApi w) sprintId
                 in if length found = 0
                    then Some (out1 @ out2 @
                           [Printed ''No issues with "Ready to Size" status found in the sprint.''],
                           files w, None)
                    else
                      (case organizeIssuesByEpic found of
                         Inl e \<Rightarrow> Some (out1 @ out2, files w, Some e)
                       | Inr epicGroups \<Rightarrow>
                          (let slackCommands =
                                 generateSlackCommands (envOrEmpty w ''JIRA_BASE_URL'') epicGroups;
                               out3 = out1 @ out2 @ [Printed slackCommands]
                           in if writable w ''slack-commands.md''
                              then Some (out3, (files w)(''slack-commands.md'' \<mapsto> slackCommands),
                                         None)
                              else Some (out3, files w, Some WriteFailed))))))\<close>
proof -
  from assms obtain c cs where k: "ticketKey = c # cs" by (cases ticketKey) auto
  show ?thesis using assms(1) unfolding k mainTry_def by (simp add: Let_def)
qed

lemma program_configured:
  "\<not> configMissing w \<Longrightarrow> mainTry w = Some (out, fs, e) \<Longrightarrow>
   program w = Some \<lparr>exitCode = 0,
     console = out @ (case e of None \<Rightarrow> [] | Some x \<Rightarrow> [ErrorLine ''An error occurred:'' (Some x)]),
     filesAfter = fs\<rparr>"
  by (cases e) (simp_all add: program_def main_def)

lemma program_None_iff:
  "program w = None \<longleftrightarrow>
     \<not> configMissing w \<and> \<not> ticketMode w \<and>
     (\<forall>n. \<not> listingStops (sprintApi w) (envOrEmpty w ''JIRA_BOARD_ID'') n)"
proof (cases "ticketMode w")
  case True
  then obtain k where "ticketArgument w = Some k" "k \<noteq> []" by (auto simp: ticketMode_argument)
  from mainTry_ticket [OF this] have "mainTry w \<noteq> None" by auto
  then have "main w \<noteq> None" by (simp add: main_None)
  with True show ?thesis by (auto simp: program_def split: option.splits)
next
  case False
  from mainTry_board_None [OF this]
  have "main w = None \<longleftrightarrow>
      getAllSprints (sprintApi w) (clock w) (envOrEmpty w ''JIRA_BOARD_ID'') = None"
    by (simp only: main_None)
  also have "\<dots> \<longleftrightarrow> (\<forall>n. \<not> listingStops (sprintApi w) (envOrEmpty w ''JIRA_BOARD_ID'') n)"
    using listing_returns_iff [of "sprintApi w" "clock w" "envOrEmpty w ''JIRA_BOARD_ID''"] by blast
  finally show ?thesis using False
    by (cases "main w") (auto simp: program_def)
qed

lemma ticket_paths:
  assumes cfg: "\<not> configMissing w" and arg: "ticketArgument w = Some ticketKey" "ticketKey \<noteq> []"
  shows \<open>agileApi w ticketKey = Inl e \<or> (agileApi w ticketKey = Inr d \<and> sprintFromData d = Inl e) \<Longrightarrow>
      program w =
        Some \<lparr>exitCode = 0,
              console =
                [ErrorLine (''Error getting sprint from Agile API for ticket '' @ ticketKey @ '':'')
                   (Some e),
                 ErrorLine (''No sprint found for ticket '' @ ticketKey @ ''.'') None],
              filesAfter = files w\<rparr>\<close>
    and \<open>agileApi w ticketKey = Inr d \<and> sprintFromData d = Inr None \<Longrightarrow>
      program w =
        Some \<lparr>exitCode = 0,
              console = [ErrorLine (''No sprint found for ticket '' @ ticketKey @ ''.'') None],
              filesAfter = files w\<rparr>\<close>
    and \<open>agileApi w ticketKey = Inr d \<and> sprintFromData d = Inr (Some sp) \<and>
         getProp sp ''id'' = Inr sprintId \<and> searchApi w sprintId = Inl e \<Longrightarrow>
      program w =
        Some \<lparr>exitCode = 0,
              console =
                [ErrorLine ''Error fetching issues:'' (Some e),
                 Printed ''No issues with "Ready to Size" status found in the sprint.''],
              filesAfter = files w\<rparr>\<close>
    and \<open>agileApi w ticketKey = Inr d \<and> sprintFromData d = Inr (Some sp) \<and>
         getProp sp ''id'' = Inr sprintId \<and> searchApi w sprintId = Inr x \<and>
         responseIssues x = [] \<Longrightarrow>
      program w =
        Some \<lparr>exitCode = 0,
              console = [Printed ''No issues with "Ready to Size" status found in the sprint.''],
              filesAfter = files w\<rparr>\<close>
    and \<open>agileApi w ticketKey = Inr d \<and> sprintFromData d = Inr (Some sp) \<and>
         getProp sp ''id'' = Inr sprintId \<and> searchApi w sprintId = Inr x \<and>
         responseIssues x \<noteq> [] \<and> organizeIssuesByEpic (responseIssues x) = Inl e \<Longrightarrow>
      program w =
        Some \<lparr>exitCode = 0,
              console = [ErrorLine ''An error occurred:'' (Some e)],
              filesAfter = files w\<rparr>\<close>
    and \<open>agileApi w ticketKey = Inr d \<and> sprintFromData d = Inr (Some sp) \<and>
         getProp sp ''id'' = Inr sprintId \<and> searchApi w sprintId = Inr x \<and>
         responseIssues x \<noteq> [] \<and> organizeIssuesByEpic (responseIssues x) = Inr epicGroups \<and>
         \<not> writable w ''slack-commands.md'' \<Longrightarrow>
      program w =
        Some \<lparr>exitCode = 0,
              console =
                [Printed (generateSlackCommands (envOrEmpty w ''JIRA_BASE_URL'') epicGroups),
                 ErrorLine ''An error occurred:'' (Some WriteFailed)],
              filesAfter = files w\<rparr>\<close>
proof -
  note m = mainTry_ticket_eq [OF arg]
  show \<open>agileApi w ticketKey = Inl e \<or> (agileApi w ticketKey = Inr d \<and> sprintFromData d = Inl e) \<Longrightarrow>
      program w =
        Some \<lparr>exitCode = 0,
              console =
                [ErrorLine (''Error getting sprint from Agile API for ticket '' @ ticketKey @ '':'')
                   (Some e),
                 ErrorLine (''No sprint found for ticket '' @ ticketKey @ ''.'') None],
              filesAfter = files w\<rparr>\<close>
  proof -
    assume "agileApi w ticketKey = Inl e \<or> (agileApi w ticketKey = Inr d \<and> sprintFromData d = Inl e)"
    then have "mainTry w =
        Some ([ErrorLine (''Error getting sprint from Agile API for ticket '' @ ticketKey @ '':'')
                   (Some e),
               ErrorLine (''No sprint found for ticket '' @ ticketKey @ ''.'') None], files w, None)"
      unfolding m agile_result by auto
    from program_configured [OF cfg this] show ?thesis by simp
  qed
  show \<open>agileApi w ticketKey = Inr d \<and> sprintFromData d = Inr None \<Longrightarrow>
      program w =
        Some \<lparr>exitCode = 0,
              console = [ErrorLine (''No sprint found for ticket '' @ ticketKey @ ''.'') None],
              filesAfter = files w\<rparr>\<close>
  proof -
    assume "agileApi w ticketKey = Inr d \<and> sprintFromData d = Inr None"
    then have "mainTry w =
        Some ([ErrorLine (''No sprint found for ticket '' @ ticketKey @ ''.'') None], files w, None)"
      unfolding m agile_result by auto
    from program_configured [OF cfg this] show ?thesis by simp
  qed
  show \<open>agileApi w ticketKey = Inr d \<and> sprintFromData d = Inr (Some sp) \<and>
         getProp sp ''id'' = Inr sprintId \<and> searchApi w sprintId = Inl e \<Longrightarrow>
      program w =
        Some \<lparr>exitCode = 0,
              console =
                [ErrorLine ''Error fetching issues:'' (Some e),
                 Printed ''No issues with "Ready to Size" status found in the sprint.''],
              filesAfter = files w\<rparr>\<close>
  proof -
    assume "agileApi w ticketKey = Inr d \<and> sprintFromData d = Inr (Some sp) \<and>
         getProp sp ''id'' = Inr sprintId \<and> searchApi w sprintId = Inl e"
    then have \<open>mainTry w =
        Some ([ErrorLine ''Error fetching issues:'' (Some e),
               Printed ''No issues with "Ready to Size" status found in the sprint.''], files w, None)\<close>
      unfolding m agile_result search_result by auto
    from program_configured [OF cfg this] show ?thesis by simp
  qed
  show \<open>agileApi w ticketKey = Inr d \<and> sprintFromData d = Inr (Some sp) \<and>
         getProp sp ''id'' = Inr sprintId \<and> searchApi w sprintId = Inr x \<and>
         responseIssues x = [] \<Longrightarrow>
      program w =
        Some \<lparr>exitCode = 0,
              console = [Printed ''No issues with "Ready to Size" status found in the sprint.''],
              filesAfter = files w\<rparr>\<close>
  proof -
    assume "agileApi w ticketKey = Inr d \<and> sprintFromData d = Inr (Some sp) \<and>
         getProp sp ''id'' = Inr sprintId \<and> searchApi w sprintId = Inr x \<and>
         responseIssues x = []"
    then have \<open>mainTry w =
        Some ([Printed ''No issues with "Ready to Size" status found in the sprint.''], files w, None)\<close>
      unfolding m agile_result search_result by auto
    from program_configured [OF cfg this] show ?thesis by simp
  qed
  show \<open>agileApi w ticketKey = Inr d \<and> sprintFromData d = Inr (Some sp) \<and>
         getProp sp ''id'' = Inr sprintId \<and> searchApi w sprintId = Inr x \<and>
         responseIssues x \<noteq> [] \<and> organizeIssuesByEpic (responseIssues x) = Inl e \<Longrightarrow>
      program w =
        Some \<lparr>exitCode = 0,
              console = [ErrorLine ''An error occurred:'' (Some e)],
              filesAfter = files w\<rparr>\<close>
  proof -
    assume "agileApi w ticketKey = Inr d \<and> sprintFromData d = Inr (Some sp) \<and>
         getProp sp ''id'' = Inr sprintId \<and> searchApi w sprintId = Inr x \<and>
         responseIssues x \<noteq> [] \<and> organizeIssuesByEpic (responseIssues x) = Inl e"
    then have "mainTry w = Some ([], files w, Some e)"
      unfolding m agile_result search_result by auto
    from program_configured [OF cfg this] show ?thesis by simp
  qed
  show \<open>agileApi w ticketKey = Inr d \<and> sprintFromData d = Inr (Some sp) \<and>
         getProp sp ''id'' = Inr sprintId \<and> searchApi w sprintId = Inr x \<and>
         responseIssues x \<noteq> [] \<and> organizeIssuesByEpic (responseIssues x) = Inr epicGroups \<and>
         \<not> writable w ''slack-commands.md'' \<Longrightarrow>
      program w =
        Some \<lparr>exitCode = 0,
              console =
                [Printed (generateSlackCommands (envOrEmpty w ''JIRA_BASE_URL'') epicGroups),
                 ErrorLine ''An error occurred:'' (Some WriteFailed)],
              filesAfter = files w\<rparr>\<close>
  proof -
    assume "agileApi w ticketKey = Inr d \<and> sprintFromData d = Inr (Some sp) \<and>
         getProp sp ''id'' = Inr sprintId \<and> searchApi w sprintId = Inr x \<and>
         responseIssues x \<noteq> [] \<and> organizeIssuesByEpic (responseIssues x) = Inr epicGroups \<and>
         \<not> writable w ''slack-commands.md''"
    then have "mainTry w =
        Some ([Printed (generateSlackCommands (envOrEmpty w ''JIRA_BASE_URL'') epicGroups)],
              files w, Some WriteFailed)"
      unfolding m agile_result search_result by (auto simp: Let_def)
    from program_configured [OF cfg this] show ?thesis by simp
  qed
qed

lemma board_paths:
  assumes cfg: "\<not> configMissing w" and board: "\<not> ticketMode w"
  shows \<open>(\<forall>i<n. morePages (sprintApi w (envOrEmpty w ''JIRA_BOARD_ID'') (50 * i) 50) (50 * i)) \<and>
         length (collected (sprintApi w) (envOrEmpty w ''JIRA_BOARD_ID'') 0 n) < MAX_SPRINTS_TO_FETCH \<and>
         sprintApi w (envOrEmpty w ''JIRA_BOARD_ID'') (50 * n) 50 = Inl e \<Longrightarrow>
      program w =
        Some \<lparr>exitCode = 0,
              console =
                [ErrorLine (''Error fetching sprints for board '' @ envOrEmpty w ''JIRA_BOARD_ID'' @ '':'')
                   (Some e),
                 ErrorLine ''No future sprint found.'' None],
              filesAfter = files w\<rparr>\<close>
    and \<open>sprintApi w (envOrEmpty w ''JIRA_BOARD_ID'') 0 50 = Inr None \<Longrightarrow>
      program w =
        Some \<lparr>exitCode = 0, console = [ErrorLine ''No future sprint found.'' None],
              filesAfter = files w\<rparr>\<close>
    and \<open>getNextSprint (sprintApi w) (clock w) (envOrEmpty w ''JIRA_BOARD_ID'') = Some (None, out1) \<Longrightarrow>
      program w =
        Some \<lparr>exitCode = 0, console = out1 @ [ErrorLine ''No future sprint found.'' None],
              filesAfter = files w\<rparr>\<close>
    and \<open>getNextSprint (sprintApi w) (clock w) (envOrEmpty w ''JIRA_BOARD_ID'') = Some (Some next, out1) \<and>
         searchApi w (JNum (Sprint.id' next)) = Inl e \<Longrightarrow>
      program w =
        Some \<lparr>exitCode = 0,
              console = out1 @
                [ErrorLine ''Error fetching issues:'' (Some e),
                 Printed ''No issues with "Ready to Size" status found in the next sprint.''],
              filesAfter = files w\<rparr>\<close>
    and \<open>getNextSprint (sprintApi w) (clock w) (envOrEmpty w ''JIRA_BOARD_ID'') = Some (Some next, out1) \<and>
         searchApi w (JNum (Sprint.id' next)) = Inr x \<and> responseIssues x = [] \<Longrightarrow>
      program w =
        Some \<lparr>exitCode = 0,
              console = out1 @
                [Printed ''No issues with "Ready to Size" status found in the next sprint.''],
              filesAfter = files w\<rparr>\<close>
    and \<open>getNextSprint (sprintApi w) (clock w) (envOrEmpty w ''JIRA_BOARD_ID'') = Some (Some next, out1) \<and>
         searchApi w (JNum (Sprint.id' next)) = Inr x \<and> responseIssues x \<noteq> [] \<and>
         organizeIssuesByEpic (responseIssues x) = Inl e \<Longrightarrow>
      program w =
        Some \<lparr>exitCode = 0,
              console = out1 @ [ErrorLine ''An error occurred:'' (Some e)],
              filesAfter = files w\<rparr>\<close>
proof -
  note m = mainTry_board [OF board]
  let ?B = "envOrEmpty w ''JIRA_BOARD_ID''"
  show \<open>(\<forall>i<n. morePages (sprintApi w ?B (50 * i) 50) (50 * i)) \<and>
         length (collected (sprintApi w) ?B 0 n) < MAX_SPRINTS_TO_FETCH \<and>
         sprintApi w ?B (50 * n) 50 = Inl e \<Longrightarrow>
      program w =
        Some \<lparr>exitCode = 0,
              console =
                [ErrorLine (''Error fetching sprints for board '' @ ?B @ '':'') (Some e),
                 ErrorLine ''No future sprint found.'' None],
              filesAfter = files w\<rparr>\<close>
  proof -
    assume a: "(\<forall>i<n. morePages (sprintApi w ?B (50 * i) 50) (50 * i)) \<and>
         length (collected (sprintApi w) ?B 0 n) < MAX_SPRINTS_TO_FETCH \<and>
         sprintApi w ?B (50 * n) 50 = Inl e"
    then have "getAllSprints_loop (sprintApi w) ?B [] 0 False = Some (Inl e)"
      by (intro loop_fails [where n = n]) simp_all
    then have "mainTry w =
        Some ([ErrorLine (''Error fetching sprints for board '' @ ?B @ '':'') (Some e),
               ErrorLine ''No future sprint found.'' None], files w, None)"
      unfolding m by (simp add: getNextSprint_def getAllSprints_def selectSprint_def)
    from program_configured [OF cfg this] show ?thesis by simp
  qed
  show \<open>sprintApi w ?B 0 50 = Inr None \<Longrightarrow>
      program w =
        Some \<lparr>exitCode = 0, console = [ErrorLine ''No future sprint found.'' None],
              filesAfter = files w\<rparr>\<close>
  proof -
    assume a: "sprintApi w ?B 0 50 = Inr None"
    then have "\<not> morePages (sprintApi w ?B 0 50) 0" by (simp add: morePages_def)
    then have "getAllSprints_loop (sprintApi w) ?B [] 0 False = Some (Inr [])"
      using a by (subst loop_stops) (simp_all add: MAX_SPRINTS_TO_FETCH_def pageValues_def)
    then have "mainTry w = Some ([ErrorLine ''No future sprint found.'' None], files w, None)"
      unfolding m by (simp add: getNextSprint_def getAllSprints_def selectSprint_def arraySort_def)
    from program_configured [OF cfg this] show ?thesis by simp
  qed
  show \<open>getNextSprint (sprintApi w) (clock w) ?B = Some (None, out1) \<Longrightarrow>
      program w =
        Some \<lparr>exitCode = 0, console = out1 @ [ErrorLine ''No future sprint found.'' None],
              filesAfter = files w\<rparr>\<close>
  proof -
    assume "getNextSprint (sprintApi w) (clock w) ?B = Some (None, out1)"
    then have "mainTry w = Some (out1 @ [ErrorLine ''No future sprint found.'' None], files w, None)"
      unfolding m by simp
    from program_configured [OF cfg this] show ?thesis by simp
  qed
  show \<open>getNextSprint (sprintApi w) (clock w) ?B = Some (Some next, out1) \<and>
         searchApi w (JNum (Sprint.id' next)) = Inl e \<Longrightarrow>
      program w =
        Some \<lparr>exitCode = 0,
              console = out1 @
                [ErrorLine ''Error fetching issues:'' (Some e),
                 Printed ''No issues with "Ready to Size" status found in the next sprint.''],
              filesAfter = files w\<rparr>\<close>
  proof -
    assume "getNextSprint (sprintApi w) (clock w) ?B = Some (Some next, out1) \<and>
         searchApi w (JNum (Sprint.id' next)) = Inl e"
    then have \<open>mainTry w =
        Some (out1 @ [ErrorLine ''Error fetching issues:'' (Some e),
                 Printed ''No issues with "Ready to Size" status found in the next sprint.''],
              files w, None)\<close>
      unfolding m search_result by simp
    from program_configured [OF cfg this] show ?thesis by simp
  qed
  show \<open>getNextSprint (sprintApi w) (clock w) ?B = Some (Some next, out1) \<and>
         searchApi w (JNum (Sprint.id' next)) = Inr x \<and> responseIssues x = [] \<Longrightarrow>
      program w =
        Some \<lparr>exitCode = 0,
              console = out1 @
                [Printed ''No issues with "Ready to Size" status found in the next sprint.''],
              filesAfter = files w\<rparr>\<close>
  proof -
    assume "getNextSprint (sprintApi w) (clock w) ?B = Some (Some next, out1) \<and>
         searchApi w (JNum (Sprint.id' next)) = Inr x \<and> responseIssues x = []"
    then have \<open>mainTry w =
        Some (out1 @ [Printed ''No issues with "Ready to Size" status found in the next sprint.''],
              files w, None)\<close>
      unfolding m search_result by simp
    from program_configured [OF cfg this] show ?thesis by simp
  qed
  show \<open>getNextSprint (sprintApi w) (clock w) ?B = Some (Some next, out1) \<and>
         searchApi w (JNum (Sprint.id' next)) = Inr x \<and> responseIssues x \<noteq> [] \<and>
         organizeIssuesByEpic (responseIssues x) = Inl e \<Longrightarrow>
      program w =
        Some \<lparr>exitCode = 0,
              console = out1 @ [ErrorLine ''An error occurred:'' (Some e)],
              filesAfter = files w\<rparr>\<close>
  proof -
    assume "getNextSprint (sprintApi w) (clock w) ?B = Some (Some next, out1) \<and>
         searchApi w (JNum (Sprint.id' next)) = Inr x \<and> responseIssues x \<noteq> [] \<and>
         organizeIssuesByEpic (responseIssues x) = Inl e"
    then have "mainTry w = Some (out1, files w, Some e)"
      unfolding m search_result by simp
    from program_configured [OF cfg this] show ?thesis by simp
  qed
qed

lemma sprintFromData_id:
  "sprintFromData d = Inr (Some sp) \<Longrightarrow> \<exists>sprintId. getProp sp ''id'' = Inr sprintId"
  by (auto simp: sprintFromData_def getProp_def Let_def split: sum.splits if_splits)

lemma selector_returns_iff:
  "(\<exists>selected out. getNextSprint get T b = Some (selected, out)) \<longleftrightarrow> (\<exists>n. listingStops get b n)"
  using listing_returns_iff [of get T b]
  by (auto simp: getNextSprint_def split: option.splits)

text \<open>
  C7. A run with a configuration value missing logs that the environment variables are
  missing and ends with exit code 1, having done nothing else. Every other run that ends
  has exit code 0 and has logged at least one line, and a run fails to end only in board
  mode, when the sprint listing never stops. With the configuration present, each
  failure ends the run with exit code 0, the files unchanged, and these lines on the
  console. In ticket mode: a rejected or malformed ticket response, the error and that
  no sprint was found; a ticket without sprint, that no sprint was found; a rejected
  search, the error and that no issue was found; a search without issues, that no issue
  was found; an error thrown while grouping, that an error occurred, with the error; a
  failed write, the commands and that an error occurred, with the error. In board mode:
  a rejected page of the listing after any number of pages, the error and that no sprint
  was found; a first response without data, or any listing that leaves nothing to
  select, that no sprint was found; a rejected search, a search without issues, and an
  error thrown while grouping, as in ticket mode. These are all the ways to fail: the
  sprint the ticket endpoint yields always has an identifier to search with, and the
  selector of board mode returns exactly when the listing stops.
\<close>

theorem program_exit_code:
  \<open>(configMissing w \<longrightarrow>
      program w =
        Some \<lparr>exitCode = 1,
              console = [ErrorLine
                ''Missing required environment variables. Please check your .env file.'' None],
              filesAfter = files w\<rparr>)
   \<and> (program w = None \<longleftrightarrow>
        \<not> configMissing w \<and> \<not> ticketMode w \<and>
        (\<forall>n. \<not> listingStops (sprintApi w) (envOrEmpty w ''JIRA_BOARD_ID'') n))
   \<and> (\<forall>r. program w = Some r \<longrightarrow>
         exitCode r = (if configMissing w then 1 else 0) \<and> console r \<noteq> [])
   \<and> (\<not> configMissing w \<and> ticketArgument w = Some ticketKey \<and> ticketKey \<noteq> [] \<longrightarrow>
        (agileApi w ticketKey = Inl e \<or>
           (agileApi w ticketKey = Inr d \<and> sprintFromData d = Inl e) \<longrightarrow>
         program w =
           Some \<lparr>exitCode = 0,
                 console =
                   [ErrorLine (''Error getting sprint from Agile API for ticket '' @ ticketKey @ '':'')
                      (Some e),
                    ErrorLine (''No sprint found for ticket '' @ ticketKey @ ''.'') None],
                 filesAfter = files w\<rparr>)
      \<and> (agileApi w ticketKey = Inr d \<and> sprintFromData d = Inr None \<longrightarrow>
         program w =
           Some \<lparr>exitCode = 0,
                 console = [ErrorLine (''No sprint found for ticket '' @ ticketKey @ ''.'') None],
                 filesAfter = files w\<rparr>)
      \<and> (agileApi w ticketKey = Inr d \<and> sprintFromData d = Inr (Some sp) \<and>
           getProp sp ''id'' = Inr sprintId \<and> searchApi w sprintId = Inl e \<longrightarrow>
         program w =
           Some \<lparr>exitCode = 0,
                 console =
                   [ErrorLine ''Error fetching issues:'' (Some e),
                    Printed ''No issues with "Ready to Size" status found in the sprint.''],
                 filesAfter = files w\<rparr>)
      \<and> (agileApi w ticketKey = Inr d \<and> sprintFromData d = Inr (Some sp) \<and>
           getProp sp ''id'' = Inr sprintId \<and> searchApi w sprintId = Inr x \<and>
           responseIssues x = [] \<longrightarrow>
         program w =
           Some \<lparr>exitCode = 0,
                 console = [Printed ''No issues with "Ready to Size" status found in the sprint.''],
                 filesAfter = files w\<rparr>)
      \<and> (agileApi w ticketKey = Inr d \<and> sprintFromData d = Inr (Some sp) \<and>
           getProp sp ''id'' = Inr sprintId \<and> searchApi w sprintId = Inr x \<and>
           responseIssues x \<noteq> [] \<and> organizeIssuesByEpic (responseIssues x) = Inl e \<longrightarrow>
         program w =
           Some \<lparr>exitCode = 0,
                 console = [ErrorLine ''An error occurred:'' (Some e)],
                 filesAfter = files w\<rparr>)
      \<and> (agileApi w ticketKey = Inr d \<and> sprintFromData d = Inr (Some sp) \<and>
           getProp sp ''id'' = Inr sprintId \<and> searchApi w sprintId = Inr x \<and>
           responseIssues x \<noteq> [] \<and> organizeIssuesByEpic (responseIssues x) = Inr epicGroups \<and>
           \<not> writable w ''slack-commands.md'' \<longrightarrow>
         program w =
           Some \<lparr>exitCode = 0,
                 console =
                   [Printed (generateSlackCommands (envOrEmpty w ''JIRA_BASE_URL'') epicGroups),
                    ErrorLine ''An error occurred:'' (Some WriteFailed)],
                 filesAfter = files w\<rparr>))
   \<and> (\<not> configMissing w \<and> \<not> ticketMode w \<longrightarrow>
        ((\<forall>i<n. morePages (sprintApi w (envOrEmpty w ''JIRA_BOARD_ID'') (50 * i) 50) (50 * i)) \<and>
           length (collected (sprintApi w) (envOrEmpty w ''JIRA_BOARD_ID'') 0 n)
             < MAX_SPRINTS_TO_FETCH \<and>
           sprintApi w (envOrEmpty w ''JIRA_BOARD_ID'') (50 * n) 50 = Inl e \<longrightarrow>
         program w =
           Some \<lparr>exitCode = 0,
                 console =
                   [ErrorLine
                      (''Error fetching sprints for board '' @ envOrEmpty w ''JIRA_BOARD_ID'' @ '':'')
                      (Some e),
                    ErrorLine ''No future sprint found.'' None],
                 filesAfter = files w\<rparr>)
      \<and> (sprintApi w (envOrEmpty w ''JIRA_BOARD_ID'') 0 50 = Inr None \<longrightarrow>
         program w =
           Some \<lparr>exitCode = 0, console = [ErrorLine ''No future sprint found.'' None],
                 filesAfter = files w\<rparr>)
      \<and> (getNextSprint (sprintApi w) (clock w) (envOrEmpty w ''JIRA_BOARD_ID'') = Some (None, out1) \<longrightarrow>
         program w =
           Some \<lparr>exitCode = 0, console = out1 @ [ErrorLine ''No future sprint found.'' None],
                 filesAfter = files w\<rparr>)
      \<and> (getNextSprint (sprintApi w) (clock w) (envOrEmpty w ''JIRA_BOARD_ID'')
             = Some (Some nextSprint, out1) \<and>
           searchApi w (JNum (Sprint.id' nextSprint)) = Inl e \<longrightarrow>
         program w =
           Some \<lparr>exitCode = 0,
                 console = out1 @
                   [ErrorLine ''Error fetching issues:'' (Some e),
                    Printed ''No issues with "Ready to Size" status found in the next sprint.''],
                 filesAfter = files w\<rparr>)
      \<and> (getNextSprint (sprintApi w) (clock w) (envOrEmpty w ''JIRA_BOARD_ID'')
             = Some (Some nextSprint, out1) \<and>
           searchApi w (JNum (Sprint.id' nextSprint)) = Inr x \<and> responseIssues x = [] \<longrightarrow>
         program w =
           Some \<lparr>exitCode = 0,
                 console = out1 @
                   [Printed ''No issues with "Ready to Size" status found in the next sprint.''],
                 filesAfter = files w\<rparr>)
      \<and> (getNextSprint (sprintApi w) (clock w) (envOrEmpty w ''JIRA_BOARD_ID'')
             = Some (Some nextSprint, out1) \<and>
           searchApi w (JNum (Sprint.id' nextSprint)) = Inr x \<and> responseIssues x \<noteq> [] \<and>
           organizeIssuesByEpic (responseIssues x) = Inl e \<longrightarrow>
         program w =
           Some \<lparr>exitCode = 0,
                 console = out1 @ [ErrorLine ''An error occurred:'' (Some e)],
                 filesAfter = files w\<rparr>))
   \<and> (sprintFromData d = Inr (Some sp) \<longrightarrow> (\<exists>sprintId. getProp sp ''id'' = Inr sprintId))
   \<and> ((\<exists>selected out.
          getNextSprint (sprintApi w) (clock w) (envOrEmpty w ''JIRA_BOARD_ID'') = Some (selected, out))
        \<longleftrightarrow> (\<exists>n. listingStops (sprintApi w) (envOrEmpty w ''JIRA_BOARD_ID'') n))\<close>
proof -
  have missing: \<open>configMissing w \<longrightarrow>
      program w =
        Some \<lparr>exitCode = 1,
              console = [ErrorLine
                ''Missing required environment variables. Please check your .env file.'' None],
              filesAfter = files w\<rparr>\<close>
    by (simp add: program_def)
  have endless: "program w = None \<longleftrightarrow>
        \<not> configMissing w \<and> \<not> ticketMode w \<and>
        (\<forall>n. \<not> listingStops (sprintApi w) (envOrEmpty w ''JIRA_BOARD_ID'') n)"
    by (rule program_None_iff)
  have code: "\<forall>r. program w = Some r \<longrightarrow>
         exitCode r = (if configMissing w then 1 else 0) \<and> console r \<noteq> []"
  proof (intro allI impI conjI)
    fix r
    assume r: "program w = Some r"
    show "exitCode r = (if configMissing w then 1 else 0)"
      using r by (auto simp: program_def split: if_splits option.splits)
    show "console r \<noteq> []"
    proof (cases "configMissing w")
      case True
      with r show ?thesis by (auto simp: program_def)
    next
      case False
      with r obtain out fs where m: "main w = Some (out, fs)" and c: "console r = out"
        by (auto simp: program_def split: option.splits)
      from main_result [OF m] obtain out' e where t: "mainTry w = Some (out', fs, e)"
        and o: "out = out' @ (case e of None \<Rightarrow> [] | Some x \<Rightarrow> [ErrorLine ''An error occurred:'' (Some x)])"
        by blast
      have "out' \<noteq> [] \<or> e \<noteq> None"
      proof (cases "ticketMode w")
        case True
        then obtain k where "ticketArgument w = Some k" "k \<noteq> []" by (auto simp: ticketMode_argument)
        from mainTry_ticket [OF this] t show ?thesis by auto
      next
        case False
        from mainTry_board_result [OF this t] show ?thesis by simp
      qed
      with o c show ?thesis by (auto split: option.splits)
    qed
  qed
  have object: "sprintFromData d = Inr (Some sp) \<longrightarrow> (\<exists>sprintId. getProp sp ''id'' = Inr sprintId)"
    using sprintFromData_id by blast
  have selector: "(\<exists>selected out.
          getNextSprint (sprintApi w) (clock w) (envOrEmpty w ''JIRA_BOARD_ID'') = Some (selected, out))
        \<longleftrightarrow> (\<exists>n. listingStops (sprintApi w) (envOrEmpty w ''JIRA_BOARD_ID'') n)"
    by (rule selector_returns_iff)
  show ?thesis
    apply (intro conjI)
          apply (rule missing)
         apply (rule endless)
        apply (rule code)
       apply (intro impI, elim conjE, intro conjI impI; rule ticket_paths; assumption)
      apply (intro impI, elim conjE, intro conjI impI; rule board_paths; assumption)
     apply (rule object)
    apply (rule selector)
    done
qed

text \<open>
  C8. With the configuration present: a run in ticket mode that resolves a sprint, finds
  issues, groups them and can write ends with the rendered commands on the console and
  as the whole content of \<^verbatim>\<open>slack-commands.md\<close>, whatever the file held before; a run in
  board mode that gets as far prints the same commands and leaves the files as they
  were. No run in board mode changes a file, and a run in ticket mode changes at most
  that one file, to commands it has printed.
\<close>

theorem output_file_only_in_ticket_mode:
  assumes "\<not> configMissing w"
  shows
   "(ticketArgument w = Some ticketKey \<and> ticketKey \<noteq> [] \<and>
       getSprintFromAgileAPI (agileApi w) ticketKey = (Some sp, out1) \<and>
       getProp sp ''id'' = Inr sprintId \<and>
       getReadyToSizeIssuesFromSprint (searchApi w) sprintId = (found, out2) \<and> found \<noteq> [] \<and>
       organizeIssuesByEpic found = Inr epicGroups \<and> writable w ''slack-commands.md'' \<longrightarrow>
     program w =
       Some \<lparr>exitCode = 0,
             console = out1 @ out2 @
               [Printed (generateSlackCommands (envOrEmpty w ''JIRA_BASE_URL'') epicGroups)],
             filesAfter = (files w)(''slack-commands.md'' \<mapsto>
               generateSlackCommands (envOrEmpty w ''JIRA_BASE_URL'') epicGroups)\<rparr>)
    \<and> (\<not> ticketMode w \<and>
        getNextSprint (sprintApi w) (clock w) (envOrEmpty w ''JIRA_BOARD_ID'') = Some (Some next, out1) \<and>
        getReadyToSizeIssuesFromSprint (searchApi w) (JNum (Sprint.id' next)) = (found, out2) \<and>
        found \<noteq> [] \<and> organizeIssuesByEpic found = Inr epicGroups \<longrightarrow>
      program w =
        Some \<lparr>exitCode = 0,
              console = out1 @ out2 @
                [Printed (generateSlackCommands (envOrEmpty w ''JIRA_BASE_URL'') epicGroups)],
              filesAfter = files w\<rparr>)
    \<and> (\<forall>r. program w = Some r \<longrightarrow>
          (if ticketMode w
           then filesAfter r = files w \<or>
                (\<exists>cmds. filesAfter r = (files w)(''slack-commands.md'' \<mapsto> cmds) \<and>
                        Printed cmds \<in> set (console r))
           else filesAfter r = files w))"
proof (intro conjI allI impI)
  assume a: "ticketArgument w = Some ticketKey \<and> ticketKey \<noteq> [] \<and>
       getSprintFromAgileAPI (agileApi w) ticketKey = (Some sp, out1) \<and>
       getProp sp ''id'' = Inr sprintId \<and>
       getReadyToSizeIssuesFromSprint (searchApi w) sprintId = (found, out2) \<and> found \<noteq> [] \<and>
       organizeIssuesByEpic found = Inr epicGroups \<and> writable w ''slack-commands.md''"
  then obtain c cs where k: "ticketKey = c # cs" by (cases ticketKey) auto
  from a have "mainTry w =
      Some (out1 @ out2 @ [Printed (generateSlackCommands (envOrEmpty w ''JIRA_BASE_URL'') epicGroups)],
            (files w)(''slack-commands.md'' \<mapsto>
               generateSlackCommands (envOrEmpty w ''JIRA_BASE_URL'') epicGroups), None)"
    unfolding k mainTry_def by (simp add: Let_def)
  with assms show "program w =
       Some \<lparr>exitCode = 0,
             console = out1 @ out2 @
               [Printed (generateSlackCommands (envOrEmpty w ''JIRA_BASE_URL'') epicGroups)],
             filesAfter = (files w)(''slack-commands.md'' \<mapsto>
               generateSlackCommands (envOrEmpty w ''JIRA_BASE_URL'') epicGroups)\<rparr>"
    by (simp add: program_def main_def)
next
  assume a: "\<not> ticketMode w \<and>
        getNextSprint (sprintApi w) (clock w) (envOrEmpty w ''JIRA_BOARD_ID'') = Some (Some next, out1) \<and>
        getReadyToSizeIssuesFromSprint (searchApi w) (JNum (Sprint.id' next)) = (found, out2) \<and>
        found \<noteq> [] \<and> organizeIssuesByEpic found = Inr epicGroups"
  then have nt: "\<not> ticketMode w" by simp
  from a have "mainTry w =
      Some (out1 @ out2 @ [Printed (generateSlackCommands (envOrEmpty w ''JIRA_BASE_URL'') epicGroups)],
            files w, None)"
    unfolding mainTry_board [OF nt] by (simp add: Let_def)
  with assms show "program w =
        Some \<lparr>exitCode = 0,
              console = out1 @ out2 @
                [Printed (generateSlackCommands (envOrEmpty w ''JIRA_BASE_URL'') epicGroups)],
              filesAfter = files w\<rparr>"
    by (simp add: program_def main_def)
next
  fix r
  assume r: "program w = Some r"
  with assms obtain out fs where m: "main w = Some (out, fs)" and c: "console r = out"
      and f: "filesAfter r = fs"
    by (auto simp: program_def split: option.splits)
  from main_result [OF m] obtain out' e where t: "mainTry w = Some (out', fs, e)"
    and o: "out = out' @ (case e of None \<Rightarrow> [] | Some x \<Rightarrow> [ErrorLine ''An error occurred:'' (Some x)])"
    by blast
  show "if ticketMode w
        then filesAfter r = files w \<or>
             (\<exists>cmds. filesAfter r = (files w)(''slack-commands.md'' \<mapsto> cmds) \<and>
                     Printed cmds \<in> set (console r))
        else filesAfter r = files w"
  proof (cases "ticketMode w")
    case True
    then obtain k where "ticketArgument w = Some k" "k \<noteq> []" by (auto simp: ticketMode_argument)
    from mainTry_ticket [OF this] t
    have "fs = files w \<or>
        (\<exists>cmds. fs = (files w)(''slack-commands.md'' \<mapsto> cmds) \<and> Printed cmds \<in> set out')"
      by auto
    with True f c o show ?thesis by auto
  next
    case False
    from mainTry_board_result [OF this t] False f show ?thesis by simp
  qed
qed

lemma exampleWorld_configured: "\<not> configMissing (exampleWorld arguments)"
  by (simp add: configMissing_def envOrEmpty_def exampleWorld_def exampleEnvironment_def)

lemma exampleWorld_env:
  "envOrEmpty (exampleWorld arguments) ''JIRA_BASE_URL'' = ''https://x.atlassian.net''"
  "envOrEmpty (exampleWorld arguments) ''JIRA_BOARD_ID'' = ''42''"
  by (simp_all add: envOrEmpty_def exampleWorld_def exampleEnvironment_def)

lemma example_groups:
  "organizeIssuesByEpic [ticketT1, ticketT2] =
     Inr [(''NO_EPIC'', \<lparr>epicName = ''Tasks without Epic'', issues = [ticketT2]\<rparr>),
          (''EPIC-1'', \<lparr>epicName = ''Login'', issues = [ticketT1]\<rparr>)]"
  by (simp add: grouper_eval ticket_eval)

lemma example_commands:
  "generateSlackCommands ''https://x.atlassian.net''
     [(''NO_EPIC'', \<lparr>epicName = ''Tasks without Epic'', issues = [ticketT2]\<rparr>),
      (''EPIC-1'', \<lparr>epicName = ''Login'', issues = [ticketT1]\<rparr>)] = exampleCommands"
proof -
  have "objectEntries [(''NO_EPIC'', \<lparr>epicName = ''Tasks without Epic'', issues = [ticketT2]\<rparr>),
      (''EPIC-1'', \<lparr>epicName = ''Login'', issues = [ticketT1]\<rparr>)] =
     [(''NO_EPIC'', \<lparr>epicName = ''Tasks without Epic'', issues = [ticketT2]\<rparr>),
      (''EPIC-1'', \<lparr>epicName = ''Login'', issues = [ticketT1]\<rparr>)]"
    by (intro objectEntries_no_index) (simp add: isArrayIndex_def isDigit_def)
  then show ?thesis
    by (simp add: generateSlackCommands_concat groupText_def commandLine_def ticket_eval
        exampleCommands_def)
qed

lemma example_search:
  "getReadyToSizeIssuesFromSprint (searchApi (exampleWorld arguments)) sprintId =
     ([ticketT1, ticketT2], [])"
  by (simp add: getReadyToSizeIssuesFromSprint_def exampleWorld_def)

lemma collected_emptyPages: "collected emptyPages b s n = []"
  by (simp add: collected_def pageValues_def emptyPages_def)

lemma emptyPages_never_stop: "\<not> listingStops emptyPages b n"
  by (simp add: listingStops_def collected_emptyPages MAX_SPRINTS_TO_FETCH_def morePages_def
      emptyPages_def list_all_iff)

lemmas world_eval =
  configMissing_def envOrEmpty_def exampleWorld_def exampleEnvironment_def ticketArgument_def
  ticketMode_def

lemma example_ticket_sprint:
  "sprintFromData
     (JObj [(''key'', JStr ''PROJ-123''),
            (''fields'', JObj [(''summary'', JStr ''Fix bug''),
                               (''cf[10007]'', JArr [sprintS1, sprintS2])])]) =
     Inr (Some (sprintObject sprintS2))"
  "getProp (sprintObject sprintS2) ''id'' = Inr (JNum 2)"
  by (simp_all add: sprintFromData_def getProp_def truthy_def isArray_def elements_def sprintS1_def
      sprintS2_def sprintObject_def fieldOf_def)

lemma example_next_sprint:
  "getNextSprint (onePage [sprintJan, sprintFeb]) exampleClock ''42'' = Some (Some sprintFeb, [])"
  by (simp add: getNextSprint_def getAllSprints_def loop_onePage arraySort_def
      sortCompare_def compareSprints_def MAX_SPRINTS_TO_FETCH_def selectSprint_def
      sprintJan_def sprintFeb_def exampleClock_def)

lemma reserved_key_throws: "organizeIssuesByEpic [ticketT6] = Inl TypeError"
  by (simp add: grouper_eval ticketT6_def ticket_def epic_def)

theorem program_exit_code_witness:
  \<open>program unconfiguredWorld =
      Some \<lparr>exitCode = 1,
            console = [ErrorLine
              ''Missing required environment variables. Please check your .env file.'' None],
            filesAfter = files unconfiguredWorld\<rparr>
   \<and> program endlessWorld = None
   \<and> program unreachableWorld =
       Some \<lparr>exitCode = 0,
             console =
               [ErrorLine ''Error getting sprint from Agile API for ticket PROJ-123:''
                  (Some RequestFailed),
                ErrorLine ''No sprint found for ticket PROJ-123.'' None],
             filesAfter = files unreachableWorld\<rparr>
   \<and> program noSprintWorld =
       Some \<lparr>exitCode = 0,
             console = [ErrorLine ''No sprint found for ticket PROJ-123.'' None],
             filesAfter = files noSprintWorld\<rparr>
   \<and> program (searchFailsWorld [''PROJ-123'']) =
       Some \<lparr>exitCode = 0,
             console =
               [ErrorLine ''Error fetching issues:'' (Some RequestFailed),
                Printed ''No issues with "Ready to Size" status found in the sprint.''],
             filesAfter = files (searchFailsWorld [''PROJ-123''])\<rparr>
   \<and> program (searchFindsWorld [''PROJ-123''] []) =
       Some \<lparr>exitCode = 0,
             console = [Printed ''No issues with "Ready to Size" status found in the sprint.''],
             filesAfter = files (searchFindsWorld [''PROJ-123''] [])\<rparr>
   \<and> program (searchFindsWorld [''PROJ-123''] [ticketT6]) =
       Some \<lparr>exitCode = 0,
             console = [ErrorLine ''An error occurred:'' (Some TypeError)],
             filesAfter = files (searchFindsWorld [''PROJ-123''] [ticketT6])\<rparr>
   \<and> program readOnlyWorld =
       Some \<lparr>exitCode = 0,
             console =
               [Printed exampleCommands, ErrorLine ''An error occurred:'' (Some WriteFailed)],
             filesAfter = files readOnlyWorld\<rparr>
   \<and> program listingFailsWorld =
       Some \<lparr>exitCode = 0,
             console =
               [ErrorLine ''Error fetching sprints for board 42:'' (Some RequestFailed),
                ErrorLine ''No future sprint found.'' None],
             filesAfter = files listingFailsWorld\<rparr>
   \<and> program noDataWorld =
       Some \<lparr>exitCode = 0, console = [ErrorLine ''No future sprint found.'' None],
             filesAfter = files noDataWorld\<rparr>
   \<and> program emptyBoardWorld =
       Some \<lparr>exitCode = 0, console = [ErrorLine ''No future sprint found.'' None],
             filesAfter = files emptyBoardWorld\<rparr>
   \<and> program (searchFailsWorld []) =
       Some \<lparr>exitCode = 0,
             console =
               [ErrorLine ''Error fetching issues:'' (Some RequestFailed),
                Printed ''No issues with "Ready to Size" status found in the next sprint.''],
             filesAfter = files (searchFailsWorld [])\<rparr>
   \<and> program (searchFindsWorld [] []) =
       Some \<lparr>exitCode = 0,
             console =
               [Printed ''No issues with "Ready to Size" status found in the next sprint.''],
             filesAfter = files (searchFindsWorld [] [])\<rparr>
   \<and> program (searchFindsWorld [] [ticketT6]) =
       Some \<lparr>exitCode = 0,
             console = [ErrorLine ''An error occurred:'' (Some TypeError)],
             filesAfter = files (searchFindsWorld [] [ticketT6])\<rparr>
   \<and> exitCode \<lparr>exitCode = 0, console = [ErrorLine ''No future sprint found.'' None],
             filesAfter = files noDataWorld\<rparr> = 0
   \<and> (\<exists>sprintId. getProp (sprintObject sprintS2) ''id'' = Inr sprintId)
   \<and> (\<exists>selected out. getNextSprint (onePage []) exampleClock ''42'' = Some (selected, out))\<close>
proof -
  let ?key = "''PROJ-123''"
  let ?d = "JObj [(''key'', JStr ''PROJ-123''),
                  (''fields'', JObj [(''summary'', JStr ''Fix bug''),
                                     (''cf[10007]'', JArr [sprintS1, sprintS2])])]"
  let ?none = "JObj [(''key'', JStr ''PROJ-123''),
                     (''fields'', JObj [(''summary'', JStr ''Fix bug''), (''cf[10007]'', JArr [])])]"
  let ?sp = "sprintObject sprintS2"
  let ?groups = "[(''NO_EPIC'', \<lparr>epicName = ''Tasks without Epic'', issues = [ticketT2]\<rparr>),
                  (''EPIC-1'', \<lparr>epicName = ''Login'', issues = [ticketT1]\<rparr>)]"
  note ticket_block = conjunct2 [THEN conjunct2, THEN conjunct2, THEN conjunct1, THEN mp]
  note board_block = conjunct2 [THEN conjunct2, THEN conjunct2, THEN conjunct2, THEN conjunct1, THEN mp]
  note path1 = conjunct1 [THEN mp]
  note path2 = conjunct2 [THEN conjunct1, THEN mp]
  note path3 = conjunct2 [THEN conjunct2, THEN conjunct1, THEN mp]
  note path4 = conjunct2 [THEN conjunct2, THEN conjunct2, THEN conjunct1, THEN mp]
  note path5 = conjunct2 [THEN conjunct2, THEN conjunct2, THEN conjunct2, THEN conjunct1, THEN mp]
  note path6 = conjunct2 [THEN conjunct2, THEN conjunct2, THEN conjunct2, THEN conjunct2, THEN mp]

  have m: "configMissing unconfiguredWorld"
    by (simp add: configMissing_def envOrEmpty_def unconfiguredWorld_def)
  note p1 = program_exit_code [where w = unconfiguredWorld, THEN conjunct1, THEN mp, OF m]

  have c2: "\<not> configMissing endlessWorld \<and> \<not> ticketMode endlessWorld \<and>
      (\<forall>n. \<not> listingStops (sprintApi endlessWorld) (envOrEmpty endlessWorld ''JIRA_BOARD_ID'') n)"
    by (simp add: endlessWorld_def world_eval emptyPages_never_stop)
  note p2 = program_exit_code [where w = endlessWorld, THEN conjunct2, THEN conjunct1,
      THEN iffD2, OF c2]

  have c3: "\<not> configMissing unreachableWorld \<and>
      ticketArgument unreachableWorld = Some ?key \<and> ?key \<noteq> []"
    by (simp add: unreachableWorld_def world_eval)
  have a3: "agileApi unreachableWorld ?key = Inl RequestFailed \<or>
      (agileApi unreachableWorld ?key = Inr d \<and> sprintFromData d = Inl RequestFailed)" for d
    by (simp add: unreachableWorld_def)
  note p3 = program_exit_code [where w = unreachableWorld and ticketKey = ?key
      and e = RequestFailed, THEN ticket_block, OF c3, THEN path1, OF a3]

  have c4: "\<not> configMissing noSprintWorld \<and>
      ticketArgument noSprintWorld = Some ?key \<and> ?key \<noteq> []"
    by (simp add: noSprintWorld_def world_eval)
  have a4: "agileApi noSprintWorld ?key = Inr ?none \<and> sprintFromData ?none = Inr None"
    by (simp add: noSprintWorld_def ticketWithSprints_def sprintFromData_def getProp_def
        truthy_def isArray_def elements_def)
  note p4 = program_exit_code [where w = noSprintWorld and ticketKey = ?key and d = ?none,
      THEN ticket_block, OF c4, THEN path2, OF a4]

  have c5: "\<not> configMissing (searchFailsWorld [?key]) \<and>
      ticketArgument (searchFailsWorld [?key]) = Some ?key \<and> ?key \<noteq> []"
    by (simp add: searchFailsWorld_def world_eval)
  have a5: "agileApi (searchFailsWorld [?key]) ?key = Inr ?d \<and>
      sprintFromData ?d = Inr (Some ?sp) \<and> getProp ?sp ''id'' = Inr (JNum 2) \<and>
      searchApi (searchFailsWorld [?key]) (JNum 2) = Inl RequestFailed"
    by (simp add: searchFailsWorld_def exampleWorld_def ticketWithSprints_def
        example_ticket_sprint)
  note p5 = program_exit_code [where w = "searchFailsWorld [?key]" and ticketKey = ?key
      and e = RequestFailed and d = ?d and sp = ?sp and sprintId = "JNum 2",
      THEN ticket_block, OF c5, THEN path3, OF a5]

  have c6: "\<not> configMissing (searchFindsWorld [?key] found) \<and>
      ticketArgument (searchFindsWorld [?key] found) = Some ?key \<and> ?key \<noteq> []" for found
    by (simp add: searchFindsWorld_def world_eval)
  have a6: "agileApi (searchFindsWorld [?key] found) ?key = Inr ?d \<and>
      sprintFromData ?d = Inr (Some ?sp) \<and> getProp ?sp ''id'' = Inr (JNum 2) \<and>
      searchApi (searchFindsWorld [?key] found) (JNum 2) = Inr (Some \<lparr>foundIssues = Some found\<rparr>)"
    for found
    by (simp add: searchFindsWorld_def exampleWorld_def ticketWithSprints_def
        example_ticket_sprint)
  have r6: "responseIssues (Some \<lparr>foundIssues = Some found\<rparr>) = found" for found
    by (simp add: responseIssues_def)
  have a6a: "agileApi (searchFindsWorld [?key] []) ?key = Inr ?d \<and>
      sprintFromData ?d = Inr (Some ?sp) \<and> getProp ?sp ''id'' = Inr (JNum 2) \<and>
      searchApi (searchFindsWorld [?key] []) (JNum 2) = Inr (Some \<lparr>foundIssues = Some []\<rparr>) \<and>
      responseIssues (Some \<lparr>foundIssues = Some []\<rparr>) = []"
    using a6 [of "[]"] by (simp add: r6)
  note p6 = program_exit_code [where w = "searchFindsWorld [?key] []" and ticketKey = ?key
      and d = ?d and sp = ?sp and sprintId = "JNum 2" and x = "Some \<lparr>foundIssues = Some []\<rparr>",
      THEN ticket_block, OF c6, THEN path4, OF a6a]

  have a7: "agileApi (searchFindsWorld [?key] [ticketT6]) ?key = Inr ?d \<and>
      sprintFromData ?d = Inr (Some ?sp) \<and> getProp ?sp ''id'' = Inr (JNum 2) \<and>
      searchApi (searchFindsWorld [?key] [ticketT6]) (JNum 2) =
        Inr (Some \<lparr>foundIssues = Some [ticketT6]\<rparr>) \<and>
      responseIssues (Some \<lparr>foundIssues = Some [ticketT6]\<rparr>) \<noteq> [] \<and>
      organizeIssuesByEpic (responseIssues (Some \<lparr>foundIssues = Some [ticketT6]\<rparr>)) = Inl TypeError"
    using a6 [of "[ticketT6]"] by (simp add: r6 reserved_key_throws)
  note p7 = program_exit_code [where w = "searchFindsWorld [?key] [ticketT6]" and ticketKey = ?key
      and d = ?d and sp = ?sp and sprintId = "JNum 2" and e = TypeError
      and x = "Some \<lparr>foundIssues = Some [ticketT6]\<rparr>",
      THEN ticket_block, OF c6, THEN path5, OF a7]

  have c8: "\<not> configMissing readOnlyWorld \<and>
      ticketArgument readOnlyWorld = Some ?key \<and> ?key \<noteq> []"
    by (simp add: readOnlyWorld_def world_eval)
  have a8: "agileApi readOnlyWorld ?key = Inr ?d \<and>
      sprintFromData ?d = Inr (Some ?sp) \<and> getProp ?sp ''id'' = Inr (JNum 2) \<and>
      searchApi readOnlyWorld (JNum 2) = Inr (Some \<lparr>foundIssues = Some [ticketT1, ticketT2]\<rparr>) \<and>
      responseIssues (Some \<lparr>foundIssues = Some [ticketT1, ticketT2]\<rparr>) \<noteq> [] \<and>
      organizeIssuesByEpic (responseIssues (Some \<lparr>foundIssues = Some [ticketT1, ticketT2]\<rparr>)) =
        Inr ?groups \<and>
      \<not> writable readOnlyWorld ''slack-commands.md''"
    by (simp add: readOnlyWorld_def exampleWorld_def ticketWithSprints_def
        example_ticket_sprint r6 example_groups)
  have e8: "envOrEmpty readOnlyWorld ''JIRA_BASE_URL'' = ''https://x.atlassian.net''"
    by (simp add: readOnlyWorld_def world_eval)
  note p8 = program_exit_code [where w = readOnlyWorld and ticketKey = ?key
      and d = ?d and sp = ?sp and sprintId = "JNum 2" and epicGroups = ?groups
      and x = "Some \<lparr>foundIssues = Some [ticketT1, ticketT2]\<rparr>",
      THEN ticket_block, OF c8, THEN path6, OF a8, unfolded e8 example_commands]

  have c9: "\<not> configMissing listingFailsWorld \<and> \<not> ticketMode listingFailsWorld"
    by (simp add: listingFailsWorld_def world_eval)
  have e9: "envOrEmpty listingFailsWorld ''JIRA_BOARD_ID'' = ''42''"
    by (simp add: listingFailsWorld_def world_eval)
  have a9: "(\<forall>i<1. morePages (sprintApi listingFailsWorld
                (envOrEmpty listingFailsWorld ''JIRA_BOARD_ID'') (50 * i) 50) (50 * i)) \<and>
      length (collected (sprintApi listingFailsWorld)
                (envOrEmpty listingFailsWorld ''JIRA_BOARD_ID'') 0 1) < MAX_SPRINTS_TO_FETCH \<and>
      sprintApi listingFailsWorld (envOrEmpty listingFailsWorld ''JIRA_BOARD_ID'') (50 * 1) 50
        = Inl RequestFailed"
    by (simp add: listingFailsWorld_def morePages_def secondPageFails_def collected_def
        pageValues_def MAX_SPRINTS_TO_FETCH_def)
  note p9 = program_exit_code [where w = listingFailsWorld and n = 1 and e = RequestFailed,
      THEN board_block, OF c9, THEN path1, OF a9]

  have c10: "\<not> configMissing noDataWorld \<and> \<not> ticketMode noDataWorld"
    by (simp add: noDataWorld_def world_eval)
  have a10: "sprintApi noDataWorld (envOrEmpty noDataWorld ''JIRA_BOARD_ID'') 0 50 = Inr None"
    by (simp add: noDataWorld_def)
  note p10 = program_exit_code [where w = noDataWorld, THEN board_block, OF c10, THEN path2, OF a10]
  note p15 = program_exit_code [where w = noDataWorld, THEN conjunct2, THEN conjunct2,
      THEN conjunct1, THEN spec, THEN mp, OF p10, THEN conjunct1]
  have n15: "\<not> configMissing noDataWorld" using c10 by simp

  have c11: "\<not> configMissing emptyBoardWorld \<and> \<not> ticketMode emptyBoardWorld"
    by (simp add: emptyBoardWorld_def world_eval)
  have a11: "getNextSprint (sprintApi emptyBoardWorld) (clock emptyBoardWorld)
      (envOrEmpty emptyBoardWorld ''JIRA_BOARD_ID'') = Some (None, [])"
    by (simp add: emptyBoardWorld_def world_eval getNextSprint_def getAllSprints_def loop_onePage
        arraySort_def selectSprint_def)
  note p11 = program_exit_code [where w = emptyBoardWorld and ?out1.0 = "[]",
      THEN board_block, OF c11, THEN path3, OF a11]

  have c12: "\<not> configMissing (searchFailsWorld []) \<and> \<not> ticketMode (searchFailsWorld [])"
    by (simp add: searchFailsWorld_def world_eval)
  have a12: "getNextSprint (sprintApi (searchFailsWorld [])) (clock (searchFailsWorld []))
      (envOrEmpty (searchFailsWorld []) ''JIRA_BOARD_ID'') = Some (Some sprintFeb, []) \<and>
      searchApi (searchFailsWorld []) (JNum (Sprint.id' sprintFeb)) = Inl RequestFailed"
    by (simp add: searchFailsWorld_def world_eval example_next_sprint)
  note p12 = program_exit_code [where w = "searchFailsWorld []" and ?out1.0 = "[]"
      and e = RequestFailed and nextSprint = sprintFeb,
      THEN board_block, OF c12, THEN path4, OF a12]

  have c13: "\<not> configMissing (searchFindsWorld [] found) \<and> \<not> ticketMode (searchFindsWorld [] found)"
    for found
    by (simp add: searchFindsWorld_def world_eval)
  have n13: "getNextSprint (sprintApi (searchFindsWorld [] found)) (clock (searchFindsWorld [] found))
      (envOrEmpty (searchFindsWorld [] found) ''JIRA_BOARD_ID'') = Some (Some sprintFeb, []) \<and>
      searchApi (searchFindsWorld [] found) (JNum (Sprint.id' sprintFeb)) =
        Inr (Some \<lparr>foundIssues = Some found\<rparr>)" for found
    by (simp add: searchFindsWorld_def world_eval example_next_sprint)
  have a13: "getNextSprint (sprintApi (searchFindsWorld [] [])) (clock (searchFindsWorld [] []))
      (envOrEmpty (searchFindsWorld [] []) ''JIRA_BOARD_ID'') = Some (Some sprintFeb, []) \<and>
      searchApi (searchFindsWorld [] []) (JNum (Sprint.id' sprintFeb)) =
        Inr (Some \<lparr>foundIssues = Some []\<rparr>) \<and>
      responseIssues (Some \<lparr>foundIssues = Some []\<rparr>) = []"
    using n13 [of "[]"] by (simp add: r6)
  note p13 = program_exit_code [where w = "searchFindsWorld [] []" and ?out1.0 = "[]"
      and nextSprint = sprintFeb and x = "Some \<lparr>foundIssues = Some []\<rparr>",
      THEN board_block, OF c13, THEN path5, OF a13]

  have a14: "getNextSprint (sprintApi (searchFindsWorld [] [ticketT6]))
        (clock (searchFindsWorld [] [ticketT6]))
        (envOrEmpty (searchFindsWorld [] [ticketT6]) ''JIRA_BOARD_ID'') = Some (Some sprintFeb, []) \<and>
      searchApi (searchFindsWorld [] [ticketT6]) (JNum (Sprint.id' sprintFeb)) =
        Inr (Some \<lparr>foundIssues = Some [ticketT6]\<rparr>) \<and>
      responseIssues (Some \<lparr>foundIssues = Some [ticketT6]\<rparr>) \<noteq> [] \<and>
      organizeIssuesByEpic (responseIssues (Some \<lparr>foundIssues = Some [ticketT6]\<rparr>)) = Inl TypeError"
    using n13 [of "[ticketT6]"] by (simp add: r6 reserved_key_throws)
  note p14 = program_exit_code [where w = "searchFindsWorld [] [ticketT6]" and ?out1.0 = "[]"
      and nextSprint = sprintFeb and e = TypeError and x = "Some \<lparr>foundIssues = Some [ticketT6]\<rparr>",
      THEN board_block, OF c13, THEN path6, OF a14]

  note p16 = program_exit_code [where d = ?d and sp = ?sp, THEN conjunct2, THEN conjunct2,
      THEN conjunct2, THEN conjunct2, THEN conjunct2, THEN conjunct1, THEN mp,
      OF example_ticket_sprint(1)]
  have s17: "\<exists>n. listingStops (sprintApi emptyBoardWorld)
      (envOrEmpty emptyBoardWorld ''JIRA_BOARD_ID'') n"
    by (rule exI [of _ 0])
      (simp add: listingStops_def emptyBoardWorld_def onePage_def morePages_def)
  have w17: "sprintApi emptyBoardWorld = onePage []" "clock emptyBoardWorld = exampleClock"
    "envOrEmpty emptyBoardWorld ''JIRA_BOARD_ID'' = ''42''"
    by (simp_all add: emptyBoardWorld_def world_eval)
  note p17 = program_exit_code [where w = emptyBoardWorld, THEN conjunct2, THEN conjunct2,
      THEN conjunct2, THEN conjunct2, THEN conjunct2, THEN conjunct2, THEN iffD2, OF s17,
      unfolded w17]
  from p1 p2 p3 p4 p5 p6 p7 p8 p9 p10 p11 p12 p13 p14 p15 n15 p16 p17 show ?thesis
    by (simp add: e9)
qed

theorem output_file_only_in_ticket_mode_witness:
  "\<not> configMissing (exampleWorld [''PROJ-123''])
   \<and> files (exampleWorld [''PROJ-123'']) ''slack-commands.md'' = Some ''old commands''
   \<and> program (exampleWorld [''PROJ-123'']) =
       Some \<lparr>exitCode = 0, console = [Printed exampleCommands],
             filesAfter = (files (exampleWorld [''PROJ-123'']))(''slack-commands.md'' \<mapsto> exampleCommands)\<rparr>
   \<and> \<not> configMissing (exampleWorld [])
   \<and> program (exampleWorld []) =
       Some \<lparr>exitCode = 0, console = [Printed exampleCommands],
             filesAfter = files (exampleWorld [])\<rparr>"
proof -
  let ?t = "exampleWorld [''PROJ-123'']"
  let ?b = "exampleWorld []"
  let ?groups = "[(''NO_EPIC'', \<lparr>epicName = ''Tasks without Epic'', issues = [ticketT2]\<rparr>),
                  (''EPIC-1'', \<lparr>epicName = ''Login'', issues = [ticketT1]\<rparr>)]"
  have old: "files ?t ''slack-commands.md'' = Some ''old commands''"
    by (simp add: exampleWorld_def)
  have t1: "ticketArgument ?t = Some ''PROJ-123''"
    by (simp add: ticketArgument_def exampleWorld_def)
  have t2: "getSprintFromAgileAPI (agileApi ?t) ''PROJ-123'' = (Some (sprintObject sprintS2), [])"
    by (simp add: exampleWorld_def getSprintFromAgileAPI_def ticketWithSprints_def
        sprintFromData_def getProp_def truthy_def isArray_def elements_def sprintS1_def sprintS2_def
        sprintObject_def fieldOf_def)
  have t3: "getProp (sprintObject sprintS2) ''id'' = Inr (JNum 2)"
    by (simp add: getProp_def sprintObject_def fieldOf_def sprintS2_def)
  have t4: "writable ?t ''slack-commands.md''" by (simp add: exampleWorld_def)
  from output_file_only_in_ticket_mode [OF exampleWorld_configured,
      of "[''PROJ-123'']" "''PROJ-123''" "sprintObject sprintS2" "[]" "JNum 2" "[ticketT1, ticketT2]" "[]" ?groups]
    t1 t2 t3 t4 example_search example_groups
  have p1: "program ?t =
       Some \<lparr>exitCode = 0, console = [Printed exampleCommands],
             filesAfter = (files ?t)(''slack-commands.md'' \<mapsto> exampleCommands)\<rparr>"
    by (simp add: exampleWorld_env example_commands)
  have b1: "\<not> ticketMode ?b"
    by (simp add: ticketMode_def ticketArgument_def exampleWorld_def)
  have b2: "getNextSprint (sprintApi ?b) (clock ?b) ''42'' = Some (Some sprintFeb, [])"
    by (simp add: exampleWorld_def getNextSprint_def getAllSprints_def loop_onePage arraySort_def
        sortCompare_def compareSprints_def MAX_SPRINTS_TO_FETCH_def selectSprint_def
        sprintJan_def sprintFeb_def exampleClock_def)
  from output_file_only_in_ticket_mode [OF exampleWorld_configured,
      of "[]" _ _ "[]" _ "[ticketT1, ticketT2]" "[]" ?groups sprintFeb]
    b1 b2 example_search example_groups
  have p2: "program ?b =
       Some \<lparr>exitCode = 0, console = [Printed exampleCommands], filesAfter = files ?b\<rparr>"
    by (simp add: exampleWorld_env example_commands)
  from p1 p2 old exampleWorld_configured show ?thesis by simp
qed

end
